(* ===== verification/Prelude.thy ===== *)
theory Prelude
  imports Main "HOL-Library.Word"
begin

text \<open>
  Shared vocabulary of the development: the machine types of the C++ sources, the result type of
  fallible functions, the fact collections the component theories extend, and the generic lemmas
  on lists, words and association lists that several components use.
\<close>

unbundle bit_operations_syntax

section \<open>Types and fact collections\<close>

type_synonym byte = "8 word"
type_synonym u16 = "16 word"
type_synonym u32 = "32 word"
type_synonym u64 = "64 word"

named_theorems wire_simps \<open>evaluation of the byte-level readers and writers\<close>
named_theorems inv_intros \<open>preservation of component invariants by the operations\<close>

text \<open>\<open>size_t\<close> is 64 bits wide on the targets of the build; sums that the code guards against
  wrap-around are written with their wrap-around.\<close>

definition size_add :: "nat \<Rightarrow> nat \<Rightarrow> nat" where
  "size_add a b = (a + b) mod 2 ^ 64"

lemma size_add_exact [simp]: "a + b < 2 ^ 64 \<Longrightarrow> size_add a b = a + b"
  by (simp add: size_add_def)

section \<open>Results of fallible functions\<close>

text \<open>A function of the sources that reports failure returns the error on the left. Sequencing
  stops at the first failure, as the early returns and the short-circuit \<open>||\<close> chains do.\<close>

definition and_then :: "'e + 'a \<Rightarrow> ('a \<Rightarrow> 'e + 'b) \<Rightarrow> 'e + 'b" where
  "and_then r k = (case r of Inl e \<Rightarrow> Inl e | Inr a \<Rightarrow> k a)"

lemma and_then_Inl [simp]: "and_then (Inl e) k = Inl e"
  by (simp add: and_then_def)

lemma and_then_Inr [simp]: "and_then (Inr a) k = k a"
  by (simp add: and_then_def)

lemma and_then_Inr_conv: "and_then r k = Inr b \<longleftrightarrow> (\<exists>a. r = Inr a \<and> k a = Inr b)"
  by (cases r) auto

lemma and_then_cong [fundef_cong]:
  "r = r' \<Longrightarrow> (\<And>a. r' = Inr a \<Longrightarrow> k a = k' a) \<Longrightarrow> and_then r k = and_then r' k'"
  by (cases r') auto

section \<open>Words\<close>

lemma unat_u16_less: "unat (w :: u16) < 65536"
  by (rule order_less_le_trans [OF unsigned_less]) simp

lemma unat_u32_less: "unat (w :: u32) < 4294967296"
  by (rule order_less_le_trans [OF unsigned_less]) simp

lemma unat_u64_less: "unat (w :: u64) < 18446744073709551616"
  by (rule order_less_le_trans [OF unsigned_less]) simp

lemmas unat_machine_bounds = unat_u16_less unat_u32_less unat_u64_less

lemma unat_max_word [simp]:
  "unat (- 1 :: u16) = 65535" "unat (- 1 :: u32) = 4294967295"
  "unat (- 1 :: u64) = 18446744073709551615"
  by (simp_all add: unsigned_minus_1_eq_mask mask_eq_exp_minus_1)

lemma unat_add_no_wrap: "unat a + unat b < 2 ^ LENGTH('a) \<Longrightarrow> unat (a + b) = unat a + unat b"
  for a b :: "'a::len word"
  by (simp add: unat_word_ariths)

lemma word_le_minus_iff: "a \<le> - 1 - b \<longleftrightarrow> unat a + unat b < 2 ^ LENGTH('a)"
  for a b :: "'a::len word"
proof -
  have "unat (- 1 - b) = unat (- 1 :: 'a word) - unat b"
    by (rule unat_sub) simp
  then have "unat (- 1 - b) = 2 ^ LENGTH('a) - 1 - unat b"
    by (simp add: unsigned_minus_1_eq_mask mask_eq_exp_minus_1)
  moreover have "unat b < 2 ^ LENGTH('a)" by (rule unsigned_less)
  ultimately show ?thesis unfolding word_le_nat_alt by linarith
qed

lemma word_succ_greater: "w \<noteq> - 1 \<Longrightarrow> w < w + 1" for w :: "'a::len word"
proof -
  assume "w \<noteq> - 1"
  then have "unat w \<noteq> 2 ^ LENGTH('a) - 1"
    by (simp add: word_unat_eq_iff unsigned_minus_1_eq_mask mask_eq_exp_minus_1)
  moreover have "unat w < 2 ^ LENGTH('a)" by (rule unsigned_less)
  ultimately have "unat w + 1 < 2 ^ LENGTH('a)" by linarith
  then have "unat (w + 1) = unat w + unat (1 :: 'a word)" by (intro unat_add_no_wrap) simp
  then show "w < w + 1" by (simp add: word_less_nat_alt)
qed

text \<open>Bytes of a word: byte \<open>k\<close> of the little-endian layout holds the bits from \<open>k\<close> to \<open>k + 7\<close>.\<close>

lemma bit_0xff: "bit (0xff :: 'a::len word) n \<longleftrightarrow> n < 8 \<and> n < LENGTH('a)"
proof -
  have "bit (mask 8 :: 'a word) n \<longleftrightarrow> n < 8 \<and> n < LENGTH('a)" by (auto simp: bit_mask_iff)
  moreover have "mask 8 = (0xff :: 'a word)" by (simp add: mask_eq_exp_minus_1)
  ultimately show ?thesis by metis
qed

lemma bit_le_byte: "bit (ucast (drop_bit k v AND 0xff) :: byte) n \<longleftrightarrow> n < 8 \<and> bit v (k + n)"
  for v :: "'a::len word"
proof -
  have "bit (ucast (drop_bit k v AND 0xff) :: byte) n \<longleftrightarrow> n < 8 \<and> bit (drop_bit k v AND 0xff) n"
    by (simp only: bit_unsigned_iff possible_bit_word) simp
  also have "\<dots> \<longleftrightarrow> n < 8 \<and> bit v (k + n) \<and> n < LENGTH('a)"
    by (simp only: bit_and_iff bit_0xff bit_drop_bit_eq comp_def) blast
  also have "\<dots> \<longleftrightarrow> n < 8 \<and> bit v (k + n)"
    by (auto dest: bit_imp_le_length)
  finally show ?thesis .
qed

lemma bit_le_shift:
  "bit (push_bit k (ucast (b :: byte)) :: 'a::len word) n \<longleftrightarrow> k \<le> n \<and> n < LENGTH('a) \<and> bit b (n - k)"
  by (auto simp: bit_push_bit_iff bit_unsigned_iff possible_bit_word)

lemma bit_le_part:
  "bit (push_bit k (ucast (ucast (drop_bit k v AND 0xff) :: byte)) :: 'a word) n \<longleftrightarrow>
     k \<le> n \<and> n < k + 8 \<and> bit v n" for v :: "'a::len word"
  by (auto simp: bit_le_shift bit_le_byte dest: bit_imp_le_length)

section \<open>Lists\<close>

lemma take_append_exact [simp]: "n = length xs \<Longrightarrow> take n (xs @ ys) = xs"
  by simp

lemma drop_append_exact [simp]: "n = length xs \<Longrightarrow> drop n (xs @ ys) = ys"
  by simp

lemma nth_append_offset: "i = length xs \<Longrightarrow> (xs @ y # ys) ! i = y"
  by simp

lemma length_Suc_unfold: "length xs = Suc n \<longleftrightarrow> (\<exists>y ys. xs = y # ys \<and> length ys = n)"
  by (cases xs) auto

section \<open>Association lists\<close>

text \<open>An unordered map whose iteration order the standard leaves open is an association list with
  distinct keys: the list order stands for whatever order the iteration takes.\<close>

definition assoc_erase :: "'k \<Rightarrow> ('k \<times> 'v) list \<Rightarrow> ('k \<times> 'v) list" where
  "assoc_erase k kvs = filter (\<lambda>p. fst p \<noteq> k) kvs"

definition assoc_modify :: "'k \<Rightarrow> ('v \<Rightarrow> 'v) \<Rightarrow> ('k \<times> 'v) list \<Rightarrow> ('k \<times> 'v) list" where
  "assoc_modify k f kvs = map (\<lambda>p. if fst p = k then (fst p, f (snd p)) else p) kvs"

lemma map_of_assoc_erase: "map_of (assoc_erase k kvs) = (map_of kvs)(k := None)"
  by (induction kvs) (auto simp: assoc_erase_def fun_eq_iff)

lemma map_of_assoc_modify:
  "map_of (assoc_modify k f kvs) = (map_of kvs)(k := map_option f (map_of kvs k))"
  by (induction kvs) (auto simp: assoc_modify_def fun_eq_iff)

lemma keys_assoc_erase: "fst ` set (assoc_erase k kvs) = fst ` set kvs - {k}"
  by (auto simp: assoc_erase_def)

lemma keys_assoc_modify [simp]: "map fst (assoc_modify k f kvs) = map fst kvs"
  by (simp add: assoc_modify_def)

lemma distinct_assoc_erase: "distinct (map fst kvs) \<Longrightarrow> distinct (map fst (assoc_erase k kvs))"
  by (simp add: assoc_erase_def distinct_map_filter)

lemma length_assoc_erase: "length (assoc_erase k kvs) \<le> length kvs"
  by (simp add: assoc_erase_def)

section \<open>Queues with byte accounting\<close>

text \<open>
  The queues of the bridge, the session's event queue, the client's outbound queue and the
  transport's callback queue, are deques that keep the number of payload bytes they hold in a
  counter. Taking an element subtracts its cost; the session and the client subtract \<open>std::min\<close> of
  the counter and the cost, the transport subtracts plainly, with wrap-around. The contract: pushing
  appends and adds, popping removes the head and subtracts when the counter covers the cost. From it,
  a counter that starts out right stays right: neither the \<open>min\<close> nor the wrap-around takes effect.
\<close>

definition saturating_sub :: "nat \<Rightarrow> nat \<Rightarrow> nat" where
  "saturating_sub a b = a - min a b"

lemma saturating_sub_eq: "saturating_sub a b = a - b"
  by (simp add: saturating_sub_def min_def)

locale accounted_queue =
  fixes elems :: "'s \<Rightarrow> 'a list"
    and counter :: "'s \<Rightarrow> nat"
    and cost :: "'a \<Rightarrow> nat"
    and push :: "'a \<Rightarrow> 's \<Rightarrow> 's"
    and pop :: "'s \<Rightarrow> ('a \<times> 's) option"
  assumes push_elems: "elems (push a s) = elems s @ [a]"
    and push_counter: "counter (push a s) = counter s + cost a"
    and pop_empty: "elems s = [] \<Longrightarrow> pop s = None"
    and pop_head: "elems s = a # as \<Longrightarrow> \<exists>s'. pop s = Some (a, s') \<and> elems s' = as \<and>
          (cost a \<le> counter s \<longrightarrow> counter s' = counter s - cost a)"
begin

definition accounted :: "'s \<Rightarrow> bool" where
  "accounted s \<longleftrightarrow> counter s = sum_list (map cost (elems s))"

lemma accounted_push: "accounted s \<Longrightarrow> accounted (push a s)"
  by (simp add: accounted_def push_elems push_counter)

lemma accounted_pop: "accounted s \<Longrightarrow> pop s = Some (a, s') \<Longrightarrow> accounted s'"
  using pop_empty [of s] pop_head [of s]
  by (cases "elems s") (auto simp: accounted_def)

lemma pop_exact:
  assumes "accounted s" and "pop s = Some (a, s')"
  shows "cost a \<le> counter s \<and> counter s' = counter s - cost a \<and> elems s = a # elems s'"
  using assms pop_empty [of s] pop_head [of s]
  by (cases "elems s") (auto simp: accounted_def)

lemma pop_None: "pop s = None \<longleftrightarrow> elems s = []"
  using pop_empty [of s] pop_head [of s] by (cases "elems s") auto

end

section \<open>Fixed-width little-endian codecs\<close>

text \<open>
  The contract between a writer of fixed-width integers on one side of a wire or file format and
  the reader on the other side: the writer appends \<open>width\<close> bytes, the reader looks at the first
  \<open>width\<close> bytes only and gives the written value back, and every byte string of that width is the
  image of the value read from it.
\<close>

locale le_codec =
  fixes width :: nat
    and put :: "byte list \<Rightarrow> 'a::len word \<Rightarrow> byte list"
    and get :: "byte list \<Rightarrow> 'a word"
  assumes write_appends: "put out v = out @ put [] v"
    and width_write: "length (put [] v) = width"
    and read_prefix: "width \<le> length bs \<Longrightarrow> get (bs @ rest) = get bs"
    and read_written: "get (put [] v) = v"
    and write_of_read: "length bs = width \<Longrightarrow> put [] (get bs) = bs"
begin

lemma read_write: "get (put [] v @ rest) = v"
  by (simp add: read_prefix width_write read_written)

lemma read_at: "length pre = i \<Longrightarrow> get (drop i (pre @ put [] v @ rest)) = v"
  by (simp add: read_write)

lemma write_inj: "put [] v @ r = put [] v' @ r' \<longleftrightarrow> v = v' \<and> r = r'"
  by (metis append_eq_append_conv read_written width_write)

lemma read_take: "width \<le> length bs \<Longrightarrow> get (take width bs) = get bs"
  using read_prefix [of "take width bs" "drop width bs"] by simp

end

end
