(* ===== verification/Protocol_Types.thy ===== *)
theory Protocol_Types
  imports Prelude
begin

text \<open>
  The value types of \<open>src/qwen_tts_bridge/data/\<close>: the enumerations of \<open>enums.hpp\<close>, the framing
  structures and limits of \<open>protocol_types.hpp\<close>, and the PCM structures of \<open>audio_types.hpp\<close>.
  Default member initialisers are the \<open>default_\<close> constants.
\<close>

section \<open>Enumerations\<close>

text \<open>A scoped enumeration with a fixed underlying type can hold any value of that type, which is
  why the encoder checks the value it is given: \<open>OtherFrameType\<close> is such a value.\<close>

datatype FrameType = ControlJson | AudioPcm | ErrorJson | OtherFrameType u16

datatype ParseStatus = NeedMoreData | FrameReady | FatalError

datatype ProtocolError =
    PE_None
  | InvalidMagic
  | UnsupportedProtocolVersion
  | HeaderTooSmall
  | HeaderTooLarge
  | UnknownFrameType
  | UnsupportedFlags
  | PayloadTooLarge

datatype EncodeError =
    EE_None
  | EE_UnsupportedProtocolVersion
  | EE_UnsupportedHeaderSize
  | EE_UnknownFrameType
  | EE_UnsupportedFlags
  | EE_PayloadSizeMismatch
  | EE_PayloadTooLarge

text \<open>The underlying value of an enumerator and the cast back (\<open>static_cast\<close>).\<close>

fun frame_type_value :: "FrameType \<Rightarrow> u16" where
  "frame_type_value ControlJson = 1"
| "frame_type_value AudioPcm = 2"
| "frame_type_value ErrorJson = 3"
| "frame_type_value (OtherFrameType v) = v"

definition to_frame_type :: "u16 \<Rightarrow> FrameType" where
  "to_frame_type v =
     (if v = 1 then ControlJson else if v = 2 then AudioPcm else if v = 3 then ErrorJson
      else OtherFrameType v)"

lemma frame_type_value_to_frame_type [simp]: "frame_type_value (to_frame_type v) = v"
  by (simp add: to_frame_type_def)

section \<open>Protocol limits\<close>

definition protocol_version_limit :: u16 where "protocol_version_limit = 1"
definition min_header_size :: u16 where "min_header_size = 24"
definition max_header_size :: u16 where "max_header_size = 256"
definition max_control_payload_bytes :: u32 where "max_control_payload_bytes = 1024 * 1024"
definition max_audio_payload_bytes :: u32 where "max_audio_payload_bytes = 16 * 1024 * 1024"
definition max_error_payload_bytes :: u32 where "max_error_payload_bytes = 1024 * 1024"
definition max_frame_payload_bytes :: u32 where "max_frame_payload_bytes = 16 * 1024 * 1024"

lemmas limit_defs = protocol_version_limit_def min_header_size_def max_header_size_def
  max_control_payload_bytes_def max_audio_payload_bytes_def max_error_payload_bytes_def
  max_frame_payload_bytes_def

section \<open>Frames\<close>

type_synonym RequestId = u64

record FrameHeader =
  protocol_version :: u16
  header_size :: u16
  frame_type :: FrameType
  flags :: u16
  payload_size :: u32
  request_id :: RequestId

record Frame =
  header :: FrameHeader
  payload :: "byte list"

record ParseResult =
  status :: ParseStatus
  pr_error :: ProtocolError
  pr_message :: string
  frame :: Frame

record EncodeResult =
  er_bytes :: "byte list"
  er_error :: EncodeError
  er_message :: string

definition default_header :: FrameHeader where
  "default_header = \<lparr>protocol_version = protocol_version_limit, header_size = min_header_size,
     frame_type = ControlJson, flags = 0, payload_size = 0, request_id = 0\<rparr>"

definition default_frame :: Frame where
  "default_frame = \<lparr>header = default_header, payload = []\<rparr>"

definition default_parse_result :: ParseResult where
  "default_parse_result =
     \<lparr>status = NeedMoreData, pr_error = PE_None, pr_message = '''', frame = default_frame\<rparr>"

definition default_encode_result :: EncodeResult where
  "default_encode_result = \<lparr>er_bytes = [], er_error = EE_None, er_message = ''''\<rparr>"

text \<open>\<open>EncodeResult::operator bool\<close>.\<close>

definition encode_ok :: "EncodeResult \<Rightarrow> bool" where
  "encode_ok r \<longleftrightarrow> er_error r = EE_None"

section \<open>PCM values\<close>

record AudioFormat =
  sample_format :: string
  sample_rate :: u32
  channels :: u32

record PcmChunk =
  pcm_request_id :: RequestId
  pcm_format :: AudioFormat
  pcm_bytes :: "byte list"
  first_sample :: u64
  sample_count :: u32

record SpeechTimingChunk =
  st_request_id :: RequestId
  st_first_sample :: u64
  st_sample_count :: u32
  st_sample_rate :: u32

definition default_audio_format :: AudioFormat where
  "default_audio_format = \<lparr>sample_format = ''s16le'', sample_rate = 24000, channels = 1\<rparr>"

end
