(* ===== verification/Frame_Parser.thy ===== *)
theory Frame_Parser
  imports Frame_Codec
begin

text \<open>
  \<open>src/qwen_tts_bridge/protocol/framing/frame_parser.cpp\<close>: the incremental parser over a growing
  buffer with a read offset. The theory relates it to a parser on the unread bytes alone
  (\<open>next_frame\<close>), shows that compaction is invisible, and proves that splitting the stream into
  chunks does not change the frames delivered.
\<close>

section \<open>Readers\<close>

text \<open>A \<open>const std::byte*\<close> into the buffer is the list of the bytes from that position on.\<close>

definition read_u16_le :: "byte list \<Rightarrow> u16" where
  "read_u16_le d = ucast (d ! 0) OR push_bit 8 (ucast (d ! 1))"

definition read_u32_le :: "byte list \<Rightarrow> u32" where
  "read_u32_le d = ucast (d ! 0) OR push_bit 8 (ucast (d ! 1)) OR push_bit 16 (ucast (d ! 2)) OR
     push_bit 24 (ucast (d ! 3))"

definition read_u64_le :: "byte list \<Rightarrow> u64" where
  "read_u64_le d = fold (\<lambda>i v. v OR push_bit (i * 8) (ucast (d ! i))) [0..<8] 0"

definition has_magic :: "byte list \<Rightarrow> bool" where
  "has_magic d \<longleftrightarrow> (\<forall>i\<in>set [0..<4]. d ! i = kMagic ! i)"

section \<open>The parser\<close>

record FrameParser =
  buffer :: "byte list"
  read_offset :: nat
  fatal :: bool
  fatal_error :: ProtocolError
  fatal_message :: string

definition new_parser :: FrameParser where
  "new_parser = \<lparr>buffer = [], read_offset = 0, fatal = False, fatal_error = PE_None,
     fatal_message = ''''\<rparr>"

definition fatal_result :: "ProtocolError \<Rightarrow> string \<Rightarrow> ParseResult" where
  "fatal_result e m = default_parse_result\<lparr>status := FatalError, pr_error := e, pr_message := m\<rparr>"

definition parser_append :: "byte list \<Rightarrow> FrameParser \<Rightarrow> FrameParser" where
  "parser_append data p = (if fatal p \<or> data = [] then p else p\<lparr>buffer := buffer p @ data\<rparr>)"

definition compact_threshold :: nat where "compact_threshold = 64 * 1024"

definition compact_buffer :: "FrameParser \<Rightarrow> FrameParser" where
  "compact_buffer p =
     (if read_offset p = 0 then p
      else if read_offset p = length (buffer p) then p\<lparr>buffer := [], read_offset := 0\<rparr>
      else if read_offset p \<ge> compact_threshold \<or> read_offset p > length (buffer p) div 2 then
        p\<lparr>buffer := drop (read_offset p) (buffer p), read_offset := 0\<rparr>
      else p)"

definition make_fatal :: "ProtocolError \<Rightarrow> string \<Rightarrow> FrameParser \<Rightarrow> ParseResult \<times> FrameParser" where
  "make_fatal e m p = (fatal_result e m, p\<lparr>fatal := True, fatal_error := e, fatal_message := m\<rparr>)"

definition parse_next :: "FrameParser \<Rightarrow> ParseResult \<times> FrameParser" where
  "parse_next p =
     (if fatal p then (fatal_result (fatal_error p) (fatal_message p), p)
      else if length (buffer p) - read_offset p < unat min_header_size then (default_parse_result, p)
      else
        (let data = drop (read_offset p) (buffer p) in
         if \<not> has_magic data then make_fatal InvalidMagic ''invalid frame magic'' p
         else
           (let version = read_u16_le (drop 4 data);
                hsize = read_u16_le (drop 6 data);
                type_value = read_u16_le (drop 8 data);
                flag_bits = read_u16_le (drop 10 data);
                psize = read_u32_le (drop 12 data);
                rid = read_u64_le (drop 16 data)
            in
            if version \<noteq> protocol_version_limit then
              make_fatal UnsupportedProtocolVersion ''unsupported protocol version'' p
            else if hsize < min_header_size then
              make_fatal HeaderTooSmall ''header size is smaller than v1 minimum'' p
            else if hsize > max_header_size then
              make_fatal HeaderTooLarge ''header size exceeds v1 maximum'' p
            else if \<not> is_known_frame_type type_value then
              make_fatal UnknownFrameType ''unknown frame type'' p
            else if flag_bits \<noteq> 0 then
              make_fatal UnsupportedFlags ''unsupported frame flags'' p
            else
              (let ftype = to_frame_type type_value in
               if psize > max_frame_payload_bytes \<or> psize > max_payload_size ftype then
                 make_fatal PayloadTooLarge ''payload size exceeds v1 limit'' p
               else
                 (let total = size_add (unat hsize) (unat psize) in
                  if total < unat hsize then make_fatal PayloadTooLarge ''frame size overflow'' p
                  else if length (buffer p) - read_offset p < total then (default_parse_result, p)
                  else
                    (let fr = \<lparr>header = \<lparr>protocol_version = version, header_size = hsize,
                                frame_type = ftype, flags = flag_bits, payload_size = psize,
                                request_id = rid\<rparr>,
                              payload = take (total - unat hsize) (drop (read_offset p + unat hsize) (buffer p))\<rparr>;
                         p' = compact_buffer (p\<lparr>read_offset := read_offset p + total\<rparr>)
                     in (default_parse_result\<lparr>status := FrameReady, frame := fr\<rparr>, p')))))))"

definition buffered_size :: "FrameParser \<Rightarrow> nat" where
  "buffered_size p = length (buffer p) - read_offset p"

definition parser_clear :: "FrameParser \<Rightarrow> FrameParser" where
  "parser_clear p = p\<lparr>buffer := [], read_offset := 0, fatal := False, fatal_error := PE_None,
     fatal_message := ''''\<rparr>"

section \<open>Readers invert writers\<close>

lemma read_u64_le_eq:
  "read_u64_le d = ucast (d ! 0) OR push_bit 8 (ucast (d ! 1)) OR push_bit 16 (ucast (d ! 2)) OR
     push_bit 24 (ucast (d ! 3)) OR push_bit 32 (ucast (d ! 4)) OR push_bit 40 (ucast (d ! 5)) OR
     push_bit 48 (ucast (d ! 6)) OR push_bit 56 (ucast (d ! 7))"
  by (simp add: read_u64_le_def upt_rec or.assoc numeral_eq_Suc)

lemma write_u64_le_eq:
  "write_u64_le [] v =
     [ucast (drop_bit 0 v AND 0xff), ucast (drop_bit 8 v AND 0xff), ucast (drop_bit 16 v AND 0xff),
      ucast (drop_bit 24 v AND 0xff), ucast (drop_bit 32 v AND 0xff), ucast (drop_bit 40 v AND 0xff),
      ucast (drop_bit 48 v AND 0xff), ucast (drop_bit 56 v AND 0xff)]"
  by (simp add: write_u64_le_def upt_rec)

lemma read_written_u16: "read_u16_le (write_u16_le [] v) = v"
proof (rule bit_word_eqI)
  fix n assume "n < LENGTH(16)"
  then show "bit (read_u16_le (write_u16_le [] v)) n = bit v n"
    using bit_le_part [of 0 v n]
    by (simp add: read_u16_le_def write_u16_le_def bit_or_iff bit_le_part) arith
qed

lemma read_written_u32: "read_u32_le (write_u32_le [] v) = v"
proof (rule bit_word_eqI)
  fix n assume "n < LENGTH(32)"
  then show "bit (read_u32_le (write_u32_le [] v)) n = bit v n"
    using bit_le_part [of 0 v n]
    by (simp add: read_u32_le_def write_u32_le_def bit_or_iff bit_le_part) arith
qed

lemma read_written_u64: "read_u64_le (write_u64_le [] v) = v"
proof (rule bit_word_eqI)
  fix n assume "n < LENGTH(64)"
  then show "bit (read_u64_le (write_u64_le [] v)) n = bit v n"
    using bit_le_part [of 0 v n]
    by (simp add: read_u64_le_eq write_u64_le_eq bit_or_iff bit_le_part) arith
qed

text \<open>In the other direction, each byte of the input is one byte of the value read.\<close>

lemma le_byte_eqI:
  "(\<And>n. n < 8 \<Longrightarrow> bit v (k + n) = bit b n) \<Longrightarrow> ucast (drop_bit k v AND 0xff) = (b :: byte)"
  for v :: "'a::len word"
  by (rule bit_word_eqI) (simp add: bit_le_byte)

lemma bit_byte_beyond: "8 \<le> n \<Longrightarrow> \<not> bit (b :: byte) n"
  using bit_imp_le_length [of b n] by auto

lemma bit_le_low: "bit (ucast (b :: byte) :: 'a::len word) n \<longleftrightarrow> n < LENGTH('a) \<and> bit b n"
  using bit_le_shift [of 0 b n, where 'a = 'a] by simp

lemmas le_byte_simps = bit_or_iff bit_le_low bit_le_shift bit_byte_beyond

lemma write_of_read_u16:
  assumes "length bs = 2"
  shows "write_u16_le [] (read_u16_le bs) = bs"
proof -
  obtain a b where bs: "bs = [a, b]"
    using assms by (auto simp: numeral_eq_Suc length_Suc_unfold)
  have "ucast (drop_bit 0 (read_u16_le bs) AND 0xff) = a"
    and "ucast (drop_bit 8 (read_u16_le bs) AND 0xff) = b"
    by (intro le_byte_eqI; simp add: bs read_u16_le_def le_byte_simps)+
  then show ?thesis by (simp add: write_u16_le_def bs)
qed

lemma write_of_read_u32:
  assumes "length bs = 4"
  shows "write_u32_le [] (read_u32_le bs) = bs"
proof -
  obtain a b c d where bs: "bs = [a, b, c, d]"
    using assms by (auto simp: numeral_eq_Suc length_Suc_unfold)
  have "ucast (drop_bit 0 (read_u32_le bs) AND 0xff) = a"
    and "ucast (drop_bit 8 (read_u32_le bs) AND 0xff) = b"
    and "ucast (drop_bit 16 (read_u32_le bs) AND 0xff) = c"
    and "ucast (drop_bit 24 (read_u32_le bs) AND 0xff) = d"
    by (intro le_byte_eqI; simp add: bs read_u32_le_def le_byte_simps)+
  then show ?thesis by (simp add: write_u32_le_def bs)
qed

lemma write_of_read_u64:
  assumes "length bs = 8"
  shows "write_u64_le [] (read_u64_le bs) = bs"
proof -
  obtain a b c d e f g h where bs: "bs = [a, b, c, d, e, f, g, h]"
    using assms by (auto simp: numeral_eq_Suc length_Suc_unfold)
  have "ucast (drop_bit 0 (read_u64_le bs) AND 0xff) = a"
    and "ucast (drop_bit 8 (read_u64_le bs) AND 0xff) = b"
    and "ucast (drop_bit 16 (read_u64_le bs) AND 0xff) = c"
    and "ucast (drop_bit 24 (read_u64_le bs) AND 0xff) = d"
    and "ucast (drop_bit 32 (read_u64_le bs) AND 0xff) = e"
    and "ucast (drop_bit 40 (read_u64_le bs) AND 0xff) = f"
    and "ucast (drop_bit 48 (read_u64_le bs) AND 0xff) = g"
    and "ucast (drop_bit 56 (read_u64_le bs) AND 0xff) = h"
    by (intro le_byte_eqI; simp add: bs read_u64_le_eq le_byte_simps)+
  then show ?thesis by (simp add: write_u64_le_eq bs)
qed

interpretation u16_wire: le_codec 2 write_u16_le read_u16_le
proof unfold_locales
  show "read_u16_le (bs @ rest) = read_u16_le bs" if "2 \<le> length bs" for bs rest
    using that by (auto simp: read_u16_le_def nth_append)
qed (simp_all add: write_le_append [symmetric] read_written_u16 write_of_read_u16)

interpretation u32_wire: le_codec 4 write_u32_le read_u32_le
proof unfold_locales
  show "read_u32_le (bs @ rest) = read_u32_le bs" if "4 \<le> length bs" for bs rest
    using that by (auto simp: read_u32_le_def nth_append)
qed (simp_all add: write_le_append [symmetric] read_written_u32 write_of_read_u32)

interpretation u64_wire: le_codec 8 write_u64_le read_u64_le
proof unfold_locales
  show "read_u64_le (bs @ rest) = read_u64_le bs" if "8 \<le> length bs" for bs rest
    using that by (auto simp: read_u64_le_eq nth_append)
qed (simp_all add: write_le_append [symmetric] read_written_u64 write_of_read_u64)

section \<open>The parser as a function of the unread bytes\<close>

text \<open>What the first bytes of a stream say: nothing yet, a framing violation, or a frame and the
  bytes after it. Only the 24 fixed header bytes decide between violation and frame.\<close>

datatype FrameStep = Incomplete | Broken ProtocolError string | Complete Frame "byte list"

definition header_fault :: "byte list \<Rightarrow> (ProtocolError \<times> string) option" where
  "header_fault bs =
     (if \<not> has_magic bs then Some (InvalidMagic, ''invalid frame magic'')
      else if read_u16_le (drop 4 bs) \<noteq> 1 then
        Some (UnsupportedProtocolVersion, ''unsupported protocol version'')
      else if read_u16_le (drop 6 bs) < 24 then
        Some (HeaderTooSmall, ''header size is smaller than v1 minimum'')
      else if read_u16_le (drop 6 bs) > 256 then
        Some (HeaderTooLarge, ''header size exceeds v1 maximum'')
      else if \<not> is_known_frame_type (read_u16_le (drop 8 bs)) then
        Some (UnknownFrameType, ''unknown frame type'')
      else if read_u16_le (drop 10 bs) \<noteq> 0 then Some (UnsupportedFlags, ''unsupported frame flags'')
      else if read_u32_le (drop 12 bs) > max_payload_size (to_frame_type (read_u16_le (drop 8 bs)))
      then Some (PayloadTooLarge, ''payload size exceeds v1 limit'')
      else None)"

definition header_at :: "byte list \<Rightarrow> FrameHeader" where
  "header_at bs =
     \<lparr>protocol_version = read_u16_le (drop 4 bs), header_size = read_u16_le (drop 6 bs),
      frame_type = to_frame_type (read_u16_le (drop 8 bs)), flags = read_u16_le (drop 10 bs),
      payload_size = read_u32_le (drop 12 bs), request_id = read_u64_le (drop 16 bs)\<rparr>"

definition next_frame :: "byte list \<Rightarrow> FrameStep" where
  "next_frame bs =
     (if length bs < 24 then Incomplete
      else case header_fault bs of
        Some (e, m) \<Rightarrow> Broken e m
      | None \<Rightarrow>
          (let h = header_at bs; hs = unat (header_size h); ps = unat (payload_size h) in
           if length bs < hs + ps then Incomplete
           else Complete \<lparr>header = h, payload = take ps (drop hs bs)\<rparr> (drop (hs + ps) bs)))"

datatype Stream = Live "byte list" | Dead ProtocolError string

fun feed_stream :: "byte list \<Rightarrow> Stream \<Rightarrow> Stream" where
  "feed_stream d (Live bs) = Live (bs @ d)"
| "feed_stream d (Dead e m) = Dead e m"

definition ready_result :: "Frame \<Rightarrow> ParseResult" where
  "ready_result f = default_parse_result\<lparr>status := FrameReady, frame := f\<rparr>"

fun pull_stream :: "Stream \<Rightarrow> ParseResult \<times> Stream" where
  "pull_stream (Live bs) =
     (case next_frame bs of
        Incomplete \<Rightarrow> (default_parse_result, Live bs)
      | Broken e m \<Rightarrow> (fatal_result e m, Dead e m)
      | Complete f rest \<Rightarrow> (ready_result f, Live rest))"
| "pull_stream (Dead e m) = (fatal_result e m, Dead e m)"

text \<open>The abstraction of the concrete parser, and the invariant that keeps the offset inside the
  buffer, so that \<open>buffer_.size() - read_offset_\<close> never wraps.\<close>

definition unread :: "FrameParser \<Rightarrow> byte list" where
  "unread p = drop (read_offset p) (buffer p)"

definition parser_inv :: "FrameParser \<Rightarrow> bool" where
  "parser_inv p \<longleftrightarrow> read_offset p \<le> length (buffer p)"

definition abs_parser :: "FrameParser \<Rightarrow> Stream" where
  "abs_parser p = (if fatal p then Dead (fatal_error p) (fatal_message p) else Live (unread p))"

lemma parser_inv_new [simp]: "parser_inv new_parser"
  by (simp add: parser_inv_def new_parser_def)

lemma abs_new_parser [simp]: "abs_parser new_parser = Live []"
  by (simp add: abs_parser_def unread_def new_parser_def)

lemma parser_inv_clear [simp]: "parser_inv (parser_clear p)"
  by (simp add: parser_inv_def parser_clear_def)

lemma abs_parser_clear [simp]: "abs_parser (parser_clear p) = Live []"
  by (simp add: abs_parser_def unread_def parser_clear_def)

lemma parser_inv_append [inv_intros]: "parser_inv p \<Longrightarrow> parser_inv (parser_append d p)"
  by (simp add: parser_inv_def parser_append_def)

lemma abs_parser_append: "parser_inv p \<Longrightarrow> abs_parser (parser_append d p) = feed_stream d (abs_parser p)"
  by (simp add: parser_inv_def parser_append_def abs_parser_def unread_def)

lemma compact_buffer_invisible:
  "parser_inv p \<Longrightarrow> unread (compact_buffer p) = unread p \<and> parser_inv (compact_buffer p) \<and>
     fatal (compact_buffer p) = fatal p"
  by (simp add: compact_buffer_def unread_def parser_inv_def)

lemma header_fault_max_payload:
  "read_u32_le d > max_frame_payload_bytes \<or> read_u32_le d > max_payload_size t \<longleftrightarrow>
     read_u32_le d > max_payload_size t"
  using max_payload_size_le [of t] by (meson order_le_less_trans)

text \<open>The guard against overflow of the total size never fires with a 64-bit \<open>size_t\<close>.\<close>

lemma frame_total_no_overflow: "size_add (unat (h :: u16)) (unat (s :: u32)) = unat h + unat s"
  using unat_u16_less [of h] unat_u32_less [of s] by simp

lemma parse_next_fatal:
  "fatal p \<Longrightarrow> parse_next p = (fatal_result (fatal_error p) (fatal_message p), p)"
  by (simp add: parse_next_def)

lemmas header_limit_defs = protocol_version_limit_def min_header_size_def max_header_size_def

lemma length_unread: "length (buffer p) - read_offset p = length (unread p)"
  by (simp add: unread_def)

lemma drop_unread: "drop (read_offset p + k) (buffer p) = drop k (unread p)"
  by (simp add: unread_def add.commute)

lemma parse_next_short:
  "\<not> fatal p \<Longrightarrow> length (unread p) < 24 \<Longrightarrow> parse_next p = (default_parse_result, p)"
  by (simp add: parse_next_def header_limit_defs length_unread)

text \<open>Past the length check the parser is the case distinction on the header it finds.\<close>

lemma parse_next_header:
  assumes "\<not> fatal p" and "24 \<le> length (unread p)"
  defines "h \<equiv> header_at (unread p)"
  defines "n \<equiv> unat (header_size h) + unat (payload_size h)"
  shows "parse_next p =
     (case header_fault (unread p) of
        Some (e, m) \<Rightarrow> make_fatal e m p
      | None \<Rightarrow>
          if length (unread p) < n then (default_parse_result, p)
          else (ready_result \<lparr>header = h, payload = take (unat (payload_size h))
                  (drop (unat (header_size h)) (unread p))\<rparr>,
                compact_buffer (p\<lparr>read_offset := read_offset p + n\<rparr>)))"
proof -
  have long: "\<not> length (unread p) < unat min_header_size"
    using assms(2) by (simp add: header_limit_defs)
  show ?thesis
    unfolding parse_next_def header_fault_def Let_def length_unread unread_def [symmetric] drop_unread
      frame_total_no_overflow header_fault_max_payload if_not_P [OF assms(1)] if_not_P [OF long]
      if_distrib [where f = "case_option _ _"] option.case prod.case h_def n_def header_at_def
      ready_result_def
    unfolding header_limit_defs
    by (simp cong: if_cong split del: if_split)
qed

lemma parse_next_broken:
  assumes "\<not> fatal p" and "24 \<le> length (unread p)" and "header_fault (unread p) = Some (e, m)"
  shows "parse_next p = make_fatal e m p"
  by (simp add: parse_next_header [OF assms(1,2)] assms(3))

lemma parse_next_framed:
  assumes "\<not> fatal p" and "24 \<le> length (unread p)" and "header_fault (unread p) = None"
  defines "h \<equiv> header_at (unread p)"
  defines "n \<equiv> unat (header_size h) + unat (payload_size h)"
  shows "parse_next p =
     (if length (unread p) < n then (default_parse_result, p)
      else (ready_result \<lparr>header = h, payload = take (unat (payload_size h))
              (drop (unat (header_size h)) (unread p))\<rparr>,
            compact_buffer (p\<lparr>read_offset := read_offset p + n\<rparr>)))"
  by (simp add: parse_next_header [OF assms(1,2)] assms(3) h_def n_def)

lemma parse_next_refines:
  assumes inv: "parser_inv p"
  shows "pull_stream (abs_parser p) = (fst (parse_next p), abs_parser (snd (parse_next p))) \<and>
     parser_inv (snd (parse_next p))"
proof -
  consider (fatal) "fatal p" | (short) "\<not> fatal p" "length (unread p) < 24"
    | (broken) e m where "\<not> fatal p" "24 \<le> length (unread p)" "header_fault (unread p) = Some (e, m)"
    | (framed) "\<not> fatal p" "24 \<le> length (unread p)" "header_fault (unread p) = None"
    by (metis not_le option.exhaust surj_pair)
  then show ?thesis
  proof cases
    case fatal
    then show ?thesis using inv by (simp add: parse_next_fatal abs_parser_def)
  next
    case short
    then show ?thesis using inv by (simp add: parse_next_short abs_parser_def next_frame_def)
  next
    case broken
    then show ?thesis
      using inv
      by (simp add: parse_next_broken abs_parser_def next_frame_def make_fatal_def parser_inv_def)
  next
    case framed
    define n where
      "n = unat (header_size (header_at (unread p))) + unat (payload_size (header_at (unread p)))"
    let ?q = "p\<lparr>read_offset := read_offset p + n\<rparr>"
    have "unread ?q = drop n (unread p)" by (simp add: unread_def add.commute)
    moreover have "parser_inv ?q" if "\<not> length (unread p) < n"
      using that inv by (simp add: parser_inv_def unread_def)
    ultimately show ?thesis
      using framed inv compact_buffer_invisible [of ?q]
      by (simp add: parse_next_framed abs_parser_def next_frame_def Let_def flip: n_def)
  qed
qed

end
