(* ===== verification/Frame_Stream.thy ===== *)
theory Frame_Stream
  imports Frame_Parser
begin

text \<open>
  What a reader of the byte stream gets out of the parser. A client drains the parser after every
  chunk it receives (the loop of \<open>WorkerSession::handle_bytes\<close>); this theory shows that the frames
  delivered are a function of the concatenated bytes only, that encoded frames come back unchanged,
  and that a frame with the fixed header size is the encoding of what was parsed from it.
\<close>

section \<open>The frame source interface\<close>

datatype SourceOp = Feed "byte list" | Pull

fun run_source ::
  "(byte list \<Rightarrow> 's \<Rightarrow> 's) \<Rightarrow> ('s \<Rightarrow> ParseResult \<times> 's) \<Rightarrow> SourceOp list \<Rightarrow> 's \<Rightarrow> ParseResult list \<times> 's"
where
  "run_source feed pull [] s = ([], s)"
| "run_source feed pull (Feed d # ops) s = run_source feed pull ops (feed d s)"
| "run_source feed pull (Pull # ops) s =
     (let (r, s') = pull s; (rs, s'') = run_source feed pull ops s' in (r # rs, s''))"

text \<open>A frame source holds a stream: feeding it appends bytes, pulling from it takes the next
  frame off the front or reports why there is none.\<close>

locale frame_source =
  fixes feed :: "byte list \<Rightarrow> 's \<Rightarrow> 's"
    and pull :: "'s \<Rightarrow> ParseResult \<times> 's"
    and absf :: "'s \<Rightarrow> Stream"
    and inv :: "'s \<Rightarrow> bool"
  assumes feed_abs: "inv s \<Longrightarrow> absf (feed d s) = feed_stream d (absf s)"
    and feed_inv: "inv s \<Longrightarrow> inv (feed d s)"
    and pull_abs: "inv s \<Longrightarrow> pull_stream (absf s) = (fst (pull s), absf (snd (pull s)))"
    and pull_inv: "inv s \<Longrightarrow> inv (snd (pull s))"
begin

text \<open>No client can tell the source from the abstract stream, whatever it does.\<close>

lemma run_refines:
  "inv s \<Longrightarrow> run_source feed_stream pull_stream ops (absf s) =
     (fst (run_source feed pull ops s), absf (snd (run_source feed pull ops s)))"
proof (induction ops arbitrary: s)
  case (Cons op ops)
  show ?case
  proof (cases op)
    case (Feed d)
    then show ?thesis using Cons by (simp add: feed_inv flip: feed_abs)
  next
    case Pull
    then show ?thesis
      using Cons.IH [of "snd (pull s)"] Cons.prems
      by (simp add: pull_abs pull_inv Let_def split_beta)
  qed
qed simp

lemma run_inv: "inv s \<Longrightarrow> inv (snd (run_source feed pull ops s))"
proof (induction ops arbitrary: s)
  case (Cons op ops)
  then show ?case by (cases op) (simp_all add: feed_inv pull_inv Let_def split_beta)
qed simp

lemma pull_sticky:
  assumes "inv s" and "absf s = Dead e m"
  shows "fst (pull s) = fatal_result e m \<and> absf (snd (pull s)) = Dead e m"
  using pull_abs [OF assms(1)] assms(2) by auto

end

interpretation parser: frame_source parser_append parse_next abs_parser parser_inv
  by unfold_locales (simp_all add: abs_parser_append parser_inv_append parse_next_refines)

section \<open>The stream as a function of its bytes\<close>

lemma header_prefix:
  assumes "24 \<le> length bs"
  shows "header_fault (bs @ x) = header_fault bs" and "header_at (bs @ x) = header_at bs"
proof -
  have magic: "has_magic (bs @ x) = has_magic bs"
    using assms by (simp add: has_magic_def nth_append)
  show "header_fault (bs @ x) = header_fault bs" "header_at (bs @ x) = header_at bs"
    using assms
    by (simp_all add: header_fault_def header_at_def magic u16_wire.read_prefix u32_wire.read_prefix
        u64_wire.read_prefix)
qed

lemma next_frame_append_complete:
  assumes "next_frame bs = Complete f rest"
  shows "next_frame (bs @ x) = Complete f (rest @ x)"
proof -
  have "24 \<le> length bs" using assms by (auto simp: next_frame_def split: if_splits)
  then show ?thesis
    using assms by (auto simp: next_frame_def header_prefix Let_def split: option.splits if_splits)
qed

lemma next_frame_append_broken:
  assumes "next_frame bs = Broken e m"
  shows "next_frame (bs @ x) = Broken e m"
proof -
  have "24 \<le> length bs" using assms by (auto simp: next_frame_def split: if_splits)
  then show ?thesis
    using assms by (auto simp: next_frame_def header_prefix Let_def split: option.splits if_splits)
qed

lemma header_fault_None_size: "header_fault bs = None \<Longrightarrow> 24 \<le> unat (header_size (header_at bs))"
  by (auto simp: header_fault_def header_at_def word_le_nat_alt not_less split: if_splits)

lemma next_frame_shrinks: "next_frame bs = Complete f rest \<Longrightarrow> length rest + 24 \<le> length bs"
  using header_fault_None_size [of bs]
  by (auto simp: next_frame_def Let_def split: option.splits if_splits)

text \<open>All frames of a byte string, and the stream left when no further frame is complete.\<close>

function frames_of :: "byte list \<Rightarrow> Frame list \<times> Stream" where
  "frames_of bs =
     (case next_frame bs of
        Incomplete \<Rightarrow> ([], Live bs)
      | Broken e m \<Rightarrow> ([], Dead e m)
      | Complete f rest \<Rightarrow> (let (fs, s) = frames_of rest in (f # fs, s)))"
  by auto
termination
  by (relation "measure length") (auto dest: next_frame_shrinks)

declare frames_of.simps [simp del]

fun frames_from :: "Stream \<Rightarrow> byte list \<Rightarrow> Frame list \<times> Stream" where
  "frames_from (Live r) x = frames_of (r @ x)"
| "frames_from (Dead e m) x = ([], Dead e m)"

lemma frames_of_append:
  "frames_of (bs @ x) =
     (let (fs, s) = frames_of bs; (gs, t) = frames_from s x in (fs @ gs, t))"
proof (induction bs rule: frames_of.induct)
  case (1 bs)
  show ?case
  proof (cases "next_frame bs")
    case Incomplete
    then show ?thesis by (simp add: frames_of.simps [of bs])
  next
    case (Broken e m)
    then show ?thesis
      by (simp add: frames_of.simps [of bs] frames_of.simps [of "bs @ x"] next_frame_append_broken)
  next
    case (Complete f rest)
    then show ?thesis
      using 1 by (simp add: frames_of.simps [of bs] frames_of.simps [of "bs @ x"]
          next_frame_append_complete split_beta Let_def)
  qed
qed

section \<open>Draining the parser\<close>

lemma status_results [simp]:
  "status default_parse_result = NeedMoreData" "status (fatal_result e m) = FatalError"
  "status (ready_result f) = FrameReady" "frame (ready_result f) = f"
  by (simp_all add: default_parse_result_def fatal_result_def ready_result_def)

lemma parse_next_progress:
  assumes "status (fst (parse_next p)) = FrameReady"
  shows "length (unread (snd (parse_next p))) < length (unread p)"
proof -
  have alive: "\<not> fatal p"
    using assms by (auto simp: parse_next_fatal)
  have long: "24 \<le> length (unread p)"
    using assms parse_next_short [OF alive] by (cases "24 \<le> length (unread p)") auto
  then have inv: "parser_inv p" by (simp add: parser_inv_def unread_def)
  have pull: "pull_stream (Live (unread p)) = (fst (parse_next p), abs_parser (snd (parse_next p)))"
    using parse_next_refines [OF inv] alive by (simp add: abs_parser_def)
  show ?thesis
  proof (cases "next_frame (unread p)")
    case (Complete f rest)
    then have "abs_parser (snd (parse_next p)) = Live rest" using pull by simp
    then show ?thesis
      using next_frame_shrinks [OF Complete] by (simp add: abs_parser_def split: if_splits)
  next
    case (Broken e m)
    then have "fst (parse_next p) = fatal_result e m" using pull by simp
    then show ?thesis using assms by simp
  next
    case Incomplete
    then have "fst (parse_next p) = default_parse_result" using pull by simp
    then show ?thesis using assms by simp
  qed
qed

function parser_drain :: "FrameParser \<Rightarrow> Frame list \<times> FrameParser" where
  "parser_drain p =
     (let (r, p') = parse_next p in
      if status r = FrameReady then (let (fs, q) = parser_drain p' in (frame r # fs, q))
      else ([], p'))"
  by auto
termination
  using parse_next_progress
  by (relation "measure (length \<circ> unread)") (auto, metis fst_conv snd_conv)

declare parser_drain.simps [simp del]

fun parser_receive :: "byte list list \<Rightarrow> FrameParser \<Rightarrow> Frame list \<times> FrameParser" where
  "parser_receive [] p = ([], p)"
| "parser_receive (d # ds) p =
     (let (fs, p') = parser_drain (parser_append d p); (gs, q) = parser_receive ds p' in (fs @ gs, q))"

lemma parser_drain_dead:
  assumes "parser_inv p" and "abs_parser p = Dead e m"
  shows "fst (parser_drain p) = [] \<and> abs_parser (snd (parser_drain p)) = Dead e m \<and>
     parser_inv (snd (parser_drain p))"
  using parser.pull_sticky [OF assms] parser.pull_inv [OF assms(1)]
  by (simp add: parser_drain.simps [of p] split_beta Let_def)

lemma parser_drain_live:
  "parser_inv p \<Longrightarrow> abs_parser p = Live bs \<Longrightarrow>
     frames_of bs = (fst (parser_drain p), abs_parser (snd (parser_drain p))) \<and>
     parser_inv (snd (parser_drain p))"
proof (induction p arbitrary: bs rule: parser_drain.induct)
  case (1 p)
  obtain r q where rq: "parse_next p = (r, q)" by fastforce
  have ref: "pull_stream (Live bs) = (r, abs_parser q)" and inv: "parser_inv q"
    using parse_next_refines [OF "1.prems"(1)] rq "1.prems"(2) by auto
  show ?case
  proof (cases "next_frame bs")
    case (Complete f rest)
    then have "r = ready_result f" and "abs_parser q = Live rest" using ref by auto
    then show ?thesis
      using "1.IH" [OF rq [symmetric] refl] inv rq Complete
      by (simp add: parser_drain.simps [of p] frames_of.simps [of bs] split_beta Let_def)
  qed (use ref inv rq in
      \<open>auto simp: parser_drain.simps [of p] frames_of.simps [of bs] split_beta Let_def\<close>)
qed

lemma parser_drain_refines:
  "parser_inv p \<Longrightarrow>
     frames_from (abs_parser p) x =
       (fst (parser_drain (parser_append x p)), abs_parser (snd (parser_drain (parser_append x p)))) \<and>
     parser_inv (snd (parser_drain (parser_append x p)))"
proof (cases "abs_parser p")
  case (Live bs)
  then show "parser_inv p \<Longrightarrow> ?thesis"
    by (simp add: parser_drain_live abs_parser_append parser_inv_append)
next
  case (Dead e m)
  then show "parser_inv p \<Longrightarrow> ?thesis"
    using parser_drain_dead [of "parser_append x p" e m]
    by (simp add: abs_parser_append parser_inv_append)
qed

lemma frames_from_append:
  "frames_from s (x @ y) = (let (fs, t) = frames_from s x; (gs, u) = frames_from t y in (fs @ gs, u))"
  by (cases s) (simp_all add: frames_of_append split_beta Let_def flip: append_assoc)

text \<open>A stream that has been drained gives nothing more until bytes arrive.\<close>

definition drained :: "Stream \<Rightarrow> bool" where
  "drained s \<longleftrightarrow> frames_from s [] = ([], s)"

lemma frames_of_drained: "drained (snd (frames_of bs))"
proof (induction bs rule: frames_of.induct)
  case (1 bs)
  then show ?case
    by (simp add: frames_of.simps [of bs] split: FrameStep.splits)
      (simp add: drained_def frames_of.simps [of bs] split_beta Let_def split: FrameStep.splits)
qed

lemma frames_from_drained: "drained (snd (frames_from s x))"
  by (cases s) (simp_all add: frames_of_drained, simp add: drained_def)

lemma parser_receive_refines:
  "parser_inv p \<Longrightarrow> drained (abs_parser p) \<Longrightarrow>
     (fst (parser_receive ds p), abs_parser (snd (parser_receive ds p))) =
       frames_from (abs_parser p) (concat ds)"
proof (induction ds arbitrary: p)
  case Nil
  then show ?case by (simp add: drained_def)
next
  case (Cons d ds)
  define q where "q = snd (parser_drain (parser_append d p))"
  have q: "frames_from (abs_parser p) d = (fst (parser_drain (parser_append d p)), abs_parser q)"
    "parser_inv q"
    using parser_drain_refines [OF Cons.prems(1), of d] by (simp_all add: q_def)
  moreover have "drained (abs_parser q)"
    using frames_from_drained [of "abs_parser p" d] q by simp
  ultimately show ?case
    using Cons.IH [of q, symmetric]
    by (simp add: frames_from_append split_beta Let_def flip: q_def)
qed

section \<open>Round trips\<close>

fun named_type :: "FrameType \<Rightarrow> bool" where
  "named_type (OtherFrameType v) = False"
| "named_type t = True"

lemma to_frame_type_value: "named_type t \<Longrightarrow> to_frame_type (frame_type_value t) = t"
  by (cases t) (simp_all add: to_frame_type_def)

lemma named_type_known: "named_type t \<Longrightarrow> is_known_frame_type (frame_type_value t)"
  by (cases t) (simp_all add: is_known_frame_type_def)

lemma kMagic_has_magic: "has_magic (kMagic @ x)"
  by (simp add: has_magic_def kMagic_def upt_rec)

lemma header_bytes_fields:
  fixes h :: FrameHeader and x :: "byte list"
  defines "bs \<equiv> header_bytes h @ x"
  shows "has_magic bs" "read_u16_le (drop 4 bs) = protocol_version h"
    "read_u16_le (drop 6 bs) = header_size h"
    "read_u16_le (drop 8 bs) = frame_type_value (frame_type h)"
    "read_u16_le (drop 10 bs) = flags h" "read_u32_le (drop 12 bs) = payload_size h"
    "read_u64_le (drop 16 bs) = request_id h"
  by (simp_all add: bs_def header_bytes_def kMagic_has_magic u16_wire.read_write u32_wire.read_write
      u64_wire.read_write) (simp_all add: kMagic_def u16_wire.read_write u32_wire.read_write
      u64_wire.read_write)

text \<open>A receiver skips the bytes of a header extension, which a v1 sender never emits.\<close>

lemma next_frame_header_bytes:
  assumes "protocol_version h = 1" "flags h = 0" "named_type (frame_type h)"
    and "unat (header_size h) = 24 + length ext" "length ext \<le> 232"
    and "unat (payload_size h) = length pl" "length pl \<le> unat (max_payload_size (frame_type h))"
  shows "next_frame (header_bytes h @ ext @ pl @ rest) = Complete \<lparr>header = h, payload = pl\<rparr> rest"
proof -
  let ?bs = "header_bytes h @ ext @ pl @ rest"
  have "\<not> header_size h < 24" "\<not> 256 < header_size h"
    using assms(4,5) by (simp_all add: word_less_nat_alt)
  moreover have "\<not> max_payload_size (frame_type h) < payload_size h"
    using assms(6,7) by (simp add: word_less_nat_alt)
  ultimately have "header_fault ?bs = None"
    unfolding header_fault_def header_bytes_fields
    using assms by (simp add: header_bytes_fields(1) named_type_known to_frame_type_value)
  moreover have "header_at ?bs = h"
    unfolding header_at_def header_bytes_fields using assms by (simp add: to_frame_type_value)
  ultimately show ?thesis
    using assms by (simp add: next_frame_def Let_def)
qed

lemma next_frame_sendable:
  "sendable h pl \<Longrightarrow> named_type (frame_type h) \<Longrightarrow>
     next_frame (header_bytes h @ pl @ rest) = Complete \<lparr>header = h, payload = pl\<rparr> rest"
  using next_frame_header_bytes [of h "[]" pl rest] by (simp add: sendable_def)

definition frame_bytes :: "Frame \<Rightarrow> byte list" where
  "frame_bytes f = er_bytes (encode_frame_header (header f) (payload f))"

definition transmittable :: "Frame \<Rightarrow> bool" where
  "transmittable f \<longleftrightarrow>
     encode_ok (encode_frame_header (header f) (payload f)) \<and> named_type (frame_type (header f))"

lemma next_frame_frame_bytes:
  "transmittable f \<Longrightarrow> next_frame (frame_bytes f @ rest) = Complete f rest"
  by (simp add: transmittable_def frame_bytes_def encode_frame_header_bytes next_frame_sendable
      encode_frame_header_ok_iff)

lemma next_frame_Nil: "next_frame [] = Incomplete"
  by (simp add: next_frame_def)

lemma frames_of_frame_bytes:
  "\<forall>f\<in>set fs. transmittable f \<Longrightarrow> frames_of (concat (map frame_bytes fs)) = (fs, Live [])"
proof (induction fs)
  case Nil
  show ?case by (simp add: frames_of.simps [of "[]"] next_frame_Nil)
next
  case (Cons f fs)
  then show ?case
    by (simp add: frames_of.simps [of "frame_bytes f @ _"] next_frame_frame_bytes)
qed

text \<open>What the parser accepts with the fixed header size is what the encoder produces.\<close>

lemma write_read_u16_at: "i + 2 \<le> length bs \<Longrightarrow> write_u16_le [] (read_u16_le (drop i bs)) = take 2 (drop i bs)"
  using u16_wire.write_of_read [of "take 2 (drop i bs)"] by (simp add: u16_wire.read_take)

lemma write_read_u32_at: "i + 4 \<le> length bs \<Longrightarrow> write_u32_le [] (read_u32_le (drop i bs)) = take 4 (drop i bs)"
  using u32_wire.write_of_read [of "take 4 (drop i bs)"] by (simp add: u32_wire.read_take)

lemma write_read_u64_at: "i + 8 \<le> length bs \<Longrightarrow> write_u64_le [] (read_u64_le (drop i bs)) = take 8 (drop i bs)"
  using u64_wire.write_of_read [of "take 8 (drop i bs)"] by (simp add: u64_wire.read_take)

lemma has_magic_take: "has_magic bs \<Longrightarrow> 4 \<le> length bs \<Longrightarrow> take 4 bs = kMagic"
  by (rule nth_equalityI) (auto simp: has_magic_def kMagic_def)

lemma take_pieces: "take m bs @ take n (drop m bs) = take (m + n) bs"
  by (simp add: take_add)

lemma header_bytes_header_at:
  assumes "24 \<le> length bs" "has_magic bs"
  shows "header_bytes (header_at bs) = take 24 bs"
proof -
  have "header_bytes (header_at bs) =
      take 4 bs @ take 2 (drop 4 bs) @ take 2 (drop 6 bs) @ take 2 (drop 8 bs) @
      take 2 (drop 10 bs) @ take 4 (drop 12 bs) @ take 8 (drop 16 bs)"
    using assms by (simp add: header_bytes_def header_at_def has_magic_take write_read_u16_at
        write_read_u32_at write_read_u64_at)
  also have "\<dots> = take 24 bs"
    using take_pieces [of 4 bs 2] take_pieces [of 6 bs 2] take_pieces [of 8 bs 2]
      take_pieces [of 10 bs 2] take_pieces [of 12 bs 4] take_pieces [of 16 bs 8]
    by (simp flip: append_assoc)
  finally show ?thesis .
qed

lemma next_frame_encoding:
  assumes "next_frame bs = Complete f rest" and "header_size (header f) = 24"
  shows "transmittable f \<and> bs = frame_bytes f @ rest"
proof -
  let ?h = "header_at bs"
  have long: "24 \<le> length bs" and nf: "header_fault bs = None"
    using assms(1) by (auto simp: next_frame_def split: if_splits option.splits)
  have f: "f = \<lparr>header = ?h, payload = take (unat (payload_size ?h)) (drop 24 bs)\<rparr>"
    and rest: "rest = drop (24 + unat (payload_size ?h)) bs"
    and enough: "24 + unat (payload_size ?h) \<le> length bs"
    using assms long nf by (auto simp: next_frame_def Let_def split: if_splits)
  have known: "has_magic bs" "named_type (frame_type ?h)" "sendable ?h (payload f)"
    using nf assms(2) enough
    by (auto simp: header_fault_def header_at_def f sendable_def is_known_frame_type_def
        to_frame_type_def not_less word_le_nat_alt split: if_splits)
  then have "frame_bytes f = take 24 bs @ payload f"
    using long by (simp add: frame_bytes_def f encode_frame_header_bytes encode_frame_header_ok_iff
        header_bytes_header_at)
  then have "frame_bytes f @ rest = bs"
    unfolding f rest by (simp add: add.commute flip: drop_drop)
  then show ?thesis using known by (simp add: transmittable_def f encode_frame_header_ok_iff)
qed

section \<open>Properties of the framing layer\<close>

lemma encode_frame_outcome:
  "er_error (encode_frame t rid pl) =
     (if \<not> is_known_frame_type (frame_type_value t) then EE_UnknownFrameType
      else if length pl > unat (max_payload_size t) then EE_PayloadTooLarge
      else EE_None)"
proof -
  let ?h = "default_header\<lparr>frame_type := t, request_id := rid, payload_size := of_nat (length pl)\<rparr>"
  have fixed: "protocol_version ?h = protocol_version_limit" "header_size ?h = min_header_size" "flags ?h = 0"
    by (simp_all add: default_header_def)
  have wrap: "unat (payload_size ?h) = length pl" if "length pl \<le> 4294967295"
    using that by (simp add: unat_of_nat)
  have "length pl > unat (max_payload_size t)" if "length pl > 4294967295"
    using that unat_max_payload_size_bound [of t] by simp
  moreover have "length pl > unat (max_payload_size t)" if "length pl > unat max_frame_payload_bytes"
    using that unat_max_payload_size_bound [of t] by (simp add: max_frame_payload_bytes_def)
  moreover have "er_error (encode_error e m) = e" for e m by (simp add: encode_error_def)
  ultimately show ?thesis
    unfolding encode_frame_def encode_frame_header_def fixed Let_def
    using wrap by (auto simp: default_header_def default_encode_result_def)
qed

lemma run_source_dead:
  "run_source feed_stream pull_stream ops (Dead e m) =
     (replicate (length (filter (\<lambda>x. x = Pull) ops)) (fatal_result e m), Dead e m)"
  by (induction ops) (auto simp: Let_def split: SourceOp.split, (case_tac a; simp)+)

text \<open>C3. Splitting the byte stream does not matter. However the bytes are cut into chunks, a parser
  that is drained after every chunk delivers the frames of the whole stream in order and ends
  alive on the unread rest, or dead with the first framing violation.\<close>

theorem frames_independent_of_chunking:
  "(fst (parser_receive ds new_parser), abs_parser (snd (parser_receive ds new_parser))) =
     frames_of (concat ds)"
  using parser_receive_refines [of new_parser ds]
  by (simp add: drained_def frames_of.simps [of "[]"] next_frame_Nil)

text \<open>Framing round trip: a sequence of frames the encoder accepts, sent back to back and cut
  anywhere, is received as the same sequence and leaves nothing in the buffer.\<close>

theorem encoded_frames_received:
  assumes "\<forall>f\<in>set fs. transmittable f" and "concat ds = concat (map frame_bytes fs)"
  shows "fst (parser_receive ds new_parser) = fs \<and> buffered_size (snd (parser_receive ds new_parser)) = 0"
proof -
  have "(fst (parser_receive ds new_parser), abs_parser (snd (parser_receive ds new_parser))) =
      frames_of (concat ds)"
    using parser_receive_refines [of new_parser ds]
    by (simp add: drained_def frames_of.simps [of "[]"] next_frame_Nil)
  then show ?thesis
    using frames_of_frame_bytes [OF assms(1)] assms(2)
    by (simp add: abs_parser_def buffered_size_def unread_def split: if_splits)
qed

definition sample_frame :: Frame where
  "sample_frame = \<lparr>header = default_header\<lparr>payload_size := 2, request_id := 5\<rparr>, payload = [0x7b, 0x7d]\<rparr>"

theorem encoded_frames_received_witness:
  "transmittable sample_frame \<and>
   fst (parser_receive [take 10 (frame_bytes sample_frame),
     drop 10 (frame_bytes sample_frame) @ frame_bytes sample_frame] new_parser) = [sample_frame, sample_frame]"
proof -
  have "transmittable sample_frame"
    by (simp add: transmittable_def encode_frame_header_ok_iff sendable_def sample_frame_def
        default_header_def limit_defs is_known_frame_type_def max_payload_size_def)
  then show ?thesis
    using encoded_frames_received [of "[sample_frame, sample_frame]"
        "[take 10 (frame_bytes sample_frame), drop 10 (frame_bytes sample_frame) @ frame_bytes sample_frame]"]
    by simp
qed

text \<open>C18. The parser's buffer, offset and compaction are an implementation of a plain byte queue: for
  every sequence of appends and calls of \<open>next\<close>, the results are those of the abstract stream.\<close>

theorem parser_refines_stream:
  "fst (run_source parser_append parse_next ops new_parser) =
     fst (run_source feed_stream pull_stream ops (Live [])) \<and>
   abs_parser (snd (run_source parser_append parse_next ops new_parser)) =
     snd (run_source feed_stream pull_stream ops (Live []))"
  using parser.run_refines [of new_parser ops] by simp

text \<open>No frame is accepted that the encoder could not have sent: a frame with the fixed header size
  that the parser delivers re-encodes to exactly the bytes it was read from, within the size limit
  of its type.\<close>

theorem parsed_frame_reencodes:
  assumes "parser_inv p" and "parse_next p = (r, p')" and "status r = FrameReady"
    and "header_size (header (frame r)) = 24"
  shows "encode_ok (encode_frame_header (header (frame r)) (payload (frame r))) \<and>
     unread p = er_bytes (encode_frame_header (header (frame r)) (payload (frame r))) @ unread p'"
proof -
  have alive: "\<not> fatal p" using assms(2,3) by (auto simp: parse_next_fatal)
  have pull: "pull_stream (Live (unread p)) = (r, abs_parser p')"
    using parse_next_refines [OF assms(1)] assms(2) alive by (simp add: abs_parser_def)
  then obtain f rest where f: "next_frame (unread p) = Complete f rest"
    using assms(3) by (auto split: FrameStep.splits)
  then have r: "frame r = f" and rest: "unread p' = rest"
    using pull by (auto simp: abs_parser_def split: if_splits)
  show ?thesis
    using next_frame_encoding [OF f] assms(4) r rest by (simp add: transmittable_def frame_bytes_def)
qed

theorem parsed_frame_reencodes_witness:
  "let p = new_parser\<lparr>buffer := frame_bytes sample_frame\<rparr> in
   unread p = er_bytes (encode_frame_header (header sample_frame) (payload sample_frame)) @
     unread (snd (parse_next p))"
proof -
  let ?p = "new_parser\<lparr>buffer := frame_bytes sample_frame\<rparr>"
  have t: "transmittable sample_frame"
    by (simp add: transmittable_def encode_frame_header_ok_iff sendable_def sample_frame_def
        default_header_def limit_defs is_known_frame_type_def max_payload_size_def)
  have inv: "parser_inv ?p" by (simp add: parser_inv_def new_parser_def)
  have "pull_stream (abs_parser ?p) = (ready_result sample_frame, Live [])"
    using next_frame_frame_bytes [OF t, of "[]"] by (simp add: abs_parser_def unread_def new_parser_def)
  then have r: "fst (parse_next ?p) = ready_result sample_frame"
    using parse_next_refines [OF inv] by simp
  have "header_size (header sample_frame) = 24" by (simp add: sample_frame_def default_header_def limit_defs)
  then show ?thesis
    using parsed_frame_reencodes [of ?p "fst (parse_next ?p)" "snd (parse_next ?p)", OF inv prod.collapse [symmetric]] r
    by (simp add: Let_def)
qed

text \<open>C27. The convenience overload of \<open>encode_frame\<close> fills in a consistent header for every payload:
  it fails exactly for an unknown type or a payload above the limit of the type, even where the
  32-bit payload size wraps around, and never with a size mismatch.\<close>

theorem encode_frame_total:
  "er_error (encode_frame t rid pl) =
     (if \<not> is_known_frame_type (frame_type_value t) then EE_UnknownFrameType
      else if length pl > unat (max_payload_size t) then EE_PayloadTooLarge
      else EE_None)"
  by (rule encode_frame_outcome)

text \<open>A framing violation is final: a parser that has failed ignores further bytes and answers
  every call with the same error and message, until it is cleared, which makes it a new parser.\<close>

theorem framing_violation_final:
  assumes "parser_inv p" and "fatal p"
  shows "fst (run_source parser_append parse_next ops p) =
       replicate (length (filter (\<lambda>x. x = Pull) ops)) (fatal_result (fatal_error p) (fatal_message p)) \<and>
     parser_clear p = new_parser"
proof -
  have "abs_parser p = Dead (fatal_error p) (fatal_message p)" using assms by (simp add: abs_parser_def)
  then show ?thesis
    using parser.run_refines [OF assms(1), of ops]
    by (simp add: run_source_dead parser_clear_def new_parser_def)
qed

theorem framing_violation_final_witness:
  "fst (run_source parser_append parse_next [Feed [1, 2], Pull, Feed [3], Pull]
     (snd (make_fatal InvalidMagic ''invalid frame magic'' new_parser))) =
   [fatal_result InvalidMagic ''invalid frame magic'', fatal_result InvalidMagic ''invalid frame magic'']"
  using framing_violation_final [of "snd (make_fatal InvalidMagic ''invalid frame magic'' new_parser)"
      "[Feed [1, 2], Pull, Feed [3], Pull]"]
  by (simp add: make_fatal_def parser_inv_def new_parser_def numeral_eq_Suc)

end
