(* ===== verification/Json_Values.thy ===== *)
theory Json_Values
  imports Prelude Complex_Main "HOL-Library.Char_ord" "HOL-Library.List_Lexorder"
begin

text \<open>
  The JSON values the control codec reads and builds, as the interface of the external
  \<open>nlohmann::json\<close> class presents them: the value kinds, field lookup, construction of objects,
  and the numeric conversions of \<open>get\<close>. The text syntax (\<open>parse\<close> and \<open>dump\<close>) belongs to that
  library and is an argument of the definitions that use it. Also here: \<open>double\<close> as far as the
  bridge compares and converts it, and the views of a \<open>std::string\<close> as bytes.
\<close>

section \<open>Floating-point values\<close>

text \<open>A binary64 value is a rational, an infinity or not a number. The two zeros are one value
  here; the code only compares, and no comparison tells them apart.\<close>

datatype dbl = Finite rat | Infinity bool | NaN

fun isfinite :: "dbl \<Rightarrow> bool" where
  "isfinite (Finite r) = True"
| "isfinite d = False"

fun dbl_less :: "dbl \<Rightarrow> dbl \<Rightarrow> bool" where
  "dbl_less (Finite a) (Finite b) = (a < b)"
| "dbl_less (Infinity n) (Finite b) = n"
| "dbl_less (Finite a) (Infinity n) = (\<not> n)"
| "dbl_less (Infinity n) (Infinity m) = (n \<and> \<not> m)"
| "dbl_less d e = False"

fun dbl_le :: "dbl \<Rightarrow> dbl \<Rightarrow> bool" where
  "dbl_le NaN e = False"
| "dbl_le d NaN = False"
| "dbl_le d e = (\<not> dbl_less e d)"

text \<open>Conversion of an integer keeps 53 significant bits and rounds to the nearest, ties to even.\<close>

fun excess_bits :: "nat \<Rightarrow> nat" where
  "excess_bits n = (if n < 2 ^ 53 then 0 else Suc (excess_bits (n div 2)))"

declare excess_bits.simps [simp del]

definition round_53 :: "nat \<Rightarrow> nat" where
  "round_53 n =
     (let e = excess_bits n; q = n div 2 ^ e; r = n mod 2 ^ e in
      (if 2 * r > 2 ^ e \<or> (2 * r = 2 ^ e \<and> odd q) then q + 1 else q) * 2 ^ e)"

definition dbl_of_u64 :: "u64 \<Rightarrow> dbl" where
  "dbl_of_u64 w = Finite (of_nat (round_53 (unat w)))"

definition dbl_of_i64 :: "64 word \<Rightarrow> dbl" where
  "dbl_of_i64 w =
     Finite (if sint w < 0 then - of_nat (round_53 (nat (- sint w))) else of_nat (round_53 (nat (sint w))))"

lemma round_53_exact: "n < 2 ^ 53 \<Longrightarrow> round_53 n = n"
  by (simp add: round_53_def excess_bits.simps [of n])

section \<open>Strings as bytes\<close>

definition char_byte :: "char \<Rightarrow> byte" where
  "char_byte c = of_nat (of_char c)"

definition byte_char :: "byte \<Rightarrow> char" where
  "byte_char b = char_of (unat b)"

lemma byte_char_char_byte [simp]: "byte_char (char_byte c) = c"
proof -
  have "of_char c < (256 :: nat)" by (rule nat_of_char_less_256)
  then show ?thesis by (simp add: byte_char_def char_byte_def unat_of_nat)
qed

lemma char_byte_byte_char [simp]: "char_byte (byte_char b) = b"
proof -
  have "unat b < 256" by (rule order_less_le_trans [OF unsigned_less]) simp
  then show ?thesis by (simp add: byte_char_def char_byte_def)
qed

section \<open>Values\<close>

datatype json =
    JNull
  | JBool bool
  | JUnsigned u64
  | JInteger "64 word"
  | JFloat dbl
  | JString string
  | JArray "json list"
  | JObject "(string \<times> json) list"

text \<open>An object is an ordered map: iteration visits the keys in ascending byte order.\<close>

fun obj_put :: "string \<Rightarrow> json \<Rightarrow> (string \<times> json) list \<Rightarrow> (string \<times> json) list" where
  "obj_put k v [] = [(k, v)]"
| "obj_put k v ((k', v') # kvs) =
     (if k < k' then (k, v) # (k', v') # kvs
      else if k = k' then (k, v) # kvs
      else (k', v') # obj_put k v kvs)"

definition obj_of :: "(string \<times> json) list \<Rightarrow> (string \<times> json) list" where
  "obj_of kvs = fold (\<lambda>(k, v). obj_put k v) kvs []"

definition obj_put_if :: "bool \<Rightarrow> string \<Rightarrow> json \<Rightarrow> (string \<times> json) list \<Rightarrow> (string \<times> json) list" where
  "obj_put_if c k v kvs = (if c then obj_put k v kvs else kvs)"

fun is_object :: "json \<Rightarrow> bool" where
  "is_object (JObject kvs) = True"
| "is_object j = False"

fun json_items :: "json \<Rightarrow> (string \<times> json) list" where
  "json_items (JObject kvs) = kvs"
| "json_items j = []"

text \<open>\<open>find\<close> and \<open>contains\<close> find nothing in a value that is not an object.\<close>

definition find_field :: "json \<Rightarrow> string \<Rightarrow> json option" where
  "find_field j name = map_of (json_items j) name"

lemma map_of_obj_put [simp]: "map_of (obj_put k v kvs) = (map_of kvs)(k \<mapsto> v)"
  by (induction k v kvs rule: obj_put.induct) (auto simp: fun_eq_iff)

lemma keys_obj_put [simp]: "fst ` set (obj_put k v kvs) = insert k (fst ` set kvs)"
  by (induction k v kvs rule: obj_put.induct) auto

lemma map_of_fold_obj_put: "map_of (fold (\<lambda>(k, v). obj_put k v) kvs acc) = map_of acc ++ map_of (rev kvs)"
  by (induction kvs arbitrary: acc) (auto simp: fun_eq_iff map_add_def split: option.splits)

lemma map_of_obj_of: "map_of (obj_of kvs) = map_of (rev kvs)"
  by (simp add: obj_of_def map_of_fold_obj_put)

lemma sorted_obj_put:
  "sorted_wrt (<) (map fst kvs) \<Longrightarrow> sorted_wrt (<) (map fst (obj_put k v kvs))"
proof (induction k v kvs rule: obj_put.induct)
  case (2 k v k' v' kvs)
  have "fst ` set (obj_put k v kvs) = insert k (fst ` set kvs)" by simp
  with 2 show ?case by (auto simp: image_iff Ball_def)
qed simp

lemma sorted_obj_of: "sorted_wrt (<) (map fst (obj_of kvs))"
proof -
  have "sorted_wrt (<) (map fst acc) \<Longrightarrow>
      sorted_wrt (<) (map fst (fold (\<lambda>(k, v). obj_put k v) kvs acc))" for acc
    by (induction kvs arbitrary: acc) (auto simp: sorted_obj_put)
  then show ?thesis by (simp add: obj_of_def)
qed

text \<open>Field lookup in an object built by the encoders.\<close>

named_theorems lookup_simps \<open>lookup of fields in constructed objects\<close>

lemma find_field_obj [lookup_simps]:
  "find_field (JObject (obj_of kvs)) n = map_of (rev kvs) n"
  "find_field (JObject (obj_put_if c k v kvs)) n =
     (if c \<and> n = k then Some v else find_field (JObject kvs) n)"
  by (simp_all add: find_field_def map_of_obj_of obj_put_if_def)

lemma find_field_items [lookup_simps]: "find_field (JObject []) n = None"
  by (simp add: find_field_def)

end
