(* ===== verification/Control_Messages.thy ===== *)
theory Control_Messages
  imports Protocol_Types Json_Values
begin

text \<open>
  The message structures of \<open>src/qwen_tts_bridge/protocol/control/control_messages.hpp\<close> with their
  defaults, the codec error codes, and \<open>control_validation.cpp\<close>. A validator that returns
  \<open>ControlCodecError::None\<close> is \<open>Inr ()\<close>; otherwise the error comes with its diagnostic.
\<close>

section \<open>Messages\<close>

datatype ControlMessageDirection = ClientToWorker | WorkerToClient

datatype ControlMessageType =
  CMT_Hello | CMT_Synthesize | CMT_Cancel | CMT_Ping | CMT_Shutdown | CMT_Ready | CMT_Queued |
  CMT_Started | CMT_Completed | CMT_Cancelled | CMT_Pong | CMT_ShutdownAck

datatype ControlCodecError =
    CCE_None
  | InvalidJson
  | PayloadNotObject
  | MissingMessageType
  | InvalidMessageType
  | UnknownMessageType
  | InvalidMessageDirection
  | MissingRequiredField
  | InvalidFieldType
  | ForbiddenField
  | UnknownField
  | EncodeFailed

record WorkerCapabilities =
  streaming :: bool
  cancellation :: bool
  instructions :: bool
  voice_clone :: bool
  sampling_overrides :: bool
  deterministic_seed :: bool
  voice_clone_streaming :: bool
  voice_profiles :: bool

record SynthesisSamplingOptions =
  temperature :: "dbl option"
  top_k :: "u32 option"
  top_p :: "dbl option"
  repetition_penalty :: "dbl option"
  do_sample :: "bool option"

record HelloMessage =
  client_name :: string
  client_version :: string

record SynthesizeMessage =
  sy_text :: string
  sy_language :: string
  sy_speaker :: string
  sy_instruction :: string
  sy_voice_id :: string
  sy_reference_audio_path :: string
  sy_reference_text :: string
  sy_x_vector_only :: bool
  sy_has_seed :: bool
  sy_seed :: u64
  sy_sampling :: SynthesisSamplingOptions
  sy_output :: AudioFormat

record SequenceMessage =
  has_sequence :: bool
  sequence :: u64

record ShutdownMessage =
  mode :: string

record ReadyMessage =
  worker_version :: string
  session_id :: string
  has_warmed_up :: bool
  warmed_up :: bool
  capabilities :: WorkerCapabilities
  voice_ids :: "string list"

record QueuedMessage =
  has_position :: bool
  position :: u32

record StartedMessage =
  started_format :: AudioFormat

record GenerationTrace =
  termination_reason :: string
  hit_eos :: bool
  hit_max_seq_len :: bool
  hit_max_new_tokens :: bool
  codec_frame_count :: u64
  generated_steps :: u64
  emitted_steps :: u64
  terminal_step_index :: u64

record CompletedMessage =
  has_execution_outcome :: bool
  execution_outcome :: string
  has_generation_trace :: bool
  generation_trace :: GenerationTrace

text \<open>\<open>PingMessage\<close> and \<open>PongMessage\<close> have the same members and share \<open>SequenceMessage\<close>.\<close>

datatype ControlMessage =
    HelloM HelloMessage
  | SynthesizeM SynthesizeMessage
  | CancelM
  | PingM SequenceMessage
  | ShutdownM ShutdownMessage
  | ReadyM ReadyMessage
  | QueuedM QueuedMessage
  | StartedM StartedMessage
  | CompletedM CompletedMessage
  | CancelledM
  | PongM SequenceMessage
  | ShutdownAckM

record ErrorMessage =
  category :: string
  code :: string
  err_message :: string

record ControlDecodeResult =
  cd_message :: ControlMessage
  cd_error :: ControlCodecError
  cd_diagnostic :: string

record ErrorDecodeResult =
  ed_message :: ErrorMessage
  ed_error :: ControlCodecError
  ed_diagnostic :: string

record JsonPayloadEncodeResult =
  je_payload :: "byte list"
  je_error :: ControlCodecError
  je_diagnostic :: string

section \<open>Defaults\<close>

definition default_capabilities :: WorkerCapabilities where
  "default_capabilities = \<lparr>streaming = False, cancellation = False, instructions = False,
     voice_clone = False, sampling_overrides = False, deterministic_seed = False,
     voice_clone_streaming = False, voice_profiles = False\<rparr>"

definition default_sampling :: SynthesisSamplingOptions where
  "default_sampling = \<lparr>temperature = None, top_k = None, top_p = None, repetition_penalty = None,
     do_sample = None\<rparr>"

definition default_hello :: HelloMessage where
  "default_hello = \<lparr>client_name = '''', client_version = ''''\<rparr>"

definition default_synthesize :: SynthesizeMessage where
  "default_synthesize = \<lparr>sy_text = '''', sy_language = ''auto'', sy_speaker = '''',
     sy_instruction = '''', sy_voice_id = '''', sy_reference_audio_path = '''',
     sy_reference_text = '''', sy_x_vector_only = False, sy_has_seed = False, sy_seed = 0,
     sy_sampling = default_sampling, sy_output = default_audio_format\<rparr>"

definition default_sequence :: SequenceMessage where
  "default_sequence = \<lparr>has_sequence = False, sequence = 0\<rparr>"

definition default_shutdown :: ShutdownMessage where
  "default_shutdown = \<lparr>mode = ''cancel''\<rparr>"

definition default_ready :: ReadyMessage where
  "default_ready = \<lparr>worker_version = '''', session_id = '''', has_warmed_up = False,
     warmed_up = False, capabilities = default_capabilities, voice_ids = []\<rparr>"

definition default_queued :: QueuedMessage where
  "default_queued = \<lparr>has_position = False, position = 0\<rparr>"

definition default_trace :: GenerationTrace where
  "default_trace = \<lparr>termination_reason = '''', hit_eos = False, hit_max_seq_len = False,
     hit_max_new_tokens = False, codec_frame_count = 0, generated_steps = 0, emitted_steps = 0,
     terminal_step_index = 0\<rparr>"

definition default_completed :: CompletedMessage where
  "default_completed = \<lparr>has_execution_outcome = False, execution_outcome = '''',
     has_generation_trace = False, generation_trace = default_trace\<rparr>"

definition default_error_message :: ErrorMessage where
  "default_error_message = \<lparr>category = '''', code = '''', err_message = ''''\<rparr>"

definition default_control_result :: ControlDecodeResult where
  "default_control_result = \<lparr>cd_message = HelloM default_hello, cd_error = CCE_None,
     cd_diagnostic = ''''\<rparr>"

section \<open>Message types and error codes\<close>

fun control_message_type :: "ControlMessage \<Rightarrow> ControlMessageType" where
  "control_message_type (HelloM m) = CMT_Hello"
| "control_message_type (SynthesizeM m) = CMT_Synthesize"
| "control_message_type CancelM = CMT_Cancel"
| "control_message_type (PingM m) = CMT_Ping"
| "control_message_type (ShutdownM m) = CMT_Shutdown"
| "control_message_type (ReadyM m) = CMT_Ready"
| "control_message_type (QueuedM m) = CMT_Queued"
| "control_message_type (StartedM m) = CMT_Started"
| "control_message_type (CompletedM m) = CMT_Completed"
| "control_message_type CancelledM = CMT_Cancelled"
| "control_message_type (PongM m) = CMT_Pong"
| "control_message_type ShutdownAckM = CMT_ShutdownAck"

fun control_codec_error_code :: "ControlCodecError \<Rightarrow> string" where
  "control_codec_error_code CCE_None = ''''"
| "control_codec_error_code InvalidJson = ''invalid_json''"
| "control_codec_error_code PayloadNotObject = ''payload_not_object''"
| "control_codec_error_code MissingMessageType = ''missing_message_type''"
| "control_codec_error_code InvalidMessageType = ''invalid_message_type''"
| "control_codec_error_code UnknownMessageType = ''unknown_message_type''"
| "control_codec_error_code InvalidMessageDirection = ''invalid_message_direction''"
| "control_codec_error_code MissingRequiredField = ''missing_required_field''"
| "control_codec_error_code InvalidFieldType = ''invalid_field_type''"
| "control_codec_error_code ForbiddenField = ''invalid_field_type''"
| "control_codec_error_code UnknownField = ''unknown_field''"
| "control_codec_error_code EncodeFailed = ''internal_error''"

section \<open>Validation\<close>

type_synonym CodecFailure = "ControlCodecError \<times> string"

definition validate_non_empty_string :: "string \<Rightarrow> string \<Rightarrow> CodecFailure + unit" where
  "validate_non_empty_string value name =
     (if value \<noteq> [] then Inr () else Inl (InvalidFieldType, ''field must not be empty: '' @ name))"

definition validate_audio_format :: "AudioFormat \<Rightarrow> string \<Rightarrow> CodecFailure + unit" where
  "validate_audio_format format name =
     (let prefix = name @ ''.'' in
      and_then (validate_non_empty_string (sample_format format) (prefix @ ''sample_format'')) (\<lambda>_.
      if sample_rate format = 0 then
        Inl (InvalidFieldType, prefix @ ''sample_rate must be greater than zero'')
      else if channels format = 0 then
        Inl (InvalidFieldType, prefix @ ''channels must be greater than zero'')
      else Inr ()))"

definition outside :: "dbl option \<Rightarrow> (dbl \<Rightarrow> bool) \<Rightarrow> (dbl \<Rightarrow> bool) \<Rightarrow> bool" where
  "outside value too_low too_high =
     (case value of None \<Rightarrow> False | Some d \<Rightarrow> \<not> isfinite d \<or> too_low d \<or> too_high d)"

definition validate_synthesis_sampling :: "SynthesisSamplingOptions \<Rightarrow> CodecFailure + unit" where
  "validate_synthesis_sampling options =
     (if outside (temperature options) (\<lambda>d. dbl_le d (Finite 0)) (\<lambda>d. dbl_less (Finite 2) d) then
        Inl (InvalidFieldType, ''sampling.temperature must be finite and in the interval (0, 2]'')
      else if top_k options = Some 0 then
        Inl (InvalidFieldType, ''sampling.top_k must be greater than zero'')
      else if outside (top_p options) (\<lambda>d. dbl_le d (Finite 0)) (\<lambda>d. dbl_less (Finite 1) d) then
        Inl (InvalidFieldType, ''sampling.top_p must be finite and in the interval (0, 1]'')
      else if outside (repetition_penalty options) (\<lambda>d. dbl_less d (Finite 1)) (\<lambda>d. dbl_less (Finite 2) d)
      then Inl (InvalidFieldType,
             ''sampling.repetition_penalty must be finite and in the interval [1, 2]'')
      else Inr ())"

fun validate_control_message :: "ControlMessage \<Rightarrow> CodecFailure + unit" where
  "validate_control_message (HelloM m) =
     and_then (validate_non_empty_string (client_name m) ''client_name'') (\<lambda>_.
     validate_non_empty_string (client_version m) ''client_version'')"
| "validate_control_message (SynthesizeM m) =
     and_then (validate_non_empty_string (sy_text m) ''text'') (\<lambda>_.
     if sy_reference_audio_path m = [] \<and> (sy_reference_text m \<noteq> [] \<or> sy_x_vector_only m) then
       Inl (InvalidFieldType, ''reference_text and x_vector_only require reference_audio_path'')
     else if sy_voice_id m \<noteq> [] \<and>
         (sy_reference_audio_path m \<noteq> [] \<or> sy_reference_text m \<noteq> [] \<or> sy_x_vector_only m) then
       Inl (InvalidFieldType, ''voice_id cannot be combined with direct reference-audio fields'')
     else
       and_then (validate_synthesis_sampling (sy_sampling m)) (\<lambda>_.
       validate_audio_format (sy_output m) ''output''))"
| "validate_control_message (ShutdownM m) =
     (if mode m = ''cancel'' then Inr () else Inl (InvalidFieldType, ''unsupported shutdown mode''))"
| "validate_control_message (ReadyM m) =
     and_then (validate_non_empty_string (worker_version m) ''worker_version'') (\<lambda>_.
     validate_non_empty_string (session_id m) ''session_id'')"
| "validate_control_message (QueuedM m) =
     (if \<not> has_position m \<or> position m > 0 then Inr ()
      else Inl (InvalidFieldType, ''position must be greater than zero''))"
| "validate_control_message (StartedM m) = validate_audio_format (started_format m) ''audio_format''"
| "validate_control_message m = Inr ()"

definition validate_error_message :: "ErrorMessage \<Rightarrow> CodecFailure + unit" where
  "validate_error_message m =
     and_then (validate_non_empty_string (category m) ''category'') (\<lambda>_.
     and_then (validate_non_empty_string (code m) ''code'') (\<lambda>_.
     validate_non_empty_string (err_message m) ''message''))"

lemma validate_non_empty_string_ok [simp]:
  "validate_non_empty_string v n = Inr u \<longleftrightarrow> v \<noteq> []"
  by (simp add: validate_non_empty_string_def)

lemma validate_audio_format_ok [simp]:
  "validate_audio_format f n = Inr u \<longleftrightarrow> sample_format f \<noteq> [] \<and> sample_rate f \<noteq> 0 \<and> channels f \<noteq> 0"
  by (simp add: validate_audio_format_def and_then_Inr_conv Let_def)

lemma outside_finite: "\<not> outside (Some d) lo hi \<Longrightarrow> isfinite d"
  by (simp add: outside_def)

lemma validate_synthesis_sampling_finite:
  assumes "validate_synthesis_sampling s = Inr u"
  shows "pred_option isfinite (temperature s)" "pred_option isfinite (top_p s)"
    "pred_option isfinite (repetition_penalty s)"
  using assms
  by (auto simp: validate_synthesis_sampling_def option.pred_set dest: outside_finite split: if_splits)

lemma validate_failure_code:
  "validate_control_message m = Inl (e, d) \<Longrightarrow> e = InvalidFieldType"
  by (cases m) (auto simp: and_then_def validate_non_empty_string_def validate_audio_format_def
      validate_synthesis_sampling_def Let_def split: sum.splits if_splits)

end
