(* ===== verification/Control_Codec.thy ===== *)
theory Control_Codec
  imports Control_Messages
begin

text \<open>
  \<open>control_json.cpp\<close>, \<open>control_encode.cpp\<close>, \<open>control_decode.cpp\<close>, \<open>error_codec.cpp\<close> and
  \<open>control_codec.cpp\<close> under \<open>src/qwen_tts_bridge/protocol/control/\<close>. A reader takes the object, the
  field name and, where the field is optional, the value its output parameter holds before the
  call; it returns the value or the failure with its diagnostic. \<open>json_parse\<close> and \<open>json_dump\<close> are
  the text parser and printer of the external JSON library: a failed call is the exception, by
  the class the handlers tell apart, with its \<open>what()\<close>.
\<close>

section \<open>Bytes, results and fields\<close>

definition bytes_to_string :: "byte list option \<Rightarrow> nat \<Rightarrow> string" where
  "bytes_to_string data sz =
     (case data of None \<Rightarrow> [] | Some bs \<Rightarrow> if sz = 0 then [] else map byte_char (take sz bs))"

definition string_to_bytes :: "string \<Rightarrow> byte list" where
  "string_to_bytes value = map char_byte value"

definition control_error :: "ControlCodecError \<Rightarrow> string \<Rightarrow> ControlDecodeResult" where
  "control_error e d = default_control_result\<lparr>cd_error := e, cd_diagnostic := d\<rparr>"

definition error_error :: "ControlCodecError \<Rightarrow> string \<Rightarrow> ErrorDecodeResult" where
  "error_error e d = \<lparr>ed_message = default_error_message, ed_error = e, ed_diagnostic = d\<rparr>"

definition payload_error :: "ControlCodecError \<Rightarrow> string \<Rightarrow> JsonPayloadEncodeResult" where
  "payload_error e d = \<lparr>je_payload = [], je_error = e, je_diagnostic = d\<rparr>"

definition has_forbidden_header_field :: "json \<Rightarrow> bool" where
  "has_forbidden_header_field obj \<longleftrightarrow>
     find_field obj ''protocol_version'' \<noteq> None \<or> find_field obj ''request_id'' \<noteq> None"

definition reject_unknown_fields :: "json \<Rightarrow> string list \<Rightarrow> string \<Rightarrow> CodecFailure + unit" where
  "reject_unknown_fields obj allowed object_name =
     (case filter (\<lambda>k. k \<notin> set allowed) (map fst (json_items obj)) of
        [] \<Rightarrow> Inr ()
      | k # ks \<Rightarrow> Inl (UnknownField, object_name @ '' contains unknown field: '' @ k))"

definition missing_field :: "string \<Rightarrow> CodecFailure + 'a" where
  "missing_field name = Inl (MissingRequiredField, ''missing required field: '' @ name)"

definition wrong_field :: "string \<Rightarrow> string \<Rightarrow> CodecFailure + 'a" where
  "wrong_field what name = Inl (InvalidFieldType, what @ name)"

section \<open>Readers\<close>

fun as_string :: "string \<Rightarrow> json \<Rightarrow> CodecFailure + string" where
  "as_string name (JString s) = Inr s"
| "as_string name j = wrong_field ''field must be a string: '' name"

fun as_bool :: "string \<Rightarrow> json \<Rightarrow> CodecFailure + bool" where
  "as_bool name (JBool b) = Inr b"
| "as_bool name j = wrong_field ''field must be a bool: '' name"

definition read_required_string :: "json \<Rightarrow> string \<Rightarrow> CodecFailure + string" where
  "read_required_string obj name =
     (case find_field obj name of None \<Rightarrow> missing_field name | Some v \<Rightarrow> as_string name v)"

definition read_optional_string :: "json \<Rightarrow> string \<Rightarrow> string \<Rightarrow> CodecFailure + string" where
  "read_optional_string obj name out =
     (case find_field obj name of None \<Rightarrow> Inr out | Some v \<Rightarrow> as_string name v)"

fun collect_strings :: "string \<Rightarrow> json list \<Rightarrow> CodecFailure + string list" where
  "collect_strings name [] = Inr []"
| "collect_strings name (JString s # js) =
     (if s = [] then wrong_field ''field must contain non-empty strings: '' name
      else and_then (collect_strings name js) (\<lambda>ss. Inr (s # ss)))"
| "collect_strings name (j # js) = wrong_field ''field must contain non-empty strings: '' name"

definition read_optional_string_array ::
  "json \<Rightarrow> string \<Rightarrow> string list \<Rightarrow> CodecFailure + string list" where
  "read_optional_string_array obj name out =
     (case find_field obj name of
        None \<Rightarrow> Inr out
      | Some (JArray js) \<Rightarrow> collect_strings name js
      | Some j \<Rightarrow> wrong_field ''field must be an array: '' name)"

text \<open>The value and whether it was present.\<close>

definition read_optional_bool :: "json \<Rightarrow> string \<Rightarrow> bool \<Rightarrow> CodecFailure + bool \<times> bool" where
  "read_optional_bool obj name out =
     (case find_field obj name of
        None \<Rightarrow> Inr (out, False)
      | Some v \<Rightarrow> and_then (as_bool name v) (\<lambda>b. Inr (b, True)))"

definition read_required_bool :: "json \<Rightarrow> string \<Rightarrow> CodecFailure + bool" where
  "read_required_bool obj name =
     (case find_field obj name of None \<Rightarrow> missing_field name | Some v \<Rightarrow> as_bool name v)"

text \<open>A signed value that is not negative has the same bits as its unsigned conversion.\<close>

fun json_to_u64 :: "json \<Rightarrow> u64 option" where
  "json_to_u64 (JUnsigned n) = Some n"
| "json_to_u64 (JInteger i) = (if sint i < 0 then None else Some i)"
| "json_to_u64 j = None"

definition read_optional_u64 :: "json \<Rightarrow> string \<Rightarrow> u64 \<Rightarrow> CodecFailure + u64 \<times> bool" where
  "read_optional_u64 obj name out =
     (case find_field obj name of
        None \<Rightarrow> Inr (out, False)
      | Some v \<Rightarrow>
          (case json_to_u64 v of
             None \<Rightarrow> wrong_field ''field must be a non-negative integer: '' name
           | Some n \<Rightarrow> Inr (n, True)))"

definition read_optional_u32 :: "json \<Rightarrow> string \<Rightarrow> u32 \<Rightarrow> CodecFailure + u32 \<times> bool" where
  "read_optional_u32 obj name out =
     and_then (read_optional_u64 obj name 0) (\<lambda>(value, present).
     if \<not> present then Inr (out, False)
     else if value > ucast (- 1 :: u32) then wrong_field ''field exceeds uint32 range: '' name
     else Inr (ucast value, True))"

definition read_required_u32 :: "json \<Rightarrow> string \<Rightarrow> CodecFailure + u32" where
  "read_required_u32 obj name =
     and_then (read_optional_u32 obj name 0) (\<lambda>(value, present).
     if \<not> present then missing_field name else Inr value)"

definition read_audio_format :: "json \<Rightarrow> CodecFailure + AudioFormat" where
  "read_audio_format obj =
     (if \<not> is_object obj then Inl (InvalidFieldType, ''audio format must be an object'')
      else
        and_then (read_required_string obj ''sample_format'') (\<lambda>sf.
        and_then (read_required_u32 obj ''sample_rate'') (\<lambda>sr.
        and_then (read_required_u32 obj ''channels'') (\<lambda>ch.
        let out = \<lparr>sample_format = sf, sample_rate = sr, channels = ch\<rparr> in
        and_then (validate_audio_format out ''audio_format'') (\<lambda>_. Inr out)))))"

definition read_optional_audio_format ::
  "json \<Rightarrow> string \<Rightarrow> AudioFormat \<Rightarrow> CodecFailure + AudioFormat" where
  "read_optional_audio_format obj name out =
     (case find_field obj name of None \<Rightarrow> Inr out | Some v \<Rightarrow> read_audio_format v)"

definition read_required_audio_format :: "json \<Rightarrow> string \<Rightarrow> CodecFailure + AudioFormat" where
  "read_required_audio_format obj name =
     (case find_field obj name of None \<Rightarrow> missing_field name | Some v \<Rightarrow> read_audio_format v)"

definition read_required_u64 :: "json \<Rightarrow> string \<Rightarrow> CodecFailure + u64" where
  "read_required_u64 obj name =
     (case find_field obj name of
        None \<Rightarrow> missing_field name
      | Some (JUnsigned n) \<Rightarrow> Inr n
      | Some j \<Rightarrow> wrong_field ''field must be an unsigned integer: '' name)"

text \<open>\<open>is_number\<close> and \<open>get\<open>double\<close>\<close>.\<close>

fun json_number :: "json \<Rightarrow> dbl option" where
  "json_number (JUnsigned n) = Some (dbl_of_u64 n)"
| "json_number (JInteger i) = Some (dbl_of_i64 i)"
| "json_number (JFloat d) = Some d"
| "json_number j = None"

definition read_optional_finite_double :: "json \<Rightarrow> string \<Rightarrow> CodecFailure + dbl option" where
  "read_optional_finite_double obj name =
     (case find_field obj name of
        None \<Rightarrow> Inr None
      | Some v \<Rightarrow>
          (case json_number v of
             None \<Rightarrow> wrong_field ''field must be a finite number: '' name
           | Some d \<Rightarrow>
               if isfinite d then Inr (Some d)
               else wrong_field ''field must be a finite number: '' name))"

definition read_optional_synthesis_sampling ::
  "json \<Rightarrow> string \<Rightarrow> CodecFailure + SynthesisSamplingOptions" where
  "read_optional_synthesis_sampling obj name =
     (case find_field obj name of
        None \<Rightarrow> Inr default_sampling
      | Some v \<Rightarrow>
          if \<not> is_object v then wrong_field ''field must be an object: '' name
          else
            and_then (reject_unknown_fields v
              [''temperature'', ''top_k'', ''top_p'', ''repetition_penalty'', ''do_sample''] name) (\<lambda>_.
            and_then (read_optional_finite_double v ''temperature'') (\<lambda>t.
            and_then (read_optional_u32 v ''top_k'' 0) (\<lambda>(k, k_present).
            and_then (read_optional_finite_double v ''top_p'') (\<lambda>p.
            and_then (read_optional_finite_double v ''repetition_penalty'') (\<lambda>rp.
            and_then (read_optional_bool v ''do_sample'' False) (\<lambda>(ds, ds_present).
            Inr \<lparr>temperature = t, top_k = (if k_present then Some k else None), top_p = p,
                 repetition_penalty = rp, do_sample = (if ds_present then Some ds else None)\<rparr>)))))))"

definition read_generation_trace :: "json \<Rightarrow> CodecFailure + GenerationTrace" where
  "read_generation_trace trace =
     (if \<not> is_object trace then Inl (InvalidFieldType, ''generation_trace must be an object'')
      else
        and_then (read_required_string trace ''termination_reason'') (\<lambda>tr.
        and_then (read_required_bool trace ''hit_eos'') (\<lambda>he.
        and_then (read_required_bool trace ''hit_max_seq_len'') (\<lambda>hs.
        and_then (read_required_bool trace ''hit_max_new_tokens'') (\<lambda>ht.
        and_then (read_required_u64 trace ''codec_frame_count'') (\<lambda>cf.
        and_then (read_required_u64 trace ''generated_steps'') (\<lambda>gs.
        and_then (read_required_u64 trace ''emitted_steps'') (\<lambda>es.
        and_then (read_required_u64 trace ''terminal_step_index'') (\<lambda>ti.
        Inr \<lparr>termination_reason = tr, hit_eos = he, hit_max_seq_len = hs, hit_max_new_tokens = ht,
             codec_frame_count = cf, generated_steps = gs, emitted_steps = es,
             terminal_step_index = ti\<rparr>)))))))))"

definition read_completed_message :: "json \<Rightarrow> CodecFailure + CompletedMessage" where
  "read_completed_message obj =
     and_then (read_optional_string obj ''execution_outcome'' '''') (\<lambda>eo.
     let out = default_completed\<lparr>execution_outcome := eo,
                 has_execution_outcome := find_field obj ''execution_outcome'' \<noteq> None\<rparr> in
     case find_field obj ''generation_trace'' of
       None \<Rightarrow> Inr out
     | Some trace \<Rightarrow>
         and_then (read_generation_trace trace) (\<lambda>t.
         Inr (out\<lparr>generation_trace := t, has_generation_trace := True\<rparr>)))"

definition read_capabilities :: "json \<Rightarrow> CodecFailure + WorkerCapabilities" where
  "read_capabilities obj =
     (case find_field obj ''capabilities'' of
        None \<Rightarrow> missing_field ''capabilities''
      | Some v \<Rightarrow>
          if \<not> is_object v then wrong_field ''field must be an object: '' ''capabilities''
          else
            and_then (read_required_bool v ''streaming'') (\<lambda>st.
            and_then (read_required_bool v ''cancellation'') (\<lambda>ca.
            and_then (read_required_bool v ''instructions'') (\<lambda>ins.
            and_then (read_required_bool v ''voice_clone'') (\<lambda>vc.
            and_then (read_optional_bool v ''sampling_overrides'' False) (\<lambda>(so, _).
            and_then (read_optional_bool v ''deterministic_seed'' False) (\<lambda>(dse, _).
            and_then (read_optional_bool v ''voice_clone_streaming'' False) (\<lambda>(vcs, _).
            and_then (read_optional_bool v ''voice_profiles'' False) (\<lambda>(vp, _).
            Inr \<lparr>streaming = st, cancellation = ca, instructions = ins, voice_clone = vc,
                 sampling_overrides = so, deterministic_seed = dse, voice_clone_streaming = vcs,
                 voice_profiles = vp\<rparr>)))))))))"

section \<open>Encoding\<close>

definition audio_format_to_json :: "AudioFormat \<Rightarrow> json" where
  "audio_format_to_json f =
     JObject (obj_of [(''sample_format'', JString (sample_format f)),
       (''sample_rate'', JUnsigned (ucast (sample_rate f))),
       (''channels'', JUnsigned (ucast (channels f)))])"

definition obj_put_option ::
  "string \<Rightarrow> ('a \<Rightarrow> json) \<Rightarrow> 'a option \<Rightarrow> (string \<times> json) list \<Rightarrow> (string \<times> json) list" where
  "obj_put_option k f v kvs = (case v of None \<Rightarrow> kvs | Some x \<Rightarrow> obj_put k (f x) kvs)"

definition synthesis_sampling_to_obj :: "SynthesisSamplingOptions \<Rightarrow> (string \<times> json) list" where
  "synthesis_sampling_to_obj o' =
     (obj_put_option ''do_sample'' JBool (do_sample o')
     (obj_put_option ''repetition_penalty'' JFloat (repetition_penalty o')
     (obj_put_option ''top_p'' JFloat (top_p o')
     (obj_put_option ''top_k'' (\<lambda>k. JUnsigned (ucast k)) (top_k o')
     (obj_put_option ''temperature'' JFloat (temperature o') [])))))"

definition capabilities_to_json :: "WorkerCapabilities \<Rightarrow> json" where
  "capabilities_to_json c =
     JObject (obj_of [(''streaming'', JBool (streaming c)), (''cancellation'', JBool (cancellation c)),
       (''instructions'', JBool (instructions c)), (''voice_clone'', JBool (voice_clone c)),
       (''sampling_overrides'', JBool (sampling_overrides c)),
       (''deterministic_seed'', JBool (deterministic_seed c)),
       (''voice_clone_streaming'', JBool (voice_clone_streaming c)),
       (''voice_profiles'', JBool (voice_profiles c))])"

definition generation_trace_to_json :: "GenerationTrace \<Rightarrow> json" where
  "generation_trace_to_json t =
     JObject (obj_of [(''termination_reason'', JString (termination_reason t)),
       (''hit_eos'', JBool (hit_eos t)), (''hit_max_seq_len'', JBool (hit_max_seq_len t)),
       (''hit_max_new_tokens'', JBool (hit_max_new_tokens t)),
       (''codec_frame_count'', JUnsigned (codec_frame_count t)),
       (''generated_steps'', JUnsigned (generated_steps t)),
       (''emitted_steps'', JUnsigned (emitted_steps t)),
       (''terminal_step_index'', JUnsigned (terminal_step_index t))])"

definition typed_object :: "string \<Rightarrow> (string \<times> json) list \<Rightarrow> (string \<times> json) list" where
  "typed_object t kvs = obj_of ((''message_type'', JString t) # kvs)"

definition synthesize_to_obj :: "SynthesizeMessage \<Rightarrow> (string \<times> json) list" where
  "synthesize_to_obj m =
     (let out = typed_object ''synthesize'' [(''text'', JString (sy_text m)),
            (''language'', JString (sy_language m)), (''instruction'', JString (sy_instruction m)),
            (''output'', audio_format_to_json (sy_output m))];
          out = obj_put_if (sy_speaker m \<noteq> []) ''speaker'' (JString (sy_speaker m)) out;
          out = obj_put_if (sy_voice_id m \<noteq> []) ''voice_id'' (JString (sy_voice_id m)) out;
          out = obj_put_if (sy_reference_audio_path m \<noteq> []) ''reference_audio_path''
                  (JString (sy_reference_audio_path m)) out;
          out = obj_put_if (sy_reference_text m \<noteq> []) ''reference_text''
                  (JString (sy_reference_text m)) out;
          out = obj_put_if (sy_x_vector_only m) ''x_vector_only'' (JBool True) out;
          out = obj_put_if (sy_has_seed m) ''seed'' (JUnsigned (sy_seed m)) out;
          sampling = synthesis_sampling_to_obj (sy_sampling m)
      in obj_put_if (sampling \<noteq> []) ''sampling'' (JObject sampling) out)"

fun control_message_to_json :: "ControlMessage \<Rightarrow> json" where
  "control_message_to_json (HelloM m) =
     JObject (typed_object ''hello'' [(''client_name'', JString (client_name m)),
       (''client_version'', JString (client_version m))])"
| "control_message_to_json (SynthesizeM m) = JObject (synthesize_to_obj m)"
| "control_message_to_json CancelM = JObject (typed_object ''cancel'' [])"
| "control_message_to_json (PingM m) =
     JObject (obj_put_if (has_sequence m) ''sequence'' (JUnsigned (sequence m)) (typed_object ''ping'' []))"
| "control_message_to_json (ShutdownM m) =
     JObject (typed_object ''shutdown'' [(''mode'', JString (mode m))])"
| "control_message_to_json (ReadyM m) =
     JObject (obj_put_if (voice_ids m \<noteq> []) ''voice_ids'' (JArray (map JString (voice_ids m)))
       (obj_put_if (has_warmed_up m) ''warmed_up'' (JBool (warmed_up m))
       (typed_object ''ready'' [(''worker_version'', JString (worker_version m)),
         (''session_id'', JString (session_id m)),
         (''capabilities'', capabilities_to_json (capabilities m))])))"
| "control_message_to_json (QueuedM m) =
     JObject (obj_put_if (has_position m) ''position'' (JUnsigned (ucast (position m)))
       (typed_object ''queued'' []))"
| "control_message_to_json (StartedM m) =
     JObject (typed_object ''started'' [(''audio_format'', audio_format_to_json (started_format m))])"
| "control_message_to_json (CompletedM m) =
     JObject (obj_put_if (has_generation_trace m) ''generation_trace''
         (generation_trace_to_json (generation_trace m))
       (obj_put_if (has_execution_outcome m) ''execution_outcome'' (JString (execution_outcome m))
       (typed_object ''completed'' [])))"
| "control_message_to_json CancelledM = JObject (typed_object ''cancelled'' [])"
| "control_message_to_json (PongM m) =
     JObject (obj_put_if (has_sequence m) ''sequence'' (JUnsigned (sequence m)) (typed_object ''pong'' []))"
| "control_message_to_json ShutdownAckM = JObject (typed_object ''shutdown_ack'' [])"

definition error_message_to_json :: "ErrorMessage \<Rightarrow> json" where
  "error_message_to_json m =
     JObject (typed_object ''error'' [(''category'', JString (category m)),
       (''code'', JString (code m)), (''message'', JString (err_message m))])"

text \<open>The printer throws a \<open>std::exception\<close> with a text, or something else.\<close>

type_synonym json_dump = "json \<Rightarrow> string option + string"

definition encode_json_payload :: "json_dump \<Rightarrow> json \<Rightarrow> JsonPayloadEncodeResult" where
  "encode_json_payload json_dump value =
     (case json_dump value of
        Inr s \<Rightarrow> \<lparr>je_payload = string_to_bytes s, je_error = CCE_None, je_diagnostic = ''''\<rparr>
      | Inl (Some what) \<Rightarrow> payload_error EncodeFailed what
      | Inl None \<Rightarrow> payload_error EncodeFailed ''unknown JSON encode error'')"

definition encode_control_message :: "json_dump \<Rightarrow> ControlMessage \<Rightarrow> JsonPayloadEncodeResult" where
  "encode_control_message json_dump m =
     (case validate_control_message m of
        Inl (e, d) \<Rightarrow> payload_error e d
      | Inr _ \<Rightarrow> encode_json_payload json_dump (control_message_to_json m))"

definition encode_error_message :: "json_dump \<Rightarrow> ErrorMessage \<Rightarrow> JsonPayloadEncodeResult" where
  "encode_error_message json_dump m =
     (case validate_error_message m of
        Inl (e, d) \<Rightarrow> payload_error e d
      | Inr _ \<Rightarrow> encode_json_payload json_dump (error_message_to_json m))"

section \<open>Decoding\<close>

definition is_client_to_worker_message :: "string \<Rightarrow> bool" where
  "is_client_to_worker_message t \<longleftrightarrow>
     t = ''hello'' \<or> t = ''synthesize'' \<or> t = ''cancel'' \<or> t = ''ping'' \<or> t = ''shutdown''"

definition is_worker_to_client_message :: "string \<Rightarrow> bool" where
  "is_worker_to_client_message t \<longleftrightarrow>
     t = ''ready'' \<or> t = ''queued'' \<or> t = ''started'' \<or> t = ''completed'' \<or> t = ''cancelled'' \<or>
     t = ''pong'' \<or> t = ''shutdown_ack''"

definition is_known_control_message :: "string \<Rightarrow> bool" where
  "is_known_control_message t \<longleftrightarrow> is_client_to_worker_message t \<or> is_worker_to_client_message t"

definition direction_allows :: "string \<Rightarrow> ControlMessageDirection \<Rightarrow> bool" where
  "direction_allows t direction =
     (if direction = ClientToWorker then is_client_to_worker_message t
      else is_worker_to_client_message t)"

definition make_control_message :: "ControlMessage \<Rightarrow> ControlDecodeResult" where
  "make_control_message m = default_control_result\<lparr>cd_message := m\<rparr>"

definition control_outcome :: "CodecFailure + ControlMessage \<Rightarrow> ControlDecodeResult" where
  "control_outcome r =
     (case r of Inl (e, d) \<Rightarrow> control_error e d | Inr m \<Rightarrow> make_control_message m)"

definition validated :: "ControlMessage \<Rightarrow> CodecFailure + ControlMessage" where
  "validated m = and_then (validate_control_message m) (\<lambda>_. Inr m)"

definition read_hello :: "json \<Rightarrow> CodecFailure + ControlMessage" where
  "read_hello obj =
     and_then (read_required_string obj ''client_name'') (\<lambda>n.
     and_then (read_required_string obj ''client_version'') (\<lambda>v.
     validated (HelloM \<lparr>client_name = n, client_version = v\<rparr>)))"

definition read_synthesize :: "json \<Rightarrow> CodecFailure + ControlMessage" where
  "read_synthesize obj =
     and_then (read_required_string obj ''text'') (\<lambda>tx.
     and_then (read_optional_string obj ''language'' (sy_language default_synthesize)) (\<lambda>la.
     and_then (read_optional_string obj ''speaker'' '''') (\<lambda>sp.
     and_then (read_optional_string obj ''instruction'' '''') (\<lambda>ins.
     and_then (read_optional_string obj ''voice_id'' '''') (\<lambda>vi.
     and_then (read_optional_string obj ''reference_audio_path'' '''') (\<lambda>rap.
     and_then (read_optional_string obj ''reference_text'' '''') (\<lambda>rt.
     and_then (read_optional_bool obj ''x_vector_only'' False) (\<lambda>(xv, _).
     and_then (read_optional_u64 obj ''seed'' 0) (\<lambda>(sd, sd_present).
     and_then (read_optional_synthesis_sampling obj ''sampling'') (\<lambda>sa.
     and_then (read_optional_audio_format obj ''output'' default_audio_format) (\<lambda>af.
     validated (SynthesizeM \<lparr>sy_text = tx, sy_language = la, sy_speaker = sp, sy_instruction = ins,
       sy_voice_id = vi, sy_reference_audio_path = rap, sy_reference_text = rt,
       sy_x_vector_only = xv, sy_has_seed = sd_present, sy_seed = sd, sy_sampling = sa,
       sy_output = af\<rparr>))))))))))))"

definition read_sequence :: "(SequenceMessage \<Rightarrow> ControlMessage) \<Rightarrow> json \<Rightarrow> CodecFailure + ControlMessage" where
  "read_sequence mk obj =
     and_then (read_optional_u64 obj ''sequence'' 0) (\<lambda>(n, present).
     Inr (mk \<lparr>has_sequence = present, sequence = n\<rparr>))"

definition read_shutdown :: "json \<Rightarrow> CodecFailure + ControlMessage" where
  "read_shutdown obj =
     and_then (read_optional_string obj ''mode'' (mode default_shutdown)) (\<lambda>md.
     if md \<noteq> ''cancel'' then Inl (InvalidFieldType, ''unsupported shutdown mode'')
     else Inr (ShutdownM \<lparr>mode = md\<rparr>))"

definition read_ready :: "json \<Rightarrow> CodecFailure + ControlMessage" where
  "read_ready obj =
     and_then (read_required_string obj ''worker_version'') (\<lambda>wv.
     and_then (read_required_string obj ''session_id'') (\<lambda>sid.
     and_then (read_optional_bool obj ''warmed_up'' False) (\<lambda>(wu, wu_present).
     and_then (read_optional_string_array obj ''voice_ids'' []) (\<lambda>vids.
     and_then (read_capabilities obj) (\<lambda>caps.
     validated (ReadyM \<lparr>worker_version = wv, session_id = sid, has_warmed_up = wu_present,
       warmed_up = wu, capabilities = caps, voice_ids = vids\<rparr>))))))"

definition read_queued :: "json \<Rightarrow> CodecFailure + ControlMessage" where
  "read_queued obj =
     and_then (read_optional_u32 obj ''position'' 0) (\<lambda>(n, present).
     validated (QueuedM \<lparr>has_position = present, position = n\<rparr>))"

definition read_started :: "json \<Rightarrow> CodecFailure + ControlMessage" where
  "read_started obj =
     and_then (read_required_audio_format obj ''audio_format'') (\<lambda>af.
     validated (StartedM \<lparr>started_format = af\<rparr>))"

definition read_completed :: "json \<Rightarrow> CodecFailure + ControlMessage" where
  "read_completed obj = and_then (read_completed_message obj) (\<lambda>m. Inr (CompletedM m))"

definition decode_known_control_message :: "json \<Rightarrow> string \<Rightarrow> ControlDecodeResult" where
  "decode_known_control_message obj t =
     control_outcome
       (if t = ''hello'' then read_hello obj
        else if t = ''synthesize'' then read_synthesize obj
        else if t = ''cancel'' then Inr CancelM
        else if t = ''ping'' then read_sequence PingM obj
        else if t = ''shutdown'' then read_shutdown obj
        else if t = ''ready'' then read_ready obj
        else if t = ''queued'' then read_queued obj
        else if t = ''started'' then read_started obj
        else if t = ''completed'' then read_completed obj
        else if t = ''cancelled'' then Inr CancelledM
        else if t = ''pong'' then read_sequence PongM obj
        else if t = ''shutdown_ack'' then Inr ShutdownAckM
        else Inl (UnknownMessageType, ''unknown message_type''))"

definition decode_control_object :: "json \<Rightarrow> ControlMessageDirection \<Rightarrow> ControlDecodeResult" where
  "decode_control_object obj direction =
     (if \<not> is_object obj then
        control_error PayloadNotObject ''control payload must be a JSON object''
      else if has_forbidden_header_field obj then
        control_error ForbiddenField ''control payload must not contain protocol_version or request_id''
      else
        (case find_field obj ''message_type'' of
           None \<Rightarrow> control_error MissingMessageType ''missing message_type''
         | Some (JString t) \<Rightarrow>
             if \<not> is_known_control_message t then
               control_error UnknownMessageType (''unknown message_type: '' @ t)
             else if \<not> direction_allows t direction then
               control_error InvalidMessageDirection
                 (''message_type is not valid for this direction: '' @ t)
             else decode_known_control_message obj t
         | Some j \<Rightarrow> control_error InvalidMessageType ''message_type must be a string''))"

text \<open>What \<open>Json::parse\<close> throws, in the order of the handlers.\<close>

datatype json_exception = ParseException string | TypeException string | StdException string | OtherException

type_synonym json_parse = "string \<Rightarrow> json_exception + json"

fun exception_failure :: "json_exception \<Rightarrow> CodecFailure" where
  "exception_failure (ParseException what) = (InvalidJson, what)"
| "exception_failure (TypeException what) = (InvalidFieldType, what)"
| "exception_failure (StdException what) = (InvalidJson, what)"
| "exception_failure OtherException = (InvalidJson, ''unknown JSON decode error'')"

definition decode_control_payload ::
  "json_parse \<Rightarrow> byte list option \<Rightarrow> nat \<Rightarrow> ControlMessageDirection \<Rightarrow> ControlDecodeResult" where
  "decode_control_payload json_parse data sz direction =
     (if data = None \<and> sz \<noteq> 0 then control_error InvalidJson ''payload data is null''
      else
        (case json_parse (bytes_to_string data sz) of
           Inl x \<Rightarrow> (let (e, d) = exception_failure x in control_error e d)
         | Inr value \<Rightarrow> decode_control_object value direction))"

definition decode_control_message ::
  "json_parse \<Rightarrow> byte list \<Rightarrow> ControlMessageDirection \<Rightarrow> ControlDecodeResult" where
  "decode_control_message json_parse pl direction =
     decode_control_payload json_parse (Some pl) (length pl) direction"

definition error_outcome :: "CodecFailure + ErrorMessage \<Rightarrow> ErrorDecodeResult" where
  "error_outcome r =
     (case r of
        Inl (e, d) \<Rightarrow> error_error e d
      | Inr m \<Rightarrow> \<lparr>ed_message = m, ed_error = CCE_None, ed_diagnostic = ''''\<rparr>)"

definition read_error_fields :: "json \<Rightarrow> CodecFailure + ErrorMessage" where
  "read_error_fields obj =
     and_then (read_required_string obj ''category'') (\<lambda>ca.
     and_then (read_required_string obj ''code'') (\<lambda>co.
     and_then (read_required_string obj ''message'') (\<lambda>me.
     let m = \<lparr>category = ca, code = co, err_message = me\<rparr> in
     and_then (validate_error_message m) (\<lambda>_. Inr m))))"

definition decode_error_object :: "json \<Rightarrow> ErrorDecodeResult" where
  "decode_error_object obj =
     (if \<not> is_object obj then
        error_error PayloadNotObject ''error payload must be a JSON object''
      else if has_forbidden_header_field obj then
        error_error ForbiddenField ''error payload must not contain protocol_version or request_id''
      else
        (case find_field obj ''message_type'' of
           None \<Rightarrow> error_error MissingMessageType ''missing message_type''
         | Some (JString t) \<Rightarrow>
             if t \<noteq> ''error'' then
               error_error UnknownMessageType ''error_json must use message_type=error''
             else error_outcome (read_error_fields obj)
         | Some j \<Rightarrow> error_error InvalidMessageType ''message_type must be a string''))"

definition decode_error_payload :: "json_parse \<Rightarrow> byte list option \<Rightarrow> nat \<Rightarrow> ErrorDecodeResult" where
  "decode_error_payload json_parse data sz =
     (if data = None \<and> sz \<noteq> 0 then error_error InvalidJson ''payload data is null''
      else
        (case json_parse (bytes_to_string data sz) of
           Inl x \<Rightarrow> (let (e, d) = exception_failure x in error_error e d)
         | Inr value \<Rightarrow> decode_error_object value))"

definition decode_error_message :: "json_parse \<Rightarrow> byte list \<Rightarrow> ErrorDecodeResult" where
  "decode_error_message json_parse pl = decode_error_payload json_parse (Some pl) (length pl)"

end
