(* ===== verification/Control_Roundtrip.thy ===== *)
theory Control_Roundtrip
  imports Control_Codec
begin

text \<open>
  What the two halves of the control codec say about each other: a message that passes validation
  and is encoded is decoded, in its own direction, to the message that was sent; a message that is
  decoded has passed validation and belongs to the direction asked for.
\<close>

section \<open>Readers on encoded objects\<close>

lemma ucast_u32_u64: "ucast (ucast (x :: u32) :: u64) = x"
  by (rule bit_word_eqI) (simp add: bit_unsigned_iff possible_bit_word)

lemma u32_in_range: "\<not> (ucast (- 1 :: u32) :: u64) < ucast (x :: u32)"
proof -
  have "unat (ucast (- 1 :: u32) :: u64) = 4294967295"
    by (simp add: unsigned_ucast_eq take_bit_nat_def)
  moreover have "unat (ucast x :: u64) = unat x"
    using unat_u32_less [of x] by (simp add: unsigned_ucast_eq take_bit_nat_def)
  ultimately show ?thesis
    using unat_u32_less [of x] by (simp add: word_less_nat_alt)
qed

named_theorems read_simps \<open>readers applied to fields that are known\<close>

lemma and_then_passed [read_simps]: "r = Inr () \<Longrightarrow> and_then r k = k ()"
  by simp

lemma read_string_known [read_simps]:
  "find_field obj n = Some (JString s) \<Longrightarrow> read_required_string obj n = Inr s"
  "find_field obj n = Some (JString s) \<Longrightarrow> read_optional_string obj n x = Inr s"
  "find_field obj n = None \<Longrightarrow> read_optional_string obj n x = Inr x"
  by (simp_all add: read_required_string_def read_optional_string_def)

lemma read_bool_known [read_simps]:
  "find_field obj n = Some (JBool b) \<Longrightarrow> read_required_bool obj n = Inr b"
  "find_field obj n = Some (JBool b) \<Longrightarrow> read_optional_bool obj n x = Inr (b, True)"
  "find_field obj n = None \<Longrightarrow> read_optional_bool obj n x = Inr (x, False)"
  by (simp_all add: read_required_bool_def read_optional_bool_def)

lemma read_u64_known [read_simps]:
  "find_field obj n = Some (JUnsigned w) \<Longrightarrow> read_required_u64 obj n = Inr w"
  "find_field obj n = Some (JUnsigned w) \<Longrightarrow> read_optional_u64 obj n x = Inr (w, True)"
  "find_field obj n = None \<Longrightarrow> read_optional_u64 obj n x = Inr (x, False)"
  by (simp_all add: read_required_u64_def read_optional_u64_def)

lemma read_optional_u32_known [read_simps]:
  "find_field obj n = Some (JUnsigned (ucast v)) \<Longrightarrow> read_optional_u32 obj n x = Inr (v, True)"
  "find_field obj n = None \<Longrightarrow> read_optional_u32 obj n x = Inr (x, False)"
  by (simp_all only: read_optional_u32_def read_u64_known and_then_Inr split u32_in_range
      ucast_u32_u64 if_False if_True simp_thms)

lemma read_required_u32_known [read_simps]:
  "find_field obj n = Some (JUnsigned (ucast v)) \<Longrightarrow> read_required_u32 obj n = Inr v"
  by (simp add: read_required_u32_def read_optional_u32_known)

lemma read_double_known [read_simps]:
  "find_field obj n = Some (JFloat d) \<Longrightarrow> isfinite d \<Longrightarrow> read_optional_finite_double obj n = Inr (Some d)"
  "find_field obj n = None \<Longrightarrow> read_optional_finite_double obj n = Inr None"
  by (simp_all add: read_optional_finite_double_def)

lemma collect_strings_known [read_simps]:
  "[] \<notin> set ss \<Longrightarrow> collect_strings n (map JString ss) = Inr ss"
  by (induction ss) auto

lemma read_audio_format_known [read_simps]:
  "validate_audio_format f n = Inr () \<Longrightarrow> read_audio_format (audio_format_to_json f) = Inr f"
  by (simp add: read_audio_format_def audio_format_to_json_def lookup_simps read_simps Let_def)

lemma read_capabilities_known [read_simps]:
  "find_field obj ''capabilities'' = Some (capabilities_to_json c) \<Longrightarrow> read_capabilities obj = Inr c"
  by (simp add: read_capabilities_def capabilities_to_json_def lookup_simps read_simps)

lemma read_generation_trace_known [read_simps]:
  "read_generation_trace (generation_trace_to_json t) = Inr t"
  by (simp add: read_generation_trace_def generation_trace_to_json_def lookup_simps read_simps)

lemma find_field_put_option [lookup_simps]:
  "find_field (JObject (obj_put_option k f v kvs)) n =
     (if n = k \<and> v \<noteq> None then Some (f (the v)) else find_field (JObject kvs) n)"
  by (cases v) (simp_all add: obj_put_option_def find_field_def)

lemma keys_put_option: "fst ` set (obj_put_option k f v kvs) \<subseteq> insert k (fst ` set kvs)"
  by (cases v) (simp_all add: obj_put_option_def subset_insertI)

lemma sampling_keys:
  "fst ` set (synthesis_sampling_to_obj s) \<subseteq>
     set [''temperature'', ''top_k'', ''top_p'', ''repetition_penalty'', ''do_sample'']"
  unfolding synthesis_sampling_to_obj_def
  by (intro order_trans [OF keys_put_option] insert_subsetI) simp_all

lemma reject_unknown_fields_known:
  "fst ` set kvs \<subseteq> set allowed \<Longrightarrow> reject_unknown_fields (JObject kvs) allowed n = Inr ()"
proof -
  assume "fst ` set kvs \<subseteq> set allowed"
  then have "filter (\<lambda>k. k \<notin> set allowed) (map fst kvs) = []" by (auto simp: filter_empty_conv)
  then show ?thesis by (simp add: reject_unknown_fields_def)
qed

lemma read_finite_option:
  assumes "find_field obj n = map_option JFloat v" and "pred_option isfinite v"
  shows "read_optional_finite_double obj n = Inr v"
  using assms by (cases v) (simp_all add: read_simps)

lemma sampling_lookup:
  "find_field (JObject (synthesis_sampling_to_obj s)) ''temperature'' = map_option JFloat (temperature s)"
  "find_field (JObject (synthesis_sampling_to_obj s)) ''top_p'' = map_option JFloat (top_p s)"
  "find_field (JObject (synthesis_sampling_to_obj s)) ''repetition_penalty'' =
     map_option JFloat (repetition_penalty s)"
  "find_field (JObject (synthesis_sampling_to_obj s)) ''top_k'' =
     map_option (\<lambda>k. JUnsigned (ucast k)) (top_k s)"
  "find_field (JObject (synthesis_sampling_to_obj s)) ''do_sample'' = map_option JBool (do_sample s)"
  by (auto simp: synthesis_sampling_to_obj_def lookup_simps)

lemma read_sampling_known [read_simps]:
  assumes "find_field obj n = Some (JObject (synthesis_sampling_to_obj s))"
    and "validate_synthesis_sampling s = Inr ()"
  shows "read_optional_synthesis_sampling obj n = Inr s"
proof -
  note fin = validate_synthesis_sampling_finite [OF assms(2)]
  let ?o = "JObject (synthesis_sampling_to_obj s)"
  have k: "read_optional_u32 ?o ''top_k'' 0 = Inr (case top_k s of None \<Rightarrow> (0, False) | Some k \<Rightarrow> (k, True))"
    by (cases "top_k s") (simp_all add: read_simps sampling_lookup)
  have d: "read_optional_bool ?o ''do_sample'' False =
      Inr (case do_sample s of None \<Rightarrow> (False, False) | Some b \<Rightarrow> (b, True))"
    by (cases "do_sample s") (simp_all add: read_simps sampling_lookup)
  show ?thesis
    using assms(1) fin sampling_keys [of s]
    by (simp add: read_optional_synthesis_sampling_def reject_unknown_fields_known read_finite_option
        sampling_lookup k d split: option.splits)
qed

lemma sampling_empty: "synthesis_sampling_to_obj s = [] \<Longrightarrow> s = default_sampling"
proof -
  assume "synthesis_sampling_to_obj s = []"
  then show ?thesis using sampling_lookup [of s] by (simp add: lookup_simps default_sampling_def)
qed

lemma read_sampling_absent [read_simps]:
  "find_field obj n = None \<Longrightarrow> read_optional_synthesis_sampling obj n = Inr default_sampling"
  by (simp add: read_optional_synthesis_sampling_def)

section \<open>Decoding what was encoded\<close>

fun message_direction :: "ControlMessage \<Rightarrow> ControlMessageDirection" where
  "message_direction (HelloM m) = ClientToWorker"
| "message_direction (SynthesizeM m) = ClientToWorker"
| "message_direction CancelM = ClientToWorker"
| "message_direction (PingM m) = ClientToWorker"
| "message_direction (ShutdownM m) = ClientToWorker"
| "message_direction m = WorkerToClient"

fun type_name :: "ControlMessageType \<Rightarrow> string" where
  "type_name CMT_Hello = ''hello''"
| "type_name CMT_Synthesize = ''synthesize''"
| "type_name CMT_Cancel = ''cancel''"
| "type_name CMT_Ping = ''ping''"
| "type_name CMT_Shutdown = ''shutdown''"
| "type_name CMT_Ready = ''ready''"
| "type_name CMT_Queued = ''queued''"
| "type_name CMT_Started = ''started''"
| "type_name CMT_Completed = ''completed''"
| "type_name CMT_Cancelled = ''cancelled''"
| "type_name CMT_Pong = ''pong''"
| "type_name CMT_ShutdownAck = ''shutdown_ack''"

text \<open>A member guarded by a presence flag is not sent when the flag is off, so the receiver has
  its default.\<close>

fun wire_form :: "ControlMessage \<Rightarrow> ControlMessage" where
  "wire_form (SynthesizeM m) = SynthesizeM (m\<lparr>sy_seed := (if sy_has_seed m then sy_seed m else 0)\<rparr>)"
| "wire_form (PingM m) = PingM (m\<lparr>sequence := (if has_sequence m then sequence m else 0)\<rparr>)"
| "wire_form (PongM m) = PongM (m\<lparr>sequence := (if has_sequence m then sequence m else 0)\<rparr>)"
| "wire_form (ReadyM m) = ReadyM (m\<lparr>warmed_up := has_warmed_up m \<and> warmed_up m\<rparr>)"
| "wire_form (QueuedM m) = QueuedM (m\<lparr>position := (if has_position m then position m else 0)\<rparr>)"
| "wire_form (CompletedM m) =
     CompletedM (m\<lparr>execution_outcome := (if has_execution_outcome m then execution_outcome m else ''''),
       generation_trace := (if has_generation_trace m then generation_trace m else default_trace)\<rparr>)"
| "wire_form m = m"

fun voices_named :: "ControlMessage \<Rightarrow> bool" where
  "voices_named (ReadyM m) = ([] \<notin> set (voice_ids m))"
| "voices_named m = True"

lemma find_field_typed [lookup_simps]:
  "find_field (JObject (typed_object t kvs)) n =
     (case map_of (rev kvs) n of None \<Rightarrow> (if n = ''message_type'' then Some (JString t) else None)
      | Some v \<Rightarrow> Some v)"
  by (simp add: typed_object_def find_field_obj map_add_def split: option.splits)

text \<open>The envelope: every encoded message is an object with its type name and without the fields
  that belong to the frame header.\<close>

lemma encoded_envelope:
  fixes m :: ControlMessage
  defines "j \<equiv> control_message_to_json m"
  shows "is_object j" "\<not> has_forbidden_header_field j"
    "find_field j ''message_type'' = Some (JString (type_name (control_message_type m)))"
  unfolding j_def
  by (cases m; simp add: has_forbidden_header_field_def lookup_simps synthesize_to_obj_def Let_def)+

lemma type_name_direction:
  "is_known_control_message (type_name (control_message_type m))"
  "direction_allows (type_name (control_message_type m)) d \<longleftrightarrow> d = message_direction m"
  by (cases m; cases d; simp add: is_known_control_message_def direction_allows_def
      is_client_to_worker_message_def is_worker_to_client_message_def)+

lemma decode_control_object_encoded:
  "decode_control_object (control_message_to_json m) d =
     (if d = message_direction m
      then decode_known_control_message (control_message_to_json m) (type_name (control_message_type m))
      else control_error InvalidMessageDirection
        (''message_type is not valid for this direction: '' @ type_name (control_message_type m)))"
  by (simp add: decode_control_object_def encoded_envelope type_name_direction)

lemma decode_known_type_name:
  "decode_known_control_message obj (type_name t) =
     control_outcome
       (case t of
          CMT_Hello \<Rightarrow> read_hello obj
        | CMT_Synthesize \<Rightarrow> read_synthesize obj
        | CMT_Cancel \<Rightarrow> Inr CancelM
        | CMT_Ping \<Rightarrow> read_sequence PingM obj
        | CMT_Shutdown \<Rightarrow> read_shutdown obj
        | CMT_Ready \<Rightarrow> read_ready obj
        | CMT_Queued \<Rightarrow> read_queued obj
        | CMT_Started \<Rightarrow> read_started obj
        | CMT_Completed \<Rightarrow> read_completed obj
        | CMT_Cancelled \<Rightarrow> Inr CancelledM
        | CMT_Pong \<Rightarrow> read_sequence PongM obj
        | CMT_ShutdownAck \<Rightarrow> Inr ShutdownAckM)"
  by (cases t) (simp_all add: decode_known_control_message_def)

lemma validated_ok: "validate_control_message m = Inr () \<Longrightarrow> validated m = Inr m"
  by (simp add: validated_def)

lemma validate_wire_form: "validate_control_message (wire_form m) = validate_control_message m"
  by (cases m) (simp_all split del: if_split cong: if_cong)

lemma read_hello_encoded:
  "validate_control_message (HelloM m) = Inr () \<Longrightarrow>
     read_hello (control_message_to_json (HelloM m)) = Inr (HelloM m)"
  by (simp add: read_hello_def lookup_simps read_simps validated_def)

lemma read_ready_encoded:
  assumes "validate_control_message (ReadyM m) = Inr ()" "voices_named (ReadyM m)"
  shows "read_ready (control_message_to_json (ReadyM m)) = Inr (wire_form (ReadyM m))"
proof -
  let ?j = "control_message_to_json (ReadyM m)"
  have "read_optional_bool ?j ''warmed_up'' False = Inr (has_warmed_up m \<and> warmed_up m, has_warmed_up m)"
    by (cases "has_warmed_up m") (simp_all add: lookup_simps read_simps)
  moreover have "read_optional_string_array ?j ''voice_ids'' [] = Inr (voice_ids m)"
    using assms(2)
    by (cases "voice_ids m = []") (simp_all add: read_optional_string_array_def lookup_simps read_simps)
  moreover have "read_capabilities ?j = Inr (capabilities m)"
    by (simp add: lookup_simps read_simps)
  ultimately show ?thesis
    using assms(1)
    by (simp add: read_ready_def lookup_simps read_simps validated_def del: control_message_to_json.simps)
      (simp add: lookup_simps read_simps)
qed

lemma read_completed_encoded:
  "read_completed (control_message_to_json (CompletedM m)) = Inr (wire_form (CompletedM m))"
  by (cases "has_execution_outcome m"; cases "has_generation_trace m")
    (simp_all add: read_completed_def read_completed_message_def default_completed_def lookup_simps
      read_simps Let_def)

lemma read_optional_string_default:
  "find_field obj n = (if s \<noteq> [] then Some (JString s) else None) \<Longrightarrow> read_optional_string obj n [] = Inr s"
  by (cases s) (simp_all add: read_simps)

lemma synthesize_lookup:
  fixes m :: SynthesizeMessage
  defines "j \<equiv> JObject (synthesize_to_obj m)"
  shows "find_field j ''text'' = Some (JString (sy_text m))"
    "find_field j ''language'' = Some (JString (sy_language m))"
    "find_field j ''instruction'' = Some (JString (sy_instruction m))"
    "find_field j ''output'' = Some (audio_format_to_json (sy_output m))"
    "find_field j ''speaker'' = (if sy_speaker m \<noteq> [] then Some (JString (sy_speaker m)) else None)"
    "find_field j ''voice_id'' = (if sy_voice_id m \<noteq> [] then Some (JString (sy_voice_id m)) else None)"
    "find_field j ''reference_audio_path'' =
       (if sy_reference_audio_path m \<noteq> [] then Some (JString (sy_reference_audio_path m)) else None)"
    "find_field j ''reference_text'' =
       (if sy_reference_text m \<noteq> [] then Some (JString (sy_reference_text m)) else None)"
    "find_field j ''x_vector_only'' = (if sy_x_vector_only m then Some (JBool True) else None)"
    "find_field j ''seed'' = (if sy_has_seed m then Some (JUnsigned (sy_seed m)) else None)"
    "find_field j ''sampling'' =
       (if synthesis_sampling_to_obj (sy_sampling m) \<noteq> []
        then Some (JObject (synthesis_sampling_to_obj (sy_sampling m))) else None)"
  unfolding j_def synthesize_to_obj_def Let_def by (simp_all add: lookup_simps)

lemma read_synthesize_encoded:
  assumes "validate_control_message (SynthesizeM m) = Inr ()"
  shows "read_synthesize (control_message_to_json (SynthesizeM m)) = Inr (wire_form (SynthesizeM m))"
proof -
  let ?j = "JObject (synthesize_to_obj m)"
  have sent: "\<lparr>sy_text = sy_text m, sy_language = sy_language m, sy_speaker = sy_speaker m,
       sy_instruction = sy_instruction m, sy_voice_id = sy_voice_id m,
       sy_reference_audio_path = sy_reference_audio_path m, sy_reference_text = sy_reference_text m,
       sy_x_vector_only = sy_x_vector_only m, sy_has_seed = sy_has_seed m, sy_seed = n,
       sy_sampling = sy_sampling m, sy_output = sy_output m\<rparr> = m\<lparr>sy_seed := n\<rparr>" for n
    by simp
  have valid: "validate_synthesis_sampling (sy_sampling m) = Inr ()"
    "validate_audio_format (sy_output m) ''output'' = Inr ()"
    using assms by (auto simp: and_then_Inr_conv split: if_splits)
  have "read_optional_synthesis_sampling ?j ''sampling'' = Inr (sy_sampling m)"
    using valid(1) sampling_empty [of "sy_sampling m"]
    by (cases "synthesis_sampling_to_obj (sy_sampling m) = []")
      (simp_all add: synthesize_lookup read_simps)
  moreover have "read_optional_audio_format ?j ''output'' x = Inr (sy_output m)" for x
    using valid(2) by (simp add: read_optional_audio_format_def synthesize_lookup read_audio_format_known)
  moreover have "read_optional_bool ?j ''x_vector_only'' False = Inr (sy_x_vector_only m, sy_x_vector_only m)"
    by (cases "sy_x_vector_only m") (simp_all add: synthesize_lookup read_simps)
  moreover have "read_optional_u64 ?j ''seed'' 0 =
      Inr (if sy_has_seed m then sy_seed m else 0, sy_has_seed m)"
    by (cases "sy_has_seed m") (simp_all add: synthesize_lookup read_simps)
  moreover have "validated (wire_form (SynthesizeM m)) = Inr (wire_form (SynthesizeM m))"
    using assms by (intro validated_ok) (simp only: validate_wire_form)
  ultimately show ?thesis
    by (simp add: read_synthesize_def synthesize_lookup read_string_known
        read_optional_string_default sent split del: if_split)
qed

lemma read_sequence_encoded:
  "find_field obj ''sequence'' = (if has_sequence m then Some (JUnsigned (sequence m)) else None) \<Longrightarrow>
     read_sequence mk obj = Inr (mk (m\<lparr>sequence := (if has_sequence m then sequence m else 0)\<rparr>))"
  by (cases m; cases "has_sequence m") (simp_all add: read_sequence_def read_simps)

lemma read_shutdown_encoded:
  "validate_control_message (ShutdownM m) = Inr () \<Longrightarrow>
     read_shutdown (control_message_to_json (ShutdownM m)) = Inr (ShutdownM m)"
  by (cases m) (simp add: read_shutdown_def lookup_simps read_simps split: if_splits)

lemma read_queued_encoded:
  assumes "validate_control_message (QueuedM m) = Inr ()"
  shows "read_queued (control_message_to_json (QueuedM m)) = Inr (wire_form (QueuedM m))"
  using assms
  by (cases m; cases "has_position m")
    (simp_all add: read_queued_def lookup_simps read_simps validated_def split: if_splits)

lemma read_started_encoded:
  "validate_control_message (StartedM m) = Inr () \<Longrightarrow>
     read_started (control_message_to_json (StartedM m)) = Inr (StartedM m)"
  by (cases m) (simp add: read_started_def read_required_audio_format_def lookup_simps read_simps
      validated_def)

lemmas read_encoded = read_hello_encoded read_synthesize_encoded read_shutdown_encoded
  read_ready_encoded read_queued_encoded read_started_encoded read_completed_encoded

lemma decode_known_encoded:
  assumes "validate_control_message m = Inr ()" and "voices_named m"
  shows "decode_known_control_message (control_message_to_json m) (type_name (control_message_type m)) =
     make_control_message (wire_form m)"
proof -
  have seq: "find_field (control_message_to_json (PingM x)) ''sequence'' =
      (if has_sequence x then Some (JUnsigned (sequence x)) else None)"
    "find_field (control_message_to_json (PongM x)) ''sequence'' =
      (if has_sequence x then Some (JUnsigned (sequence x)) else None)" for x
    by (simp_all add: lookup_simps)
  note [simp del] = validate_control_message.simps control_message_to_json.simps type_name.simps
  show ?thesis
    using assms
    by (cases m) (simp_all add: decode_known_type_name control_outcome_def read_encoded
        read_sequence_encoded [OF seq(1)] read_sequence_encoded [OF seq(2)])
qed

section \<open>Messages that come out of the decoder\<close>

text \<open>A reader that fails names an error: \<open>ControlCodecError::None\<close> is never returned with a
  failure, so \<open>operator bool\<close> of the result tells success from failure.\<close>

definition proper :: "CodecFailure + 'a \<Rightarrow> bool" where
  "proper r \<longleftrightarrow> (\<forall>d. r \<noteq> Inl (CCE_None, d))"

named_theorems proper_intros \<open>readers whose failures carry an error\<close>

lemma proper_basic [proper_intros, simp]:
  "proper (Inr a)" "e \<noteq> CCE_None \<Longrightarrow> proper (Inl (e, d))" "proper (missing_field n)"
  "proper (wrong_field w n)"
  by (simp_all add: proper_def missing_field_def wrong_field_def)

lemma proper_and_then [proper_intros]:
  "proper r \<Longrightarrow> (\<And>a. r = Inr a \<Longrightarrow> proper (k a)) \<Longrightarrow> proper (and_then r k)"
  by (cases r) (auto simp: proper_def)

lemma proper_as [proper_intros]: "proper (as_string n j)" "proper (as_bool n j)"
  by (cases j; simp)+

lemma proper_collect_strings [proper_intros]: "proper (collect_strings n js)"
  by (induction n js rule: collect_strings.induct) (auto intro: proper_intros)

lemma proper_scalar_readers [proper_intros]:
  "proper (read_required_string obj n)" "proper (read_optional_string obj n s)"
  "proper (read_optional_bool obj n b)" "proper (read_required_bool obj n)"
  "proper (read_optional_u64 obj n w)" "proper (read_required_u64 obj n)"
  "proper (read_optional_finite_double obj n)"
  by (auto simp: read_required_string_def read_optional_string_def read_optional_bool_def
      read_required_bool_def read_optional_u64_def read_required_u64_def
      read_optional_finite_double_def intro!: proper_intros split: option.split json.split)

lemma proper_u32_readers [proper_intros]:
  "proper (read_optional_u32 obj n v)" "proper (read_required_u32 obj n)"
  by (auto simp: read_optional_u32_def read_required_u32_def intro!: proper_intros)

lemma proper_validators [proper_intros]:
  "proper (validate_non_empty_string s n)" "proper (validate_audio_format f n)"
  "proper (validate_synthesis_sampling o')" "proper (validate_error_message em)"
  by (auto simp: validate_non_empty_string_def validate_audio_format_def
      validate_synthesis_sampling_def validate_error_message_def Let_def intro!: proper_intros)

lemma proper_validated [proper_intros]: "proper (validated m)"
proof -
  have "proper (validate_control_message m)"
    by (cases "validate_control_message m") (auto simp: proper_def dest: validate_failure_code)
  then show ?thesis by (auto simp: validated_def intro!: proper_intros)
qed

lemma proper_compound_readers [proper_intros]:
  "proper (read_optional_string_array obj n ss)" "proper (read_audio_format obj)"
  "proper (reject_unknown_fields obj ns n)" "proper (read_generation_trace obj)"
  by (auto simp: read_optional_string_array_def read_audio_format_def reject_unknown_fields_def
      read_generation_trace_def Let_def intro!: proper_intros split: option.split json.split list.split)

lemma proper_nested_readers [proper_intros]:
  "proper (read_optional_audio_format obj n af)" "proper (read_required_audio_format obj n)"
  "proper (read_optional_synthesis_sampling obj n)" "proper (read_completed_message obj)"
  "proper (read_capabilities obj)"
  by (auto simp: read_optional_audio_format_def read_required_audio_format_def
      read_optional_synthesis_sampling_def read_completed_message_def read_capabilities_def Let_def
      intro!: proper_intros split: option.split)

lemma proper_message_readers [proper_intros]:
  "proper (read_hello obj)" "proper (read_synthesize obj)" "proper (read_sequence mk obj)"
  "proper (read_shutdown obj)" "proper (read_ready obj)" "proper (read_queued obj)"
  "proper (read_started obj)" "proper (read_completed obj)"
  by (auto simp: read_hello_def read_synthesize_def read_sequence_def read_shutdown_def read_ready_def
      read_queued_def read_started_def read_completed_def intro!: proper_intros)

lemma validated_Inr: "validated m = Inr m' \<longleftrightarrow> m' = m \<and> validate_control_message m = Inr ()"
  by (auto simp: validated_def and_then_Inr_conv)

lemma collect_strings_named: "collect_strings n js = Inr ss \<Longrightarrow> [] \<notin> set ss"
  by (induction n js arbitrary: ss rule: collect_strings.induct)
    (auto simp: and_then_Inr_conv wrong_field_def split: if_splits)

lemma read_optional_string_array_named:
  "read_optional_string_array obj n [] = Inr ss \<Longrightarrow> [] \<notin> set ss"
  by (auto simp: read_optional_string_array_def wrong_field_def dest: collect_strings_named
      split: option.splits json.splits)

definition accepted :: "ControlMessageType \<Rightarrow> ControlMessage \<Rightarrow> bool" where
  "accepted t m \<longleftrightarrow> control_message_type m = t \<and> validate_control_message m = Inr () \<and> voices_named m"

lemma read_accepted:
  "read_hello obj = Inr m \<Longrightarrow> accepted CMT_Hello m"
  "read_synthesize obj = Inr m \<Longrightarrow> accepted CMT_Synthesize m"
  "read_sequence PingM obj = Inr m \<Longrightarrow> accepted CMT_Ping m"
  "read_sequence PongM obj = Inr m \<Longrightarrow> accepted CMT_Pong m"
  "read_shutdown obj = Inr m \<Longrightarrow> accepted CMT_Shutdown m"
  "read_ready obj = Inr m \<Longrightarrow> accepted CMT_Ready m"
  "read_queued obj = Inr m \<Longrightarrow> accepted CMT_Queued m"
  "read_started obj = Inr m \<Longrightarrow> accepted CMT_Started m"
  "read_completed obj = Inr m \<Longrightarrow> accepted CMT_Completed m"
  unfolding read_hello_def read_synthesize_def read_sequence_def read_shutdown_def read_ready_def
      read_queued_def read_started_def read_completed_def accepted_def
  by (auto simp: and_then_Inr_conv validated_Inr split: if_splits
      dest!: read_optional_string_array_named simp del: validate_control_message.simps(1,2,4,5,6))

lemma control_outcome_ok:
  assumes "cd_error (control_outcome r) = CCE_None" and "proper r"
  shows "r = Inr (cd_message (control_outcome r))"
  using assms
  by (auto simp: control_outcome_def control_error_def make_control_message_def proper_def
      split: sum.splits)

lemma decode_known_sound:
  assumes ok: "cd_error (decode_known_control_message obj (type_name t)) = CCE_None"
  shows "accepted t (cd_message (decode_known_control_message obj (type_name t)))"
proof -
  define r where "r = (case t of
          CMT_Hello \<Rightarrow> read_hello obj
        | CMT_Synthesize \<Rightarrow> read_synthesize obj
        | CMT_Cancel \<Rightarrow> Inr CancelM
        | CMT_Ping \<Rightarrow> read_sequence PingM obj
        | CMT_Shutdown \<Rightarrow> read_shutdown obj
        | CMT_Ready \<Rightarrow> read_ready obj
        | CMT_Queued \<Rightarrow> read_queued obj
        | CMT_Started \<Rightarrow> read_started obj
        | CMT_Completed \<Rightarrow> read_completed obj
        | CMT_Cancelled \<Rightarrow> Inr CancelledM
        | CMT_Pong \<Rightarrow> read_sequence PongM obj
        | CMT_ShutdownAck \<Rightarrow> Inr ShutdownAckM)"
  have dec: "decode_known_control_message obj (type_name t) = control_outcome r"
    unfolding r_def by (rule decode_known_type_name)
  have "proper r" unfolding r_def by (cases t) (auto intro: proper_intros)
  then have "r = Inr (cd_message (control_outcome r))" using ok dec control_outcome_ok by metis
  moreover have "r = Inr m \<Longrightarrow> accepted t m" for m
    unfolding r_def
    by (cases t) (auto dest: read_accepted simp: accepted_def)
  ultimately show ?thesis unfolding dec by blast
qed

lemma known_type_name: "is_known_control_message s \<Longrightarrow> \<exists>t. s = type_name t"
proof -
  have "s \<in> range type_name" if "s = type_name t" for t using that by simp
  then show "is_known_control_message s \<Longrightarrow> ?thesis"
    unfolding is_known_control_message_def is_client_to_worker_message_def is_worker_to_client_message_def
    using type_name.simps by (elim disjE) metis+
qed

lemma decode_control_object_sound:
  assumes ok: "cd_error (decode_control_object obj d) = CCE_None"
  defines "m \<equiv> cd_message (decode_control_object obj d)"
  shows "message_direction m = d \<and> validate_control_message m = Inr () \<and> voices_named m"
proof -
  have err: "cd_error (control_error e x) = e" for e x by (simp add: control_error_def)
  obtain s where s: "is_known_control_message s" "direction_allows s d"
    and dec: "decode_control_object obj d = decode_known_control_message obj s"
    using ok by (auto simp: decode_control_object_def err split: if_splits option.splits json.splits)
  obtain t where t: "s = type_name t" using known_type_name [OF s(1)] by blast
  then have "accepted t m" using ok decode_known_sound [of obj t] unfolding m_def dec by simp
  moreover have "direction_allows (type_name (control_message_type m)) d"
    using s(2) t calculation by (simp add: accepted_def)
  then have "message_direction m = d" by (simp only: type_name_direction)
  ultimately show ?thesis by (simp add: accepted_def)
qed

section \<open>Payloads\<close>

lemma cd_error_simps [simp]: "cd_error (control_error e t) = e" "cd_error (make_control_message m) = CCE_None"
  by (simp_all add: control_error_def make_control_message_def default_control_result_def)

lemma exception_is_error: "fst (exception_failure x) \<noteq> CCE_None"
  by (cases x) simp_all

lemma bytes_to_string_to_bytes:
  "bytes_to_string (Some (string_to_bytes s)) (length (string_to_bytes s)) = s"
  by (simp add: bytes_to_string_def string_to_bytes_def comp_def)

lemma decode_control_payload_text:
  "decode_control_message json_parse (string_to_bytes s) d =
     (case json_parse s of
        Inl x \<Rightarrow> (let (e, t) = exception_failure x in control_error e t)
      | Inr value \<Rightarrow> decode_control_object value d)"
  by (simp add: decode_control_message_def decode_control_payload_def bytes_to_string_to_bytes)

lemma decode_error_payload_text:
  "decode_error_message json_parse (string_to_bytes s) =
     (case json_parse s of
        Inl x \<Rightarrow> (let (e, t) = exception_failure x in error_error e t)
      | Inr value \<Rightarrow> decode_error_object value)"
  by (simp add: decode_error_message_def decode_error_payload_def bytes_to_string_to_bytes)

lemma encode_control_message_ok:
  "validate_control_message m = Inr () \<Longrightarrow> json_dump (control_message_to_json m) = Inr s \<Longrightarrow>
     encode_control_message json_dump m =
       \<lparr>je_payload = string_to_bytes s, je_error = CCE_None, je_diagnostic = ''''\<rparr>"
  by (simp add: encode_control_message_def encode_json_payload_def)

lemma read_error_fields_encoded:
  "validate_error_message m = Inr () \<Longrightarrow> read_error_fields (error_message_to_json m) = Inr m"
  by (cases m) (simp add: read_error_fields_def error_message_to_json_def lookup_simps read_simps Let_def)

lemma decode_error_object_encoded:
  "validate_error_message m = Inr () \<Longrightarrow> decode_error_object (error_message_to_json m) =
     \<lparr>ed_message = m, ed_error = CCE_None, ed_diagnostic = ''''\<rparr>"
  using read_error_fields_encoded [of m]
  by (simp add: decode_error_object_def)
    (simp add: error_message_to_json_def has_forbidden_header_field_def lookup_simps error_outcome_def)

lemma collect_strings_unnamed:
  "[] \<in> set ss \<Longrightarrow> collect_strings n (map JString ss) =
     Inl (InvalidFieldType, ''field must contain non-empty strings: '' @ n)"
  by (induction ss) (auto simp: wrong_field_def)

lemma error_outcome_ok:
  assumes "ed_error (error_outcome r) = CCE_None" and "proper r"
  shows "r = Inr (ed_message (error_outcome r))"
  using assms by (auto simp: error_outcome_def error_error_def proper_def split: sum.splits)

lemma proper_read_error_fields: "proper (read_error_fields obj)"
  by (auto simp: read_error_fields_def Let_def intro!: proper_intros)

lemma decode_error_message_valid:
  assumes "ed_error (decode_error_message json_parse pl) = CCE_None"
  shows "validate_error_message (ed_message (decode_error_message json_parse pl)) = Inr ()"
proof -
  have err: "ed_error (error_error e x) = e" for e x by (simp add: error_error_def)
  obtain obj where obj: "decode_error_message json_parse pl = decode_error_object obj"
    using assms exception_is_error
    by (auto simp: decode_error_message_def decode_error_payload_def err split_beta Let_def
        split: sum.splits)
  have "decode_error_object obj = error_outcome (read_error_fields obj)"
    using assms unfolding obj decode_error_object_def
    by (simp add: err split: if_split_asm option.split_asm json.split_asm)
  then have dec: "decode_error_message json_parse pl = error_outcome (read_error_fields obj)"
    by (simp only: obj)
  obtain m where m: "read_error_fields obj = Inr m"
    using error_outcome_ok [OF _ proper_read_error_fields, of obj] assms unfolding dec by blast
  then have "validate_error_message m = Inr ()"
    by (auto simp: read_error_fields_def and_then_Inr_conv Let_def)
  then show ?thesis unfolding dec m by (simp add: error_outcome_def)
qed

lemma decode_control_message_sound_lemma:
  assumes "cd_error (decode_control_message json_parse pl d) = CCE_None"
  defines "m \<equiv> cd_message (decode_control_message json_parse pl d)"
  shows "message_direction m = d \<and> validate_control_message m = Inr () \<and> voices_named m"
proof -
  obtain obj where "decode_control_message json_parse pl d = decode_control_object obj d"
    using assms(1) exception_is_error
    by (auto simp: decode_control_message_def decode_control_payload_def split_beta Let_def
        split: sum.splits)
  then show ?thesis using assms(1) decode_control_object_sound [of obj d] unfolding m_def by simp
qed

section \<open>Properties of the control codec\<close>


definition sample_ping :: ControlMessage where
  "sample_ping = PingM \<lparr>has_sequence = True, sequence = 7\<rparr>"

definition sample_dump :: json_dump where
  "sample_dump j = (if j = control_message_to_json sample_ping
     then Inr ''{\"message_type\":\"ping\",\"sequence\":7}'' else Inl None)"

definition sample_parse :: json_parse where
  "sample_parse s = (if s = ''{\"message_type\":\"ping\",\"sequence\":7}''
     then Inr (control_message_to_json sample_ping) else Inl (ParseException ''syntax error''))"


text \<open>C23. Whatever bytes arrive and whatever the JSON parser makes of them, a control message that
  the decoder reports as valid belongs to the direction it was decoded for and satisfies every
  rule of the validator; a ready message never lists an empty voice identifier.\<close>

theorem decode_control_message_sound:
  assumes "cd_error (decode_control_message json_parse pl d) = CCE_None"
  shows "message_direction (cd_message (decode_control_message json_parse pl d)) = d \<and>
     validate_control_message (cd_message (decode_control_message json_parse pl d)) = Inr () \<and>
     voices_named (cd_message (decode_control_message json_parse pl d))"
  by (rule decode_control_message_sound_lemma [OF assms])

theorem decode_control_message_sound_witness:
  "message_direction (cd_message (decode_control_message sample_parse
     (string_to_bytes ''{\"message_type\":\"ping\",\"sequence\":7}'') ClientToWorker)) = ClientToWorker"
  using decode_control_message_sound [of sample_parse
      "string_to_bytes ''{\"message_type\":\"ping\",\"sequence\":7}''" ClientToWorker]
    decode_known_encoded [of sample_ping]
  by (simp add: decode_control_payload_text sample_parse_def decode_control_object_encoded)
    (simp add: sample_ping_def)

text \<open>A well-formed message that arrives on the wrong side is refused with
  \<open>InvalidMessageDirection\<close>: a worker never accepts a worker event and a client never accepts a
  client command.\<close>

theorem control_message_wrong_direction:
  assumes "json_dump (control_message_to_json m) = Inr s"
    and "json_parse s = Inr (control_message_to_json m)" and "d \<noteq> message_direction m"
    and "validate_control_message m = Inr ()"
  shows "decode_control_message json_parse (je_payload (encode_control_message json_dump m)) d =
     control_error InvalidMessageDirection
       (''message_type is not valid for this direction: '' @ type_name (control_message_type m))"
  using assms
  by (simp add: encode_control_message_ok decode_control_payload_text decode_control_object_encoded)

theorem control_message_wrong_direction_witness:
  "decode_control_message sample_parse (je_payload (encode_control_message sample_dump sample_ping))
     WorkerToClient =
   control_error InvalidMessageDirection ''message_type is not valid for this direction: ping''"
  using control_message_wrong_direction [of sample_dump sample_ping
      "''{\"message_type\":\"ping\",\"sequence\":7}''" sample_parse WorkerToClient]
  by (simp add: sample_dump_def sample_parse_def) (simp add: sample_ping_def)

text \<open>Error payloads round-trip: a worker error with non-empty category, code and message is
  decoded to itself.\<close>

theorem error_message_roundtrip:
  assumes "validate_error_message m = Inr ()"
    and "json_dump (error_message_to_json m) = Inr s"
    and "json_parse s = Inr (error_message_to_json m)"
  shows "decode_error_message json_parse (je_payload (encode_error_message json_dump m)) =
     \<lparr>ed_message = m, ed_error = CCE_None, ed_diagnostic = ''''\<rparr>"
  using assms
  by (simp add: encode_error_message_def encode_json_payload_def decode_error_payload_text
      decode_error_object_encoded)

definition sample_error :: ErrorMessage where
  "sample_error = \<lparr>category = ''runtime'', code = ''oom'', err_message = ''out of memory''\<rparr>"

theorem error_message_roundtrip_witness:
  "decode_error_message (\<lambda>s. if s = ''{}'' then Inr (error_message_to_json sample_error) else Inl OtherException)
     (je_payload (encode_error_message (\<lambda>j. Inr ''{}'') sample_error)) =
   \<lparr>ed_message = sample_error, ed_error = CCE_None, ed_diagnostic = ''''\<rparr>"
  using error_message_roundtrip [of sample_error "\<lambda>j. Inr ''{}''" "''{}''"
      "\<lambda>s. if s = ''{}'' then Inr (error_message_to_json sample_error) else Inl OtherException"]
  by (simp add: sample_error_def validate_error_message_def validate_non_empty_string_def)

text \<open>The validator does not look at the voice identifiers of a ready message: one that lists an
  empty identifier passes validation and is encoded, and the receiving side refuses what it was
  sent.\<close>

theorem ready_with_unnamed_voice_rejected:
  assumes "validate_control_message (ReadyM m) = Inr ()" and "[] \<in> set (voice_ids m)"
    and "json_dump (control_message_to_json (ReadyM m)) = Inr s"
    and "json_parse s = Inr (control_message_to_json (ReadyM m))"
  shows "je_error (encode_control_message json_dump (ReadyM m)) = CCE_None \<and>
     decode_control_message json_parse (je_payload (encode_control_message json_dump (ReadyM m)))
       WorkerToClient =
     control_error InvalidFieldType ''field must contain non-empty strings: voice_ids''"
proof -
  let ?j = "control_message_to_json (ReadyM m)"
  have "read_optional_bool ?j ''warmed_up'' False = Inr (has_warmed_up m \<and> warmed_up m, has_warmed_up m)"
    by (cases "has_warmed_up m") (simp_all add: lookup_simps read_simps)
  moreover have "read_required_string ?j ''worker_version'' = Inr (worker_version m)"
    "read_required_string ?j ''session_id'' = Inr (session_id m)"
    by (simp_all add: lookup_simps read_simps)
  moreover have "read_optional_string_array ?j ''voice_ids'' [] =
      Inl (InvalidFieldType, ''field must contain non-empty strings: voice_ids'')"
    using assms(2) collect_strings_unnamed [OF assms(2), of "''voice_ids''"]
    by (auto simp: read_optional_string_array_def lookup_simps)
  ultimately have "read_ready ?j =
      Inl (InvalidFieldType, ''field must contain non-empty strings: voice_ids'')"
    by (simp only: read_ready_def and_then_Inr and_then_Inl split)
  then have "decode_known_control_message ?j (type_name CMT_Ready) =
      control_error InvalidFieldType ''field must contain non-empty strings: voice_ids''"
    by (simp only: decode_known_type_name ControlMessageType.case control_outcome_def sum.case split)
  then show ?thesis
    using assms(1,3,4) decode_control_object_encoded [of "ReadyM m" WorkerToClient]
    by (simp add: encode_control_message_ok decode_control_payload_text
        del: control_message_to_json.simps validate_control_message.simps)
qed

definition sample_ready :: ReadyMessage where
  "sample_ready = default_ready\<lparr>worker_version := ''1'', session_id := ''s'', voice_ids := ['''']\<rparr>"

theorem ready_with_unnamed_voice_rejected_witness:
  "je_error (encode_control_message (\<lambda>j. Inr ''{}'') (ReadyM sample_ready)) = CCE_None"
  using ready_with_unnamed_voice_rejected [of sample_ready "\<lambda>j. Inr ''{}''" "''{}''"
      "\<lambda>s. Inr (control_message_to_json (ReadyM sample_ready))"]
  by (simp add: sample_ready_def default_ready_def validate_non_empty_string_def)

end
