(* ===== verification/Worker_Session.thy ===== *)
theory Worker_Session
  imports Frame_Stream Control_Roundtrip
begin

text \<open>
  \<open>src/qwen_tts_bridge/session/worker_session.cpp\<close>: the session that owns a transport and turns the
  worker's bytes into a bounded queue of events. Every section of the code that holds the mutex is
  one atomic step on the session record. Calls on the transport are recorded in \<open>ws_transport_log\<close>;
  what the transport answers, and the steps other threads take between two critical sections of a
  public operation, are the arguments of that operation.
\<close>

section \<open>Data\<close>

datatype SendResult = Accepted | WouldBlock | Closed | SendFailed

datatype WorkerSessionEventType =
  Ev_Control | Ev_Audio | Ev_WorkerError | Ev_TransportError | Ev_ProtocolError | Ev_SessionError | Ev_Exited

datatype WorkerSessionState = WS_Stopped | WS_Starting | WS_Ready | WS_Stopping | WS_Failed | WS_Exited

record WorkerSessionOptions =
  opt_client_name :: string
  opt_client_version :: string
  max_event_queue_events :: nat
  max_event_queue_bytes :: nat

record WorkerSessionEvent =
  ev_type :: WorkerSessionEventType
  ev_request_id :: RequestId
  ev_control :: ControlMessage
  ev_error :: ErrorMessage
  ev_audio :: "byte list"
  ev_exit_status :: int
  ev_message :: string

datatype TransportCall = TransportStart | TransportSend "byte list" | TransportStop

record WorkerSession =
  ws_has_transport :: bool
  ws_options :: WorkerSessionOptions
  ws_parser :: FrameParser
  ws_events :: "WorkerSessionEvent list"
  ws_queued_bytes :: nat
  ws_state :: WorkerSessionState
  ws_overflowed :: bool
  ws_start_attempted :: bool
  ws_shutdown_requested :: bool
  ws_ready_message :: ReadyMessage
  ws_transport_log :: "TransportCall list"

definition default_event :: WorkerSessionEvent where
  "default_event = \<lparr>ev_type = Ev_SessionError, ev_request_id = 0, ev_control = HelloM default_hello,
     ev_error = default_error_message, ev_audio = [], ev_exit_status = 0, ev_message = ''''\<rparr>"

definition new_session :: "bool \<Rightarrow> WorkerSessionOptions \<Rightarrow> WorkerSession" where
  "new_session has_transport options =
     \<lparr>ws_has_transport = has_transport, ws_options = options, ws_parser = new_parser, ws_events = [],
      ws_queued_bytes = 0, ws_state = WS_Stopped, ws_overflowed = False, ws_start_attempted = False,
      ws_shutdown_requested = False, ws_ready_message = default_ready, ws_transport_log = []\<rparr>"

definition log_call :: "TransportCall \<Rightarrow> WorkerSession \<Rightarrow> WorkerSession" where
  "log_call c s = s\<lparr>ws_transport_log := ws_transport_log s @ [c]\<rparr>"

section \<open>Event construction and classification\<close>

definition make_session_error :: "string \<Rightarrow> WorkerSessionEvent" where
  "make_session_error m = default_event\<lparr>ev_type := Ev_SessionError, ev_message := m\<rparr>"

definition make_protocol_error :: "string \<Rightarrow> WorkerSessionEvent" where
  "make_protocol_error m = default_event\<lparr>ev_type := Ev_ProtocolError, ev_message := m\<rparr>"

definition make_transport_error :: "string \<Rightarrow> WorkerSessionEvent" where
  "make_transport_error m = default_event\<lparr>ev_type := Ev_TransportError, ev_message := m\<rparr>"

definition is_client_to_worker_control :: "ControlMessageType \<Rightarrow> bool" where
  "is_client_to_worker_control t \<longleftrightarrow>
     t = CMT_Hello \<or> t = CMT_Synthesize \<or> t = CMT_Cancel \<or> t = CMT_Ping \<or> t = CMT_Shutdown"

definition is_session_level_worker_control :: "ControlMessageType \<Rightarrow> bool" where
  "is_session_level_worker_control t \<longleftrightarrow> t = CMT_Ready \<or> t = CMT_Pong \<or> t = CMT_ShutdownAck"

definition is_request_level_worker_control :: "ControlMessageType \<Rightarrow> bool" where
  "is_request_level_worker_control t \<longleftrightarrow>
     t = CMT_Queued \<or> t = CMT_Started \<or> t = CMT_Completed \<or> t = CMT_Cancelled"

fun send_result_message :: "SendResult \<Rightarrow> string" where
  "send_result_message WouldBlock = ''transport would block while sending control frame''"
| "send_result_message Closed = ''transport is closed while sending control frame''"
| "send_result_message SendFailed = ''transport failed to send control frame''"
| "send_result_message Accepted = ''transport rejected outbound control frame''"

section \<open>The event queue\<close>

fun control_payload_size :: "ControlMessage \<Rightarrow> nat" where
  "control_payload_size (HelloM m) = length (client_name m) + length (client_version m)"
| "control_payload_size (SynthesizeM m) =
     length (sy_text m) + length (sy_language m) + length (sy_speaker m) + length (sy_instruction m) +
     length (sy_voice_id m) + length (sy_reference_audio_path m) + length (sy_reference_text m) +
     length (sample_format (sy_output m)) + (if sy_has_seed m then 32 else 0)"
| "control_payload_size (ShutdownM m) = length (mode m)"
| "control_payload_size (ReadyM m) = length (worker_version m) + length (session_id m)"
| "control_payload_size (StartedM m) = length (sample_format (started_format m))"
| "control_payload_size m = 0"

definition event_payload_size :: "WorkerSessionEvent \<Rightarrow> nat" where
  "event_payload_size ev =
     length (ev_audio ev) + control_payload_size (ev_control ev) + length (ev_message ev) +
     length (category (ev_error ev)) + length (code (ev_error ev)) + length (err_message (ev_error ev))"

definition push_event :: "WorkerSessionEvent \<Rightarrow> WorkerSession \<Rightarrow> WorkerSession" where
  "push_event ev s =
     s\<lparr>ws_queued_bytes := ws_queued_bytes s + event_payload_size ev, ws_events := ws_events s @ [ev]\<rparr>"

text \<open>The critical section of \<open>wait_for_event\<close> when the queue is not empty.\<close>

definition pop_event :: "WorkerSession \<Rightarrow> (WorkerSessionEvent \<times> WorkerSession) option" where
  "pop_event s =
     (case ws_events s of
        [] \<Rightarrow> None
      | ev # evs \<Rightarrow>
          Some (ev, s\<lparr>ws_queued_bytes := saturating_sub (ws_queued_bytes s) (event_payload_size ev),
                      ws_events := evs\<rparr>))"

definition live_state :: "WorkerSession \<Rightarrow> bool" where
  "live_state s \<longleftrightarrow> ws_state s = WS_Starting \<or> ws_state s = WS_Ready"

definition fail_if_live :: "WorkerSession \<Rightarrow> WorkerSession" where
  "fail_if_live s = (if live_state s then s\<lparr>ws_state := WS_Failed\<rparr> else s)"

text \<open>The returned flag asks the caller to stop the transport. The sum of the sizes of the objects in
  memory cannot exceed the address space, so the counter is a natural number.\<close>

definition enqueue_event_locked ::
  "WorkerSessionEvent \<Rightarrow> bool \<Rightarrow> WorkerSession \<Rightarrow> bool \<times> WorkerSession" where
  "enqueue_event_locked ev exempt s =
     (let payload_size = event_payload_size ev;
          event_count_full = length (ws_events s) \<ge> max_event_queue_events (ws_options s);
          byte_count_full = payload_size > max_event_queue_bytes (ws_options s) \<or>
            ws_queued_bytes s > max_event_queue_bytes (ws_options s) - payload_size
      in
      if \<not> exempt \<and> \<not> ws_overflowed s \<and> (event_count_full \<or> byte_count_full) then
        (True, push_event (make_session_error ''worker session event queue overflow'')
                 (fail_if_live (s\<lparr>ws_overflowed := True\<rparr>)))
      else if ws_overflowed s \<and> \<not> exempt then (True, s)
      else (False, push_event ev s))"

definition fail_with_event_locked ::
  "WorkerSessionEvent \<Rightarrow> bool \<Rightarrow> WorkerSession \<Rightarrow> bool \<times> WorkerSession" where
  "fail_with_event_locked ev exempt s = enqueue_event_locked ev exempt (fail_if_live s)"

section \<open>Inbound frames\<close>

definition is_ready_message_allowed_locked :: "RequestId \<Rightarrow> WorkerSession \<Rightarrow> bool" where
  "is_ready_message_allowed_locked rid s \<longleftrightarrow> ws_state s = WS_Starting \<and> rid = 0"

definition is_control_message_allowed_locked ::
  "RequestId \<Rightarrow> ControlMessageType \<Rightarrow> WorkerSession \<Rightarrow> bool" where
  "is_control_message_allowed_locked rid t s =
     (if t = CMT_Ready then is_ready_message_allowed_locked rid s
      else if ws_state s \<noteq> WS_Ready then False
      else if t = CMT_ShutdownAck then rid = 0 \<and> ws_shutdown_requested s
      else if is_session_level_worker_control t then rid = 0
      else if is_request_level_worker_control t then rid \<noteq> 0
      else False)"

definition handle_control_frame_locked ::
  "json_parse \<Rightarrow> Frame \<Rightarrow> WorkerSession \<Rightarrow> bool \<times> WorkerSession" where
  "handle_control_frame_locked json_parse fr s =
     (let decoded = decode_control_message json_parse (payload fr) WorkerToClient in
      if cd_error decoded \<noteq> CCE_None then
        fail_with_event_locked (make_protocol_error (cd_diagnostic decoded)) True s
      else if \<not> is_control_message_allowed_locked (request_id (header fr))
                 (control_message_type (cd_message decoded)) s then
        fail_with_event_locked
          (make_protocol_error ''control message is invalid in the current session state'') True s
      else
        (let ev = default_event\<lparr>ev_type := Ev_Control, ev_request_id := request_id (header fr),
                    ev_control := cd_message decoded\<rparr>
         in
         case cd_message decoded of
           ReadyM m \<Rightarrow>
             (let (should_stop, s') = enqueue_event_locked ev False s in
              if should_stop then (True, s')
              else (False, s'\<lparr>ws_ready_message := m, ws_state := WS_Ready\<rparr>))
         | _ \<Rightarrow> enqueue_event_locked ev False s))"

definition handle_audio_frame_locked :: "Frame \<Rightarrow> WorkerSession \<Rightarrow> bool \<times> WorkerSession" where
  "handle_audio_frame_locked fr s =
     (if ws_state s \<noteq> WS_Ready \<or> request_id (header fr) = 0 then
        fail_with_event_locked
          (make_protocol_error ''audio frame is invalid in the current session state'') True s
      else
        enqueue_event_locked (default_event\<lparr>ev_type := Ev_Audio,
          ev_request_id := request_id (header fr), ev_audio := payload fr\<rparr>) False s)"

definition handle_error_frame_locked ::
  "json_parse \<Rightarrow> Frame \<Rightarrow> WorkerSession \<Rightarrow> bool \<times> WorkerSession" where
  "handle_error_frame_locked json_parse fr s =
     (let decoded = decode_error_message json_parse (payload fr) in
      if ed_error decoded \<noteq> CCE_None then
        fail_with_event_locked (make_protocol_error (ed_diagnostic decoded)) True s
      else
        (let ev = default_event\<lparr>ev_type := Ev_WorkerError, ev_request_id := request_id (header fr),
                    ev_error := ed_message decoded\<rparr>
         in if ws_state s = WS_Starting then fail_with_event_locked ev True s
            else enqueue_event_locked ev False s))"

definition handle_frame_locked ::
  "json_parse \<Rightarrow> Frame \<Rightarrow> WorkerSession \<Rightarrow> bool \<times> WorkerSession" where
  "handle_frame_locked json_parse fr s =
     (if frame_type (header fr) = ControlJson then handle_control_frame_locked json_parse fr s
      else if frame_type (header fr) = AudioPcm then handle_audio_frame_locked fr s
      else if frame_type (header fr) = ErrorJson then handle_error_frame_locked json_parse fr s
      else fail_with_event_locked (make_protocol_error ''unknown frame type'') True s)"

text \<open>Every frame has one of three effects: the session records an error event and leaves its live
  states, a payload event goes through the bounded queue, or the handshake completes.\<close>

definition payload_event :: "WorkerSessionEvent \<Rightarrow> bool" where
  "payload_event ev \<longleftrightarrow> ev_type ev = Ev_Control \<or> ev_type ev = Ev_Audio"

fun event_wf :: "WorkerSessionEvent \<Rightarrow> bool" where
  "event_wf ev =
     (case ev_type ev of
        Ev_Control \<Rightarrow>
          message_direction (ev_control ev) = WorkerToClient \<and>
          validate_control_message (ev_control ev) = Inr () \<and>
          (is_request_level_worker_control (control_message_type (ev_control ev)) \<longleftrightarrow> ev_request_id ev \<noteq> 0)
      | Ev_Audio \<Rightarrow> ev_request_id ev \<noteq> 0
      | Ev_WorkerError \<Rightarrow> validate_error_message (ev_error ev) = Inr ()
      | _ \<Rightarrow> ev_request_id ev = 0)"

declare event_wf.simps [simp del]

lemma event_wf_errors [simp]:
  "event_wf (make_protocol_error m)" "event_wf (make_session_error m)" "event_wf (make_transport_error m)"
  "event_wf (default_event\<lparr>ev_type := Ev_Exited, ev_exit_status := st\<rparr>)"
  "\<not> payload_event (make_protocol_error m)" "\<not> payload_event (make_session_error m)"
  "\<not> payload_event (make_transport_error m)"
  "\<not> payload_event (default_event\<lparr>ev_type := Ev_Exited, ev_exit_status := st\<rparr>)"
  by (simp_all add: event_wf.simps payload_event_def make_protocol_error_def make_session_error_def
      make_transport_error_def default_event_def)

lemma allowed_request_level:
  "is_control_message_allowed_locked rid t s \<Longrightarrow> is_request_level_worker_control t \<longleftrightarrow> rid \<noteq> 0"
  by (auto simp: is_control_message_allowed_locked_def is_ready_message_allowed_locked_def
      is_session_level_worker_control_def is_request_level_worker_control_def split: if_splits)

lemma handle_control_refused:
  fixes s :: WorkerSession and fr :: Frame and jp :: json_parse
  defines "dec \<equiv> decode_control_message jp (payload fr) WorkerToClient"
  assumes "cd_error dec \<noteq> CCE_None \<or>
     \<not> is_control_message_allowed_locked (request_id (header fr)) (control_message_type (cd_message dec)) s"
  shows "\<exists>m. handle_control_frame_locked jp fr s = fail_with_event_locked (make_protocol_error m) True s"
  using assms(2) by (cases "cd_error dec = CCE_None") (auto simp: handle_control_frame_locked_def dec_def)

lemma handle_control_allowed:
  fixes s :: WorkerSession and fr :: Frame and jp :: json_parse
  defines "dec \<equiv> decode_control_message jp (payload fr) WorkerToClient"
  assumes "cd_error dec = CCE_None"
    and "is_control_message_allowed_locked (request_id (header fr)) (control_message_type (cd_message dec)) s"
  shows "handle_control_frame_locked jp fr s =
     (let ev = default_event\<lparr>ev_type := Ev_Control, ev_request_id := request_id (header fr),
                 ev_control := cd_message dec\<rparr>;
          (should_stop, s') = enqueue_event_locked ev False s
      in case cd_message dec of
           ReadyM m \<Rightarrow>
             if should_stop then (True, s') else (False, s'\<lparr>ws_ready_message := m, ws_state := WS_Ready\<rparr>)
         | _ \<Rightarrow> (should_stop, s'))"
  using assms(2,3)
  by (simp add: handle_control_frame_locked_def Let_def split_beta flip: dec_def split: ControlMessage.split)

lemma handle_control_frame_cases:
  obtains
    (failed) m where "handle_control_frame_locked jp fr s = fail_with_event_locked (make_protocol_error m) True s"
  | (queued) ev where "handle_control_frame_locked jp fr s = enqueue_event_locked ev False s" and "event_wf ev"
      and "ws_state s = WS_Ready \<or> fst (enqueue_event_locked ev False s)"
  | (handshake) ev m where "handle_control_frame_locked jp fr s =
        (False, (snd (enqueue_event_locked ev False s))\<lparr>ws_ready_message := m, ws_state := WS_Ready\<rparr>)"
      and "\<not> fst (enqueue_event_locked ev False s)" and "event_wf ev" and "ws_state s = WS_Starting"
      and "validate_control_message (ReadyM m) = Inr ()" and "ev_control ev = ReadyM m"
proof -
  define dec where "dec = decode_control_message jp (payload fr) WorkerToClient"
  let ?allowed = "is_control_message_allowed_locked (request_id (header fr)) (control_message_type (cd_message dec)) s"
  show thesis
  proof (cases "cd_error dec = CCE_None \<and> ?allowed")
    case False
    then show thesis using handle_control_refused [of jp fr s] failed unfolding dec_def by blast
  next
    case True
    define ev where "ev = default_event\<lparr>ev_type := Ev_Control, ev_request_id := request_id (header fr),
        ev_control := cd_message dec\<rparr>"
    obtain b s' where enq: "enqueue_event_locked ev False s = (b, s')" by fastforce
    have sound: "message_direction (cd_message dec) = WorkerToClient"
      "validate_control_message (cd_message dec) = Inr ()"
      using decode_control_message_sound_lemma [of jp "payload fr" WorkerToClient] True
      by (simp_all add: dec_def)
    then have wf: "event_wf ev"
      using True allowed_request_level [of _ "control_message_type (cd_message dec)" s]
      by (simp add: ev_def event_wf.simps)
    have eq: "handle_control_frame_locked jp fr s =
        (case cd_message dec of
           ReadyM m \<Rightarrow> if b then (True, s') else (False, s'\<lparr>ws_ready_message := m, ws_state := WS_Ready\<rparr>)
         | _ \<Rightarrow> (b, s'))"
      using handle_control_allowed [of jp fr s] True enq by (simp add: Let_def flip: dec_def ev_def)
    show thesis
    proof (cases "control_message_type (cd_message dec) = CMT_Ready")
      case ready: True
      then obtain m where m: "cd_message dec = ReadyM m" by (cases "cd_message dec") simp_all
      have "ws_state s = WS_Starting"
        using True m by (simp add: is_control_message_allowed_locked_def is_ready_message_allowed_locked_def)
      then show thesis
        using queued [of ev] handshake [of m ev] eq enq m wf sound by (cases b) (simp_all add: ev_def)
    next
      case other: False
      then have "handle_control_frame_locked jp fr s = enqueue_event_locked ev False s"
        using eq enq by (simp split: ControlMessage.split_asm)
      moreover have "ws_state s = WS_Ready"
        using True other by (auto simp: is_control_message_allowed_locked_def split: if_splits)
      ultimately show thesis using queued wf by blast
    qed
  qed
qed

lemma handle_frame_locked_cases:
  obtains
    (failed) ev where "handle_frame_locked jp fr s = fail_with_event_locked ev True s"
      and "event_wf ev" and "\<not> payload_event ev"
  | (queued) ev where "handle_frame_locked jp fr s = enqueue_event_locked ev False s" and "event_wf ev"
      and "payload_event ev \<longrightarrow> ws_state s = WS_Ready \<or> fst (enqueue_event_locked ev False s)"
  | (handshake) ev m where "handle_frame_locked jp fr s =
        (False, (snd (enqueue_event_locked ev False s))\<lparr>ws_ready_message := m, ws_state := WS_Ready\<rparr>)"
      and "\<not> fst (enqueue_event_locked ev False s)" and "event_wf ev" and "ws_state s = WS_Starting"
      and "validate_control_message (ReadyM m) = Inr ()" and "ev_control ev = ReadyM m"
proof -
  consider (control) "frame_type (header fr) = ControlJson" | (audio) "frame_type (header fr) = AudioPcm"
    | (error) "frame_type (header fr) = ErrorJson"
    | (other) "handle_frame_locked jp fr s =
        fail_with_event_locked (make_protocol_error ''unknown frame type'') True s"
    by (cases "frame_type (header fr)") (simp_all add: handle_frame_locked_def)
  then show thesis
  proof cases
    case control
    then have "handle_frame_locked jp fr s = handle_control_frame_locked jp fr s"
      by (simp add: handle_frame_locked_def)
    then show thesis
      using failed queued handshake by (cases rule: handle_control_frame_cases [of jp fr s]) simp_all
  next
    case audio
    then have hf: "handle_frame_locked jp fr s = handle_audio_frame_locked fr s"
      by (simp add: handle_frame_locked_def)
    show thesis
    proof (cases "ws_state s \<noteq> WS_Ready \<or> request_id (header fr) = 0")
      case True
      then show thesis using hf failed by (simp add: handle_audio_frame_locked_def)
    next
      case False
      let ?ev = "default_event\<lparr>ev_type := Ev_Audio, ev_request_id := request_id (header fr),
          ev_audio := payload fr\<rparr>"
      have "event_wf ?ev" using False by (simp add: event_wf.simps)
      then show thesis using False hf queued [of ?ev] by (simp add: handle_audio_frame_locked_def)
    qed
  next
    case error
    then have hf: "handle_frame_locked jp fr s = handle_error_frame_locked jp fr s"
      by (simp add: handle_frame_locked_def)
    define ev where "ev = default_event\<lparr>ev_type := Ev_WorkerError, ev_request_id := request_id (header fr),
        ev_error := ed_message (decode_error_message jp (payload fr))\<rparr>"
    show thesis
    proof (cases "ed_error (decode_error_message jp (payload fr)) = CCE_None")
      case False
      then show thesis using hf failed by (simp add: handle_error_frame_locked_def Let_def)
    next
      case True
      then have "event_wf ev"
        using decode_error_message_valid by (simp add: ev_def event_wf.simps)
      moreover have "\<not> payload_event ev" by (simp add: ev_def payload_event_def)
      moreover have "handle_frame_locked jp fr s =
          (if ws_state s = WS_Starting then fail_with_event_locked ev True s
           else enqueue_event_locked ev False s)"
        using hf True by (simp add: handle_error_frame_locked_def Let_def ev_def)
      ultimately show thesis using failed [of ev] queued [of ev] by (simp split: if_splits)
    qed
  next
    case other
    then show thesis using failed by simp
  qed
qed

text \<open>What the frame handlers leave alone.\<close>

definition untouched :: "WorkerSession \<Rightarrow> WorkerSession \<Rightarrow> bool" where
  "untouched s s' \<longleftrightarrow> ws_parser s' = ws_parser s \<and> ws_options s' = ws_options s \<and>
     ws_has_transport s' = ws_has_transport s \<and> ws_start_attempted s' = ws_start_attempted s \<and>
     ws_shutdown_requested s' = ws_shutdown_requested s \<and> ws_transport_log s' = ws_transport_log s"

lemma untouched_enqueue [simp]: "untouched s (snd (enqueue_event_locked ev x s))"
  by (simp add: enqueue_event_locked_def untouched_def push_event_def fail_if_live_def Let_def)

lemma untouched_fail [simp]: "untouched s (snd (fail_with_event_locked ev x s))"
  using untouched_enqueue [of "fail_if_live s" ev x]
  by (simp add: fail_with_event_locked_def untouched_def fail_if_live_def split: if_splits)

lemma untouched_handle_frame [simp]: "untouched s (snd (handle_frame_locked jp fr s))"
proof (cases rule: handle_frame_locked_cases [of jp fr s])
  case (handshake ev m)
  then show ?thesis using untouched_enqueue [of s ev False] by (simp add: untouched_def)
qed simp_all

text \<open>The parsing loop of \<open>handle_bytes\<close>. It ends because every frame delivered shortens what the
  parser holds.\<close>

function handle_parsed :: "json_parse \<Rightarrow> WorkerSession \<Rightarrow> bool \<times> WorkerSession" where
  "handle_parsed json_parse s =
     (let r = fst (parse_next (ws_parser s)); s1 = s\<lparr>ws_parser := snd (parse_next (ws_parser s))\<rparr> in
      case status r of
        NeedMoreData \<Rightarrow> (False, s1)
      | FatalError \<Rightarrow> (True, snd (fail_with_event_locked (make_protocol_error (pr_message r)) True s1))
      | FrameReady \<Rightarrow>
          (let out = handle_frame_locked json_parse (frame r) s1 in
           if fst out then (True, snd out) else handle_parsed json_parse (snd out)))"
  by auto
termination
proof (relation "measure (\<lambda>(jp, s). length (unread (ws_parser s)))")
  fix jp and s s1 :: WorkerSession and r out
  assume r: "r = fst (parse_next (ws_parser s))" and "status r = FrameReady"
    and s1: "s1 = s\<lparr>ws_parser := snd (parse_next (ws_parser s))\<rparr>"
    and out: "out = handle_frame_locked jp (frame r) s1"
  moreover have "untouched s1 (snd out)" unfolding out by simp
  ultimately show "((jp, snd out), jp, s) \<in> measure (\<lambda>(jp, s). length (unread (ws_parser s)))"
    using parse_next_progress [of "ws_parser s"] by (simp add: untouched_def)
qed simp

declare handle_parsed.simps [simp del]

definition handle_bytes :: "json_parse \<Rightarrow> byte list \<Rightarrow> WorkerSession \<Rightarrow> WorkerSession" where
  "handle_bytes json_parse bytes s =
     (let (stop_transport, s') =
            handle_parsed json_parse (s\<lparr>ws_parser := parser_append bytes (ws_parser s)\<rparr>)
      in if stop_transport \<and> ws_has_transport s' then log_call TransportStop s' else s')"

definition handle_transport_error :: "string \<Rightarrow> WorkerSession \<Rightarrow> WorkerSession" where
  "handle_transport_error m s =
     (if live_state s then snd (fail_with_event_locked (make_transport_error m) True s)
      else snd (enqueue_event_locked (make_transport_error m) True s))"

definition handle_exit :: "int \<Rightarrow> WorkerSession \<Rightarrow> WorkerSession" where
  "handle_exit st s =
     (snd (enqueue_event_locked (default_event\<lparr>ev_type := Ev_Exited, ev_exit_status := st\<rparr>) True s))
       \<lparr>ws_state := WS_Exited\<rparr>"

section \<open>The event queue is accounted for\<close>

interpretation event_queue: accounted_queue ws_events ws_queued_bytes event_payload_size push_event pop_event
  by unfold_locales (auto simp: push_event_def pop_event_def saturating_sub_eq)

text \<open>The invariant of a session: the parser's offset is inside its buffer, the byte counter is the
  sum over the queue, every queued event is well formed, the payload events stay within both
  bounds, and a session in an active state has been started.\<close>

definition payload_events :: "WorkerSession \<Rightarrow> WorkerSessionEvent list" where
  "payload_events s = filter payload_event (ws_events s)"

definition queue_bounded :: "WorkerSession \<Rightarrow> bool" where
  "queue_bounded s \<longleftrightarrow>
     length (payload_events s) \<le> max_event_queue_events (ws_options s) \<and>
     sum_list (map event_payload_size (payload_events s)) \<le> max_event_queue_bytes (ws_options s)"

definition session_inv :: "WorkerSession \<Rightarrow> bool" where
  "session_inv s \<longleftrightarrow>
     parser_inv (ws_parser s) \<and> event_queue.accounted s \<and> (\<forall>ev\<in>set (ws_events s). event_wf ev) \<and>
     queue_bounded s \<and>
     (ws_state s \<in> {WS_Starting, WS_Ready, WS_Failed, WS_Stopping} \<longrightarrow> ws_start_attempted s)"

lemma sum_list_filter_le: "sum_list (map f (filter P xs)) \<le> (sum_list (map f xs) :: nat)"
  by (induction xs) auto

lemma session_inv_push_plain:
  assumes "session_inv s" and "event_wf ev" and "\<not> payload_event ev"
  shows "session_inv (push_event ev s)"
  using assms event_queue.accounted_push [of s ev]
  by (auto simp: session_inv_def queue_bounded_def payload_events_def push_event_def)

lemma session_inv_push_bounded:
  assumes inv: "session_inv s" and wf: "event_wf ev"
    and room: "length (ws_events s) < max_event_queue_events (ws_options s)"
      "ws_queued_bytes s + event_payload_size ev \<le> max_event_queue_bytes (ws_options s)"
  shows "session_inv (push_event ev s)"
proof -
  have "length (payload_events s) < max_event_queue_events (ws_options s)"
    unfolding payload_events_def by (rule order_le_less_trans [OF length_filter_le room(1)])
  moreover have "sum_list (map event_payload_size (payload_events s)) \<le> ws_queued_bytes s"
    using inv sum_list_filter_le [of event_payload_size payload_event "ws_events s"]
    by (simp add: session_inv_def event_queue.accounted_def payload_events_def)
  ultimately have "queue_bounded (push_event ev s)"
    using room(2) by (simp add: queue_bounded_def payload_events_def push_event_def)
  then show ?thesis
    using inv wf event_queue.accounted_push [of s ev] by (auto simp: session_inv_def push_event_def)
qed

lemma session_inv_update:
  assumes "session_inv s" and "ws_events s' = ws_events s" and "ws_queued_bytes s' = ws_queued_bytes s"
    and "ws_options s' = ws_options s" and "parser_inv (ws_parser s')"
    and "ws_state s' \<in> {WS_Starting, WS_Ready, WS_Failed, WS_Stopping} \<longrightarrow> ws_start_attempted s'"
  shows "session_inv s'"
  using assms by (simp add: session_inv_def queue_bounded_def payload_events_def event_queue.accounted_def)

lemma session_inv_fail_if_live [inv_intros]: "session_inv s \<Longrightarrow> session_inv (fail_if_live s)"
  by (rule session_inv_update [of s]) (auto simp: fail_if_live_def live_state_def session_inv_def)

lemma session_inv_enqueue_exempt [inv_intros]:
  "session_inv s \<Longrightarrow> event_wf ev \<Longrightarrow> \<not> payload_event ev \<Longrightarrow>
     session_inv (snd (enqueue_event_locked ev True s))"
  by (simp add: enqueue_event_locked_def session_inv_push_plain)

lemma session_inv_enqueue [inv_intros]:
  assumes inv: "session_inv s" and wf: "event_wf ev"
  shows "session_inv (snd (enqueue_event_locked ev False s))"
proof -
  have "session_inv (s\<lparr>ws_overflowed := True\<rparr>)"
    using inv by (intro session_inv_update [OF inv]) (auto simp: session_inv_def)
  then have "session_inv (push_event (make_session_error m) (fail_if_live (s\<lparr>ws_overflowed := True\<rparr>)))" for m
    by (intro session_inv_push_plain session_inv_fail_if_live) simp_all
  then show ?thesis
    using inv wf session_inv_push_bounded [OF inv wf]
    by (auto simp: enqueue_event_locked_def Let_def not_less not_le)
qed

lemma session_inv_fail_with_event [inv_intros]:
  "session_inv s \<Longrightarrow> event_wf ev \<Longrightarrow> \<not> payload_event ev \<Longrightarrow>
     session_inv (snd (fail_with_event_locked ev True s))"
  unfolding fail_with_event_locked_def by (intro inv_intros)

text \<open>Induction over the parsing loop: what every frame effect keeps, \<open>handle_bytes\<close> keeps.\<close>

lemma handle_parsed_keeps:
  assumes parse: "\<And>s. P s \<Longrightarrow> P (s\<lparr>ws_parser := snd (parse_next (ws_parser s))\<rparr>)"
    and fail: "\<And>s ev. P s \<Longrightarrow> event_wf ev \<Longrightarrow> \<not> payload_event ev \<Longrightarrow>
          P (snd (fail_with_event_locked ev True s))"
    and queue: "\<And>s ev. P s \<Longrightarrow> event_wf ev \<Longrightarrow>
          payload_event ev \<longrightarrow> ws_state s = WS_Ready \<or> fst (enqueue_event_locked ev False s) \<Longrightarrow>
          P (snd (enqueue_event_locked ev False s))"
    and ready: "\<And>s ev m. P s \<Longrightarrow> event_wf ev \<Longrightarrow> ws_state s = WS_Starting \<Longrightarrow>
          \<not> fst (enqueue_event_locked ev False s) \<Longrightarrow>
          P ((snd (enqueue_event_locked ev False s))\<lparr>ws_ready_message := m, ws_state := WS_Ready\<rparr>)"
  shows "P s \<Longrightarrow> P (snd (handle_parsed jp s))"
proof (induction jp s rule: handle_parsed.induct)
  case (1 jp s)
  define r where "r = fst (parse_next (ws_parser s))"
  define s1 where "s1 = s\<lparr>ws_parser := snd (parse_next (ws_parser s))\<rparr>"
  have s1: "P s1" using parse [OF "1.prems"] by (simp add: s1_def)
  have frame: "P (snd (handle_frame_locked jp fr s1))" for fr
    using s1 by (cases rule: handle_frame_locked_cases [of jp fr s1]) (auto intro: fail queue ready)
  have "P (snd (handle_parsed jp (snd (handle_frame_locked jp (frame r) s1))))"
    if "status r = FrameReady" "\<not> fst (handle_frame_locked jp (frame r) s1)"
    using "1.IH" [OF r_def s1_def that(1) refl that(2) frame] .
  then show ?case
    using s1 fail [OF s1] frame
    by (subst handle_parsed.simps) (auto simp: Let_def simp flip: r_def s1_def split: ParseStatus.split)
qed

lemma session_inv_handle_bytes [inv_intros]:
  assumes "session_inv s"
  shows "session_inv (handle_bytes jp bytes s)"
proof -
  have "session_inv (s\<lparr>ws_parser := parser_append bytes (ws_parser s)\<rparr>)"
    using assms by (intro session_inv_update [OF assms]) (auto simp: session_inv_def parser_inv_append)
  then have i: "session_inv (snd (handle_parsed jp (s\<lparr>ws_parser := parser_append bytes (ws_parser s)\<rparr>)))"
  proof (rule handle_parsed_keeps [rotated -1])
    fix s :: WorkerSession
    assume i: "session_inv s"
    show "session_inv (s\<lparr>ws_parser := snd (parse_next (ws_parser s))\<rparr>)"
      using i by (intro session_inv_update [OF i]) (auto simp: session_inv_def parser.pull_inv)
  next
    fix s ev m
    assume a: "session_inv s" "event_wf ev" "ws_state s = WS_Starting"
    let ?t = "snd (enqueue_event_locked ev False s)"
    have i: "session_inv ?t" using a by (intro inv_intros)
    moreover have "ws_start_attempted ?t"
      using a untouched_enqueue [of s ev False] by (simp add: session_inv_def untouched_def)
    ultimately show "session_inv (?t\<lparr>ws_ready_message := m, ws_state := WS_Ready\<rparr>)"
      by (intro session_inv_update [OF i]) (auto simp: session_inv_def)
  qed (intro inv_intros; assumption)+
  have "session_inv (log_call c (snd (handle_parsed jp (s\<lparr>ws_parser := parser_append bytes (ws_parser s)\<rparr>))))" for c
    using i by (intro session_inv_update [OF i]) (auto simp: log_call_def session_inv_def)
  then show ?thesis using i by (simp add: handle_bytes_def split_beta Let_def)
qed

end
