(* ===== verification/Session_Lifecycle.thy ===== *)
theory Session_Lifecycle
  imports Worker_Session
begin

text \<open>
  The public operations of \<open>WorkerSession\<close> (\<open>start\<close>, \<open>send_control\<close>, \<open>wait_for_event\<close>, \<open>stop\<close>) composed
  of the critical sections of the previous theory, for every behaviour of the transport and every
  interleaving with other threads; reachable states as an inductive predicate over the critical
  sections; and the invariants of a session.
\<close>

section \<open>Critical sections\<close>

definition mark_outbound_control_locked :: "RequestId \<Rightarrow> ControlMessageType \<Rightarrow> WorkerSession \<Rightarrow> WorkerSession" where
  "mark_outbound_control_locked rid t s =
     (if rid = 0 \<and> t = CMT_Shutdown then s\<lparr>ws_shutdown_requested := True\<rparr> else s)"

definition start_allowed :: "WorkerSession \<Rightarrow> bool" where
  "start_allowed s \<longleftrightarrow> ws_has_transport s \<and> \<not> ws_start_attempted s \<and> ws_state s = WS_Stopped \<and>
     max_event_queue_events (ws_options s) \<noteq> 0 \<and> max_event_queue_bytes (ws_options s) \<noteq> 0"

definition begin_start :: "WorkerSession \<Rightarrow> WorkerSession" where
  "begin_start s = s\<lparr>ws_start_attempted := True, ws_state := WS_Starting, ws_overflowed := False,
     ws_parser := parser_clear (ws_parser s), ws_events := [], ws_queued_bytes := 0,
     ws_shutdown_requested := False\<rparr>"

text \<open>The reports of \<open>send_control_frame\<close>: an encoding failure is fatal only during startup, a
  transport that does not accept the bytes is fatal in both live states.\<close>

definition report_encode_failure :: "string \<Rightarrow> WorkerSession \<Rightarrow> WorkerSession" where
  "report_encode_failure m s =
     (if ws_state s = WS_Starting then snd (fail_with_event_locked (make_session_error m) True s)
      else snd (enqueue_event_locked (make_session_error m) True s))"

definition begin_stop :: "WorkerSession \<Rightarrow> WorkerSession" where
  "begin_stop s = (if ws_state s \<noteq> WS_Exited then s\<lparr>ws_state := WS_Stopping\<rparr> else s)"

definition end_stop :: "WorkerSession \<Rightarrow> WorkerSession" where
  "end_stop s = (if ws_state s = WS_Stopping then s\<lparr>ws_state := WS_Stopped\<rparr> else s)"

datatype SessionAction =
    BeginStart
  | StartRefused
  | Receive "byte list"
  | TransportErrored string
  | PeerExited int
  | DirectionRefused
  | EncodeRefused string
  | MarkOutbound RequestId ControlMessageType
  | SendRefused SendResult
  | CallTransport TransportCall
  | BeginStop
  | EndStop
  | TakeEvent

fun session_action :: "json_parse \<Rightarrow> SessionAction \<Rightarrow> WorkerSession \<Rightarrow> WorkerSession" where
  "session_action jp BeginStart s = (if start_allowed s then begin_start s else s)"
| "session_action jp StartRefused s = (if ws_start_attempted s then s\<lparr>ws_state := WS_Failed\<rparr> else s)"
| "session_action jp (Receive bytes) s = handle_bytes jp bytes s"
| "session_action jp (TransportErrored m) s = handle_transport_error m s"
| "session_action jp (PeerExited st) s = handle_exit st s"
| "session_action jp DirectionRefused s =
     snd (enqueue_event_locked (make_session_error ''cannot send worker-to-client control message'') True s)"
| "session_action jp (EncodeRefused m) s = report_encode_failure m s"
| "session_action jp (MarkOutbound rid t) s = mark_outbound_control_locked rid t s"
| "session_action jp (SendRefused r) s = handle_transport_error (send_result_message r) s"
| "session_action jp (CallTransport c) s = log_call c s"
| "session_action jp BeginStop s =
     (if ws_state s = WS_Stopped \<or> ws_state s = WS_Stopping then s else begin_stop s)"
| "session_action jp EndStop s = end_stop s"
| "session_action jp TakeEvent s = (case pop_event s of None \<Rightarrow> s | Some (ev, s') \<Rightarrow> s')"

definition run_actions :: "json_parse \<Rightarrow> SessionAction list \<Rightarrow> WorkerSession \<Rightarrow> WorkerSession" where
  "run_actions jp acts s = fold (session_action jp) acts s"

section \<open>Public operations\<close>

text \<open>The answer of the transport to one \<open>send\<close> and what other threads do meanwhile.\<close>

record SendEnv =
  send_answer :: SendResult
  during_send :: "SessionAction list"

definition send_control_frame ::
  "json_dump \<Rightarrow> json_parse \<Rightarrow> SendEnv \<Rightarrow> RequestId \<Rightarrow> ControlMessage \<Rightarrow> WorkerSession \<Rightarrow>
     bool \<times> WorkerSession" where
  "send_control_frame jd jp env rid m s =
     (if \<not> ws_has_transport s then (False, s)
      else if \<not> is_client_to_worker_control (control_message_type m) then
        (False, snd (enqueue_event_locked
           (make_session_error ''cannot send worker-to-client control message'') True s))
      else
        (let pl = encode_control_message jd m in
         if je_error pl \<noteq> CCE_None then (False, report_encode_failure (je_diagnostic pl) s)
         else
           (let encoded = encode_frame ControlJson rid (je_payload pl) in
            if \<not> encode_ok encoded then (False, report_encode_failure (er_message encoded) s)
            else
              (let s = mark_outbound_control_locked rid (control_message_type m) s;
                   s = log_call (TransportSend (er_bytes encoded)) s;
                   s = run_actions jp (during_send env) s
               in if send_answer env = Accepted then (True, s)
                  else (False, handle_transport_error (send_result_message (send_answer env)) s)))))"

definition send_control ::
  "json_dump \<Rightarrow> json_parse \<Rightarrow> bool \<Rightarrow> SendEnv \<Rightarrow> RequestId \<Rightarrow> ControlMessage \<Rightarrow> WorkerSession \<Rightarrow>
     bool \<times> WorkerSession" where
  "send_control jd jp transport_running env rid m s =
     (if ws_state s \<noteq> WS_Ready \<or> \<not> ws_has_transport s \<or> \<not> transport_running then (False, s)
      else send_control_frame jd jp env rid m s)"

text \<open>\<open>wait_for_event\<close> with the steps of other threads during the wait.\<close>

definition wait_for_event ::
  "json_parse \<Rightarrow> SessionAction list \<Rightarrow> WorkerSession \<Rightarrow> WorkerSessionEvent option \<times> WorkerSession" where
  "wait_for_event jp during_wait s =
     (let s = run_actions jp during_wait s in
      case pop_event s of None \<Rightarrow> (None, s) | Some (ev, s') \<Rightarrow> (Some ev, s'))"

definition ready_message :: "WorkerSession \<Rightarrow> ReadyMessage option" where
  "ready_message s = (if ws_state s \<noteq> WS_Ready then None else Some (ws_ready_message s))"

record StopEnv =
  after_begin_stop :: "SessionAction list"
  running_at_stop :: bool
  shutdown_send :: SendEnv
  during_transport_stop :: "SessionAction list"

definition session_stop :: "json_dump \<Rightarrow> json_parse \<Rightarrow> StopEnv \<Rightarrow> WorkerSession \<Rightarrow> WorkerSession" where
  "session_stop jd jp env s =
     (if ws_state s = WS_Stopped \<or> ws_state s = WS_Stopping then s
      else
        (let send_shutdown = (ws_state s = WS_Ready);
             s = begin_stop s;
             s = run_actions jp (after_begin_stop env) s;
             s = (if ws_has_transport s \<and> running_at_stop env then
                    (let s = (if send_shutdown
                              then snd (send_control_frame jd jp (shutdown_send env) 0 (ShutdownM default_shutdown) s)
                              else s)
                     in run_actions jp (during_transport_stop env) (log_call TransportStop s))
                  else s)
         in end_stop s))"

record StartEnv =
  during_transport_start :: "SessionAction list"
  transport_started :: bool
  hello_send :: SendEnv
  during_ready_wait :: "SessionAction list"
  running_when_ready :: bool
  startup_stop :: StopEnv

definition session_start :: "json_dump \<Rightarrow> json_parse \<Rightarrow> StartEnv \<Rightarrow> WorkerSession \<Rightarrow> bool \<times> WorkerSession" where
  "session_start jd jp env s =
     (if \<not> start_allowed s then (False, s)
      else
        (let s = begin_start s;
             s = log_call TransportStart s;
             s = run_actions jp (during_transport_start env) s
         in
         if \<not> transport_started env then (False, s\<lparr>ws_state := WS_Failed\<rparr>)
         else if ws_state s \<noteq> WS_Starting then (False, session_stop jd jp (startup_stop env) s)
         else
           (let hello = HelloM \<lparr>client_name = opt_client_name (ws_options s),
                               client_version = opt_client_version (ws_options s)\<rparr>;
                (sent, s) = send_control_frame jd jp (hello_send env) 0 hello s
            in
            if \<not> sent then (False, session_stop jd jp (startup_stop env) s)
            else
              (let s = run_actions jp (during_ready_wait env) s;
                   ready = (ws_state s = WS_Ready \<or> ws_state s = WS_Failed \<or>
                            ws_state s = WS_Exited \<or> ws_state s = WS_Stopping);
                   success = (ready \<and> ws_state s = WS_Ready \<and> \<not> ws_overflowed s \<and>
                              ws_has_transport s \<and> running_when_ready env)
               in if \<not> success then (False, session_stop jd jp (startup_stop env) s) else (True, s)))))"

section \<open>Reachable sessions\<close>

inductive session_reachable :: "json_parse \<Rightarrow> WorkerSession \<Rightarrow> bool" for jp where
  fresh: "session_reachable jp (new_session has_transport options)"
| action: "session_reachable jp s \<Longrightarrow> session_reachable jp (session_action jp a s)"

lemma reachable_run_actions [inv_intros]:
  "session_reachable jp s \<Longrightarrow> session_reachable jp (run_actions jp acts s)"
  unfolding run_actions_def by (induction acts arbitrary: s) (auto intro: session_reachable.action)

text \<open>Every critical section of a public operation is an action, so that the operations stay within
  the reachable sessions.\<close>

lemma reachable_sections [inv_intros]:
  assumes "session_reachable jp s"
  shows "session_reachable jp (log_call c s)" "session_reachable jp (report_encode_failure m s)"
    "session_reachable jp (mark_outbound_control_locked rid t s)"
    "session_reachable jp (handle_transport_error m s)" "session_reachable jp (end_stop s)"
  using session_reachable.action [OF assms, of "CallTransport c"]
    session_reachable.action [OF assms, of "EncodeRefused m"]
    session_reachable.action [OF assms, of "MarkOutbound rid t"]
    session_reachable.action [OF assms, of "TransportErrored m"]
    session_reachable.action [OF assms, of EndStop]
  by simp_all

lemma reachable_send_control_frame [inv_intros]:
  "session_reachable jp s \<Longrightarrow> session_reachable jp (snd (send_control_frame jd jp env rid m s))"
  using session_reachable.action [of jp s DirectionRefused]
  by (auto simp: send_control_frame_def Let_def intro!: inv_intros)

lemma reachable_session_stop [inv_intros]:
  assumes "session_reachable jp s"
  shows "session_reachable jp (session_stop jd jp env s)"
proof (cases "ws_state s = WS_Stopped \<or> ws_state s = WS_Stopping")
  case True
  then show ?thesis using assms by (simp add: session_stop_def)
next
  case False
  then have "session_reachable jp (begin_stop s)"
    using session_reachable.action [OF assms, of BeginStop] by simp
  then show ?thesis using False by (auto simp: session_stop_def Let_def intro!: inv_intros)
qed

text \<open>Once attempted, a start stays attempted.\<close>

lemma attempted_handle_bytes: "ws_start_attempted (handle_bytes jp bytes s) = ws_start_attempted s"
proof -
  have "ws_start_attempted (snd (handle_parsed jp t)) = b" if "ws_start_attempted t = b" for t b
  proof (rule handle_parsed_keeps [of "\<lambda>s. ws_start_attempted s = b"])
    fix s ev
    show "ws_start_attempted s = b \<Longrightarrow> ws_start_attempted (snd (fail_with_event_locked ev True s)) = b"
      using untouched_fail [of s ev True] by (simp add: untouched_def)
    show "ws_start_attempted s = b \<Longrightarrow> ws_start_attempted (snd (enqueue_event_locked ev False s)) = b"
      using untouched_enqueue [of s ev False] by (simp add: untouched_def)
    then show "ws_start_attempted s = b \<Longrightarrow> ws_start_attempted
        ((snd (enqueue_event_locked ev False s))\<lparr>ws_ready_message := m, ws_state := WS_Ready\<rparr>) = b" for m
      by simp
  qed (use that in simp_all)
  then show ?thesis by (simp add: handle_bytes_def log_call_def split_beta Let_def)
qed

lemma attempted_event:
  "ws_start_attempted (snd (enqueue_event_locked ev x s)) = ws_start_attempted s"
  "ws_start_attempted (snd (fail_with_event_locked ev x s)) = ws_start_attempted s"
  using untouched_enqueue [of s ev x] untouched_fail [of s ev x] by (simp_all add: untouched_def)

lemmas section_defs = begin_start_def report_encode_failure_def mark_outbound_control_locked_def
  handle_transport_error_def handle_exit_def log_call_def begin_stop_def end_stop_def pop_event_def

lemma attempted_action: "ws_start_attempted s \<Longrightarrow> ws_start_attempted (session_action jp a s)"
  by (cases a) (simp_all add: section_defs attempted_handle_bytes attempted_event split: list.split)

lemma attempted_run: "ws_start_attempted s \<Longrightarrow> ws_start_attempted (run_actions jp acts s)"
  unfolding run_actions_def by (induction acts arbitrary: s) (auto dest: attempted_action)

lemma reachable_session_start [inv_intros]:
  assumes "session_reachable jp s"
  shows "session_reachable jp (snd (session_start jd jp env s))"
proof (cases "start_allowed s")
  case False
  then show ?thesis using assms by (simp add: session_start_def)
next
  case True
  define s1 where "s1 = run_actions jp (during_transport_start env) (log_call TransportStart (begin_start s))"
  have "session_reachable jp (begin_start s)"
    using session_reachable.action [OF assms, of BeginStart] True by simp
  then have r: "session_reachable jp s1" unfolding s1_def by (intro inv_intros)
  have "ws_start_attempted s1"
    unfolding s1_def by (intro attempted_run) (simp add: log_call_def begin_start_def)
  then have "session_reachable jp (s1\<lparr>ws_state := WS_Failed\<rparr>)"
    using session_reachable.action [OF r, of StartRefused] by simp
  then show ?thesis
    using r True
    by (auto simp: session_start_def Let_def split_beta simp flip: s1_def intro!: inv_intros)
qed

section \<open>Invariants\<close>

lemma session_inv_new [simp]: "session_inv (new_session t options)"
  by (simp add: session_inv_def new_session_def event_queue.accounted_def queue_bounded_def
      payload_events_def)

lemma session_inv_state:
  "session_inv s \<Longrightarrow> ws_start_attempted s \<Longrightarrow> session_inv (s\<lparr>ws_state := st\<rparr>)"
  by (auto simp: session_inv_def queue_bounded_def payload_events_def event_queue.accounted_def)

lemma session_inv_idle:
  "session_inv s \<Longrightarrow> st \<in> {WS_Stopped, WS_Exited} \<Longrightarrow> session_inv (s\<lparr>ws_state := st\<rparr>)"
  by (auto simp: session_inv_def queue_bounded_def payload_events_def event_queue.accounted_def)

lemma session_inv_begin_start [inv_intros]: "session_inv s \<Longrightarrow> session_inv (begin_start s)"
  by (simp add: session_inv_def begin_start_def event_queue.accounted_def queue_bounded_def
      payload_events_def)

lemma session_inv_reports [inv_intros]:
  assumes "session_inv s"
  shows "session_inv (report_encode_failure m s)" "session_inv (handle_transport_error m s)"
    "session_inv (handle_exit st s)"
  using assms
  by (auto simp: report_encode_failure_def handle_transport_error_def handle_exit_def
      intro!: inv_intros session_inv_idle)

lemma session_inv_marks [inv_intros]:
  assumes "session_inv s"
  shows "session_inv (log_call c s)" "session_inv (mark_outbound_control_locked rid t s)"
    "session_inv (end_stop s)"
  using assms by (auto simp: log_call_def mark_outbound_control_locked_def end_stop_def session_inv_def
      queue_bounded_def payload_events_def event_queue.accounted_def)

lemma session_inv_begin_stop [inv_intros]:
  assumes inv: "session_inv s" and "ws_state s \<noteq> WS_Stopped"
  shows "session_inv (begin_stop s)"
proof (cases "ws_state s = WS_Exited")
  case False
  then have "ws_start_attempted s" using assms by (cases "ws_state s") (auto simp: session_inv_def)
  then show ?thesis using inv by (simp add: begin_stop_def session_inv_state)
qed (simp add: begin_stop_def inv)

lemma session_inv_pop:
  assumes inv: "session_inv s" and pop: "pop_event s = Some (ev, s')"
  shows "session_inv s' \<and> event_wf ev"
proof -
  have acc: "event_queue.accounted s" using inv by (simp add: session_inv_def)
  have ev: "ws_events s = ev # ws_events s'" using event_queue.pop_exact [OF acc pop] by simp
  have same: "ws_options s' = ws_options s" "ws_parser s' = ws_parser s" "ws_state s' = ws_state s"
    "ws_start_attempted s' = ws_start_attempted s"
    using pop by (auto simp: pop_event_def split: list.splits)
  show ?thesis
    using inv event_queue.accounted_pop [OF acc pop]
    by (auto simp: session_inv_def queue_bounded_def payload_events_def same ev split: if_splits)
qed

lemma session_inv_action [inv_intros]: "session_inv s \<Longrightarrow> session_inv (session_action jp a s)"
proof (cases a)
  case TakeEvent
  then show "session_inv s \<Longrightarrow> ?thesis"
    by (auto split: option.split dest: session_inv_pop)
next
  case StartRefused
  then show "session_inv s \<Longrightarrow> ?thesis" by (simp add: session_inv_state)
qed (auto intro!: inv_intros)

lemma reachable_inv: "session_reachable jp s \<Longrightarrow> session_inv s"
  by (induction rule: session_reachable.induct) (auto intro!: inv_intros)

section \<open>A session runs once\<close>

text \<open>Phase 0 is a session that was never started, 1 the startup, 2 the ready session, 3 the time
  after it, whatever ended it.\<close>

definition phase :: "WorkerSession \<Rightarrow> nat" where
  "phase s =
     (case ws_state s of
        WS_Stopped \<Rightarrow> (if ws_start_attempted s then 3 else 0)
      | WS_Starting \<Rightarrow> 1
      | WS_Ready \<Rightarrow> 2
      | _ \<Rightarrow> 3)"

lemma phase_cong: "ws_state s' = ws_state s \<Longrightarrow> ws_start_attempted s' = ws_start_attempted s \<Longrightarrow> phase s' = phase s"
  by (simp add: phase_def)

lemma phase_fail_if_live: "phase s \<le> phase (fail_if_live s)"
  by (simp add: phase_def fail_if_live_def live_state_def split: WorkerSessionState.split)

lemma phase_enqueue: "phase s \<le> phase (snd (enqueue_event_locked ev x s))"
proof -
  have "phase (push_event e t) = phase t" for e t by (rule phase_cong) (simp_all add: push_event_def)
  moreover have "phase (t\<lparr>ws_overflowed := b\<rparr>) = phase t" for t b by (rule phase_cong) simp_all
  ultimately show ?thesis
    using phase_fail_if_live [of "s\<lparr>ws_overflowed := True\<rparr>"] by (simp add: enqueue_event_locked_def Let_def)
qed

lemma phase_fail_with_event: "phase s \<le> phase (snd (fail_with_event_locked ev x s))"
  unfolding fail_with_event_locked_def using phase_fail_if_live phase_enqueue order_trans by blast

lemma phase_handle_bytes: "phase s \<le> phase (handle_bytes jp bytes s)"
proof -
  have keeps: "phase s \<le> phase (snd (handle_parsed jp t))" if "phase s \<le> phase t" for t
  proof (rule handle_parsed_keeps [of "\<lambda>u. phase s \<le> phase u"])
    fix u :: WorkerSession
    assume u: "phase s \<le> phase u"
    have "phase (u\<lparr>ws_parser := snd (parse_next (ws_parser u))\<rparr>) = phase u" by (rule phase_cong) simp_all
    then show "phase s \<le> phase (u\<lparr>ws_parser := snd (parse_next (ws_parser u))\<rparr>)" using u by simp
  next
    fix u ev m
    assume "phase s \<le> phase u" and "ws_state u = WS_Starting"
    then show "phase s \<le> phase
        ((snd (enqueue_event_locked ev False u))\<lparr>ws_ready_message := m, ws_state := WS_Ready\<rparr>)"
      by (simp add: phase_def)
  qed (use that phase_enqueue phase_fail_with_event order_trans in blast)+
  have "phase (log_call c t) = phase t" for c t by (rule phase_cong) (simp_all add: log_call_def)
  moreover have "phase (s\<lparr>ws_parser := p\<rparr>) = phase s" for p by (rule phase_cong) simp_all
  ultimately show ?thesis
    using keeps [of "s\<lparr>ws_parser := parser_append bytes (ws_parser s)\<rparr>"]
    by (simp add: handle_bytes_def split_beta Let_def)
qed

lemma phase_action:
  assumes "session_inv s"
  shows "phase s \<le> phase (session_action jp a s)"
proof (cases a)
  case (TransportErrored m)
  then show ?thesis by (simp add: handle_transport_error_def phase_enqueue phase_fail_with_event)
next
  case (SendRefused r)
  then show ?thesis by (simp add: handle_transport_error_def phase_enqueue phase_fail_with_event)
next
  case (EncodeRefused m)
  then show ?thesis by (simp add: report_encode_failure_def phase_enqueue phase_fail_with_event)
next
  case (Receive b)
  then show ?thesis by (simp add: phase_handle_bytes)
next
  case DirectionRefused
  then show ?thesis by (simp add: phase_enqueue)
qed (use assms in \<open>auto simp: phase_def session_inv_def start_allowed_def begin_start_def handle_exit_def
  mark_outbound_control_locked_def log_call_def begin_stop_def end_stop_def pop_event_def
  split: WorkerSessionState.split list.split if_split\<close>)

lemma phase_run: "session_inv s \<Longrightarrow> phase s \<le> phase (run_actions jp acts s)"
  unfolding run_actions_def
proof (induction acts arbitrary: s)
  case (Cons a acts)
  then show ?case
    using phase_action [of s jp a] Cons.IH [of "session_action jp a s"] session_inv_action [of s jp a]
    by (simp add: order_trans)
qed simp

end
