(* ===== verification/Utf8_Text.thy ===== *)
theory Utf8_Text
  imports Json_Values
begin

text \<open>
  The UTF-8 routines of \<open>src/qwen_tts_bridge/client/qwen_tts_client.cpp\<close> (\<open>is_valid_utf8\<close>,
  \<open>is_unicode_space\<close>, \<open>count_non_space_utf8_bytes\<close>) on bytes, as the code reads a \<open>std::string\<close>
  through \<open>unsigned char\<close>, and their relation to the definition of UTF-8: the validator accepts
  exactly the encodings of sequences of Unicode scalar values, and the counter, which does not
  check, reads within the text and counts correctly on every text the validator accepts.
\<close>

section \<open>The routines\<close>

text \<open>What the lead byte announces: the number of continuation bytes and the bits it contributes.\<close>

definition lead_info :: "byte \<Rightarrow> (nat \<times> u32) option" where
  "lead_info lead =
     (if lead \<le> 0x7F then Some (0, 0)
      else if lead \<ge> 0xC2 \<and> lead \<le> 0xDF then Some (1, ucast (lead AND 0x1F))
      else if lead \<ge> 0xE0 \<and> lead \<le> 0xEF then Some (2, ucast (lead AND 0x0F))
      else if lead \<ge> 0xF0 \<and> lead \<le> 0xF4 then Some (3, ucast (lead AND 0x07))
      else None)"

text \<open>The loop over the continuation bytes; \<open>None\<close> when one of them is not a continuation byte.\<close>

fun take_continuations :: "byte list \<Rightarrow> u32 \<Rightarrow> u32 option" where
  "take_continuations [] cp = Some cp"
| "take_continuations (c # cs) cp =
     (if c AND 0xC0 \<noteq> 0x80 then None
      else take_continuations cs (push_bit 6 cp OR ucast (c AND 0x3F)))"

definition bad_code_point :: "nat \<Rightarrow> u32 \<Rightarrow> bool" where
  "bad_code_point n cp \<longleftrightarrow>
     (n = 2 \<and> cp < 0x800) \<or> (n = 3 \<and> cp < 0x10000) \<or> cp > 0x10FFFF \<or> (cp \<ge> 0xD800 \<and> cp \<le> 0xDFFF)"

function valid_utf8_bytes :: "byte list \<Rightarrow> bool" where
  "valid_utf8_bytes [] = True"
| "valid_utf8_bytes (lead # rest) =
     (case lead_info lead of
        None \<Rightarrow> False
      | Some (n, cp) \<Rightarrow>
          if n = 0 then valid_utf8_bytes rest
          else if n > length rest then False
          else
            (case take_continuations (take n rest) cp of
               None \<Rightarrow> False
             | Some cp' \<Rightarrow> if bad_code_point n cp' then False else valid_utf8_bytes (drop n rest)))"
  by pat_completeness auto
termination by (relation "measure length") auto

definition is_valid_utf8 :: "string \<Rightarrow> bool" where
  "is_valid_utf8 value = valid_utf8_bytes (map char_byte value)"

definition is_unicode_space :: "u32 \<Rightarrow> bool" where
  "is_unicode_space cp \<longleftrightarrow>
     cp = 0x0009 \<or> cp = 0x000A \<or> cp = 0x000B \<or> cp = 0x000C \<or> cp = 0x000D \<or> cp = 0x0020 \<or> cp = 0x00A0 \<or>
     cp = 0x1680 \<or> (cp \<ge> 0x2000 \<and> cp \<le> 0x200A) \<or> cp = 0x2028 \<or> cp = 0x2029 \<or> cp = 0x202F \<or>
     cp = 0x205F \<or> cp = 0x3000"

definition count_width :: "byte \<Rightarrow> nat \<times> u32" where
  "count_width lead =
     (if lead \<ge> 0xC2 \<and> lead \<le> 0xDF then (2, ucast (lead AND 0x1F))
      else if lead \<ge> 0xE0 \<and> lead \<le> 0xEF then (3, ucast (lead AND 0x0F))
      else if lead \<ge> 0xF0 \<and> lead \<le> 0xF4 then (4, ucast (lead AND 0x07))
      else (1, ucast lead))"

definition join_continuations :: "byte list \<Rightarrow> u32 \<Rightarrow> u32" where
  "join_continuations cs cp = fold (\<lambda>c cp. push_bit 6 cp OR ucast (c AND 0x3F)) cs cp"

text \<open>\<open>None\<close> stands for a read past the end of the text.\<close>

function count_bytes :: "byte list \<Rightarrow> nat option" where
  "count_bytes [] = Some 0"
| "count_bytes (lead # rest) =
     (let (width, cp) = count_width lead in
      if width - 1 > length rest then None
      else
        (case count_bytes (drop (width - 1) rest) of
           None \<Rightarrow> None
         | Some n \<Rightarrow>
             Some (if \<not> is_unicode_space (join_continuations (take (width - 1) rest) cp)
                   then width + n else n)))"
  by pat_completeness auto
termination by (relation "measure length") auto

definition count_non_space_utf8_bytes :: "string \<Rightarrow> nat option" where
  "count_non_space_utf8_bytes value = count_bytes (map char_byte value)"

section \<open>UTF-8\<close>

text \<open>The encoding of a code point, and the scalar values it is defined for.\<close>

definition scalar_value :: "nat \<Rightarrow> bool" where
  "scalar_value cp \<longleftrightarrow> cp \<le> 0x10FFFF \<and> \<not> (0xD800 \<le> cp \<and> cp \<le> 0xDFFF)"

definition utf8_encode :: "nat \<Rightarrow> byte list" where
  "utf8_encode cp = map of_nat
     (if cp < 0x80 then [cp]
      else if cp < 0x800 then [0xC0 + cp div 64, 0x80 + cp mod 64]
      else if cp < 0x10000 then [0xE0 + cp div 4096, 0x80 + (cp div 64) mod 64, 0x80 + cp mod 64]
      else [0xF0 + cp div 262144, 0x80 + (cp div 4096) mod 64, 0x80 + (cp div 64) mod 64,
            0x80 + cp mod 64])"

section \<open>Arithmetic of the bit operations\<close>

lemma unat_byte_less: "unat (b :: byte) < 256"
  by (rule order_less_le_trans [OF unsigned_less]) simp

lemma byte_mask:
  "unat ((b :: byte) AND 0x3F) = unat b mod 64" "unat (b AND 0x1F) = unat b mod 32"
  "unat (b AND 0x0F) = unat b mod 16" "unat (b AND 0x07) = unat b mod 8"
proof -
  have m: "unat (b AND mask n) = unat b mod 2 ^ n" for n
    by (simp add: unsigned_take_bit_eq flip: take_bit_eq_mask) (simp add: take_bit_eq_mod)
  have "mask 6 = (0x3F :: byte)" "mask 5 = (0x1F :: byte)" "mask 4 = (0x0F :: byte)" "mask 3 = (0x07 :: byte)"
    by (simp_all add: mask_eq_exp_minus_1)
  then show "unat (b AND 0x3F) = unat b mod 64" "unat (b AND 0x1F) = unat b mod 32"
    "unat (b AND 0x0F) = unat b mod 16" "unat (b AND 0x07) = unat b mod 8"
    using m [of 6] m [of 5] m [of 4] m [of 3] by simp_all
qed

lemma byte_high_bits: "(c :: byte) AND 0xC0 = push_bit 6 (drop_bit 6 c)"
proof (rule bit_word_eqI)
  fix n assume n: "n < LENGTH(8)"
  have "(0xC0 :: byte) = push_bit 6 (mask 2)" by (simp add: push_bit_eq_mult mask_eq_exp_minus_1)
  then have "bit (0xC0 :: byte) n \<longleftrightarrow> bit (push_bit 6 (mask 2) :: byte) n" by simp
  also have "\<dots> \<longleftrightarrow> 6 \<le> n" using n by (simp only: bit_push_bit_iff bit_mask_iff possible_bit_word) auto
  finally show "bit (c AND 0xC0) n \<longleftrightarrow> bit (push_bit 6 (drop_bit 6 c)) n"
    using n by (simp only: bit_and_iff bit_push_bit_iff bit_drop_bit_eq comp_def possible_bit_word) auto
qed

lemma block_64: "n div 64 * 64 = 128 \<longleftrightarrow> 128 \<le> n \<and> n < (192 :: nat)"
proof -
  have "2 \<le> n div 64 \<longleftrightarrow> 128 \<le> n" using less_eq_div_iff_mult_less_eq [of 64 2 n] by simp
  moreover have "n div 64 < 3 \<longleftrightarrow> n < 192" using div_less_iff_less_mult [of 64 n 3] by simp
  ultimately show ?thesis by auto
qed

lemma continuation_byte: "(c :: byte) AND 0xC0 = 0x80 \<longleftrightarrow> 128 \<le> unat c \<and> unat c < 192"
proof -
  have "unat (push_bit 6 (drop_bit 6 c)) = take_bit 8 (push_bit 6 (unat (drop_bit 6 c)))"
    by (simp only: unsigned_push_bit_eq) simp
  also have "\<dots> = take_bit 8 (push_bit 6 (drop_bit 6 (unat c)))"
    using unat_byte_less [of c] by (simp only: unsigned_drop_bit_eq) (simp add: take_bit_nat_eq_self)
  also have "\<dots> = unat c div 64 * 64 mod 256"
    by (simp add: push_bit_eq_mult drop_bit_eq_div take_bit_eq_mod)
  also have "\<dots> = unat c div 64 * 64" using unat_byte_less [of c] by simp
  finally have "unat (c AND 0xC0) = unat c div 64 * 64" by (simp only: byte_high_bits)
  moreover have "c AND 0xC0 = 0x80 \<longleftrightarrow> unat (c AND 0xC0) = unat (0x80 :: byte)"
    by (simp only: word_unat_eq_iff)
  ultimately have "c AND 0xC0 = 0x80 \<longleftrightarrow> unat c div 64 * 64 = 128" by simp
  then show ?thesis by (simp only: block_64)
qed

lemma unat_join:
  assumes "unat cp < 2 ^ 26"
  shows "unat (push_bit 6 cp OR ucast ((c :: byte) AND 0x3F) :: u32) = unat cp * 64 + unat c mod 64"
proof -
  let ?x = "ucast (c AND 0x3F) :: u32"
  have x: "unat ?x = unat c mod 64"
    by (simp add: unsigned_ucast_eq byte_mask take_bit_eq_mod)
  have cp: "unat (push_bit 6 cp) = unat cp * 64"
    using assms by (simp only: unsigned_push_bit_eq) (simp add: push_bit_eq_mult take_bit_eq_mod)
  have low: "\<not> bit ?x n" if "6 \<le> n" for n
  proof -
    have "bit ?x n \<longleftrightarrow> bit (unat ?x) n" by (simp add: bit_unsigned_iff)
    moreover have "take_bit 6 (unat ?x) = unat ?x" by (simp add: x take_bit_eq_mod)
    then have "\<not> bit (unat ?x) n" using that by (metis bit_take_bit_iff not_less)
    ultimately show ?thesis by simp
  qed
  have "push_bit 6 cp AND ?x = 0"
    by (rule bit_word_eqI) (use low in \<open>auto simp: bit_and_iff bit_push_bit_iff\<close>)
  then have "push_bit 6 cp OR ?x = push_bit 6 cp + ?x"
    by (simp only: disjunctive_add_eq_or)
  moreover have "unat (push_bit 6 cp + ?x) = unat (push_bit 6 cp) + unat ?x"
    using assms by (intro unat_add_no_wrap) (simp add: cp x)
  ultimately show ?thesis by (simp add: cp x)
qed

lemma unat_byte_of_nat: "n < 256 \<Longrightarrow> unat (of_nat n :: byte) = n"
  by (simp add: unat_of_nat)

lemma unat_u32_of_nat: "n < 4294967296 \<Longrightarrow> unat (of_nat n :: u32) = n"
  by (simp add: unat_of_nat)

lemma byte_of_nat_le:
  "n < 256 \<Longrightarrow> (of_nat n :: byte) \<le> k \<longleftrightarrow> n \<le> unat k" "n < 256 \<Longrightarrow> k \<le> (of_nat n :: byte) \<longleftrightarrow> unat k \<le> n"
  by (simp_all add: word_le_nat_alt unat_byte_of_nat)

lemma ucast_mask_of_nat:
  assumes "n < 256"
  shows "(ucast ((of_nat n :: byte) AND 0x1F) :: u32) = of_nat (n mod 32)"
    "(ucast ((of_nat n :: byte) AND 0x0F) :: u32) = of_nat (n mod 16)"
    "(ucast ((of_nat n :: byte) AND 0x07) :: u32) = of_nat (n mod 8)"
  by (simp_all only: word_unat_eq_iff unsigned_ucast_eq byte_mask unat_byte_of_nat [OF assms])
    (simp_all add: unat_of_nat take_bit_eq_mod)

lemma lead_info_digits:
  "n < 128 \<Longrightarrow> lead_info (of_nat n) = Some (0, 0)"
  "2 \<le> a \<Longrightarrow> a < 32 \<Longrightarrow> lead_info (of_nat (192 + a)) = Some (1, of_nat a)"
  "a < 16 \<Longrightarrow> lead_info (of_nat (224 + a)) = Some (2, of_nat a)"
  "a < 5 \<Longrightarrow> lead_info (of_nat (240 + a)) = Some (3, of_nat a)"
proof -
  have m: "a < 32 \<Longrightarrow> (192 + a) mod 32 = a" "a < 16 \<Longrightarrow> (224 + a) mod 16 = a" "a < 5 \<Longrightarrow> (240 + a) mod 8 = a"
    using mod_mult_self3 [of 6 32 a] mod_mult_self3 [of 14 16 a] mod_mult_self3 [of 30 8 a] by simp_all
  show "n < 128 \<Longrightarrow> lead_info (of_nat n) = Some (0, 0)"
    "2 \<le> a \<Longrightarrow> a < 32 \<Longrightarrow> lead_info (of_nat (192 + a)) = Some (1, of_nat a)"
    "a < 16 \<Longrightarrow> lead_info (of_nat (224 + a)) = Some (2, of_nat a)"
    "a < 5 \<Longrightarrow> lead_info (of_nat (240 + a)) = Some (3, of_nat a)"
    by (simp_all add: lead_info_def byte_of_nat_le ucast_mask_of_nat m del: of_nat_add)
qed

lemma push_digit:
  assumes "v < 67108864" and "b < 64"
  shows "push_bit 6 (of_nat v :: u32) OR ucast ((of_nat (128 + b) :: byte) AND 0x3F) = of_nat (v * 64 + b)"
proof -
  have u: "unat (of_nat (128 + b) :: byte) = 128 + b" using assms(2) by (intro unat_byte_of_nat) simp
  have "unat (of_nat v :: u32) = v" using assms(1) by (intro unat_u32_of_nat) simp
  then have "unat (push_bit 6 (of_nat v :: u32) OR ucast ((of_nat (128 + b) :: byte) AND 0x3F)) =
      v * 64 + (128 + b) mod 64"
    using unat_join [of "of_nat v" "of_nat (128 + b)"] assms(1) u by simp
  moreover have "(128 + b) mod 64 = b" using assms(2) mod_mult_self3 [of 2 64 b] by simp
  moreover have "unat (of_nat (v * 64 + b) :: u32) = v * 64 + b"
    using assms by (intro unat_u32_of_nat) simp
  ultimately show ?thesis by (simp only: word_unat_eq_iff)
qed

lemma take_continuation:
  assumes "v < 67108864" and "b < 64"
  shows "take_continuations (of_nat (128 + b) # cs) (of_nat v) = take_continuations cs (of_nat (v * 64 + b))"
proof -
  have u: "unat (of_nat (128 + b) :: byte) = 128 + b" using assms(2) by (intro unat_byte_of_nat) simp
  have "(of_nat (128 + b) :: byte) AND 0xC0 = 0x80" unfolding continuation_byte u using assms(2) by simp
  then show ?thesis by (simp only: take_continuations.simps push_digit [OF assms]) simp
qed

declare take_continuations.simps(2) [simp del]

lemma bad_code_point_nat:
  "v < 4294967296 \<Longrightarrow> bad_code_point n (of_nat v) \<longleftrightarrow>
     (n = 2 \<and> v < 0x800) \<or> (n = 3 \<and> v < 0x10000) \<or> v > 0x10FFFF \<or> (v \<ge> 0xD800 \<and> v \<le> 0xDFFF)"
  by (simp add: bad_code_point_def word_less_nat_alt word_le_nat_alt unat_u32_of_nat)

text \<open>One step of the validator in terms of the base-64 digits of the code point.\<close>

lemma valid_step_1: "n < 128 \<Longrightarrow> valid_utf8_bytes (of_nat n # rest) = valid_utf8_bytes rest"
  by (simp add: lead_info_digits)

lemma valid_step_2:
  assumes "2 \<le> a" "a < 32" "b < 64"
  shows "valid_utf8_bytes (of_nat (192 + a) # of_nat (128 + b) # rest) = valid_utf8_bytes rest"
proof -
  have t: "take_continuations [of_nat (128 + b)] (of_nat a) = Some (of_nat (a * 64 + b))"
    using assms by (simp only: take_continuation) simp
  have "\<not> bad_code_point 1 (of_nat (a * 64 + b))"
    using assms by (subst bad_code_point_nat) auto
  then show ?thesis using assms t by (simp add: lead_info_digits del: of_nat_add of_nat_mult)
qed

lemma valid_step_3:
  assumes "a < 16" "b < 64" "c < 64"
  defines "v \<equiv> a * 4096 + b * 64 + c"
  shows "valid_utf8_bytes (of_nat (224 + a) # of_nat (128 + b) # of_nat (128 + c) # rest) \<longleftrightarrow>
     0x800 \<le> v \<and> scalar_value v \<and> valid_utf8_bytes rest"
proof -
  have t: "take_continuations [of_nat (128 + b), of_nat (128 + c)] (of_nat a) = Some (of_nat v)"
    using assms(1-3) by (simp add: take_continuation v_def mult.commute del: of_nat_add of_nat_mult)
  have "v < 65536" using assms(1-3) by (simp add: v_def)
  then have "\<not> bad_code_point 2 (of_nat v) \<longleftrightarrow> 0x800 \<le> v \<and> scalar_value v"
    by (subst bad_code_point_nat) (auto simp: scalar_value_def)
  then show ?thesis using assms(1) t by (auto simp: lead_info_digits simp del: of_nat_add of_nat_mult)
qed

lemma valid_step_4:
  assumes "a < 5" "b < 64" "c < 64" "d < 64"
  defines "v \<equiv> a * 262144 + b * 4096 + c * 64 + d"
  shows "valid_utf8_bytes (of_nat (240 + a) # of_nat (128 + b) # of_nat (128 + c) # of_nat (128 + d) # rest) \<longleftrightarrow>
     0x10000 \<le> v \<and> scalar_value v \<and> valid_utf8_bytes rest"
proof -
  have t: "take_continuations [of_nat (128 + b), of_nat (128 + c), of_nat (128 + d)] (of_nat a) = Some (of_nat v)"
    using assms(1-4) by (simp add: take_continuation v_def mult.commute del: of_nat_add of_nat_mult)
  have "v < 4294967296" using assms(1-4) by (simp add: v_def)
  then have "\<not> bad_code_point 3 (of_nat v) \<longleftrightarrow> 0x10000 \<le> v \<and> scalar_value v"
    by (subst bad_code_point_nat) (auto simp: scalar_value_def)
  then show ?thesis using assms(1) t by (auto simp: lead_info_digits simp del: of_nat_add of_nat_mult)
qed

section \<open>The validator accepts exactly UTF-8\<close>

text \<open>The encoder on base-64 digits.\<close>

lemma digit_64: "d < 64 \<Longrightarrow> (q * 64 + d) div 64 = q" "d < 64 \<Longrightarrow> (q * 64 + d) mod 64 = d"
  for q d :: nat
  by simp_all

lemma utf8_encode_digits:
  "n < 128 \<Longrightarrow> utf8_encode n = [of_nat n]"
  "2 \<le> a \<Longrightarrow> a < 32 \<Longrightarrow> b < 64 \<Longrightarrow> utf8_encode (a * 64 + b) = [of_nat (192 + a), of_nat (128 + b)]"
  "a < 16 \<Longrightarrow> b < 64 \<Longrightarrow> c < 64 \<Longrightarrow> 0x800 \<le> a * 4096 + b * 64 + c \<Longrightarrow>
     utf8_encode (a * 4096 + b * 64 + c) = [of_nat (224 + a), of_nat (128 + b), of_nat (128 + c)]"
  "a < 5 \<Longrightarrow> b < 64 \<Longrightarrow> c < 64 \<Longrightarrow> d < 64 \<Longrightarrow> 0x10000 \<le> a * 262144 + b * 4096 + c * 64 + d \<Longrightarrow>
     utf8_encode (a * 262144 + b * 4096 + c * 64 + d) =
       [of_nat (240 + a), of_nat (128 + b), of_nat (128 + c), of_nat (128 + d)]"
proof -
  show "n < 128 \<Longrightarrow> utf8_encode n = [of_nat n]" by (simp add: utf8_encode_def)
  show "2 \<le> a \<Longrightarrow> a < 32 \<Longrightarrow> b < 64 \<Longrightarrow> utf8_encode (a * 64 + b) = [of_nat (192 + a), of_nat (128 + b)]"
    by (simp add: utf8_encode_def)
  assume lt: "b < 64" "c < 64"
  show "utf8_encode (a * 4096 + b * 64 + c) = [of_nat (224 + a), of_nat (128 + b), of_nat (128 + c)]"
    if "a < 16" "0x800 \<le> a * 4096 + b * 64 + c"
  proof -
    define v where "v = a * 4096 + b * 64 + c"
    have v: "v = (a * 64 + b) * 64 + c" by (simp add: v_def)
    have "v div 64 = a * 64 + b" "v mod 64 = c" using lt by (simp_all only: v digit_64)
    moreover have "v div 4096 = (v div 64) div 64" by (simp add: div_mult2_eq [of v 64 64, simplified])
    ultimately have "v div 4096 = a" "(v div 64) mod 64 = b" "v mod 64 = c"
      using lt by (simp_all only: digit_64)
    then show ?thesis using that lt unfolding v_def [symmetric] by (simp add: utf8_encode_def v_def)
  qed
  show "utf8_encode (a * 262144 + b * 4096 + c * 64 + d) =
       [of_nat (240 + a), of_nat (128 + b), of_nat (128 + c), of_nat (128 + d)]"
    if "a < 5" "d < 64" "0x10000 \<le> a * 262144 + b * 4096 + c * 64 + d"
  proof -
    define v where "v = a * 262144 + b * 4096 + c * 64 + d"
    have v: "v = ((a * 64 + b) * 64 + c) * 64 + d" by (simp add: v_def)
    have one: "v div 64 = (a * 64 + b) * 64 + c" "v mod 64 = d" using that(2) by (simp_all only: v digit_64)
    have "v div 4096 = (v div 64) div 64" "v div 262144 = ((v div 64) div 64) div 64"
      by (simp_all add: div_mult2_eq [of v 64 64, simplified] div_mult2_eq [of v 64 4096, simplified]
          div_mult2_eq [of "v div 64" 64 64, simplified])
    then have "v div 262144 = a" "(v div 4096) mod 64 = b" "(v div 64) mod 64 = c"
      using one lt by (simp_all only: digit_64)
    then show ?thesis using that lt one unfolding v_def [symmetric] by (simp add: utf8_encode_def)
  qed
qed

text \<open>Every scalar value has such digits, so the validator steps over its encoding.\<close>

lemma scalar_digits:
  assumes "scalar_value cp"
  obtains (one) "cp < 128"
  | (two) a b where "cp = a * 64 + b" "2 \<le> a" "a < 32" "b < 64"
  | (three) a b c where "cp = a * 4096 + b * 64 + c" "a < 16" "b < 64" "c < 64" "0x800 \<le> cp"
  | (four) a b c d where "cp = a * 262144 + b * 4096 + c * 64 + d" "a < 5" "b < 64" "c < 64" "d < 64"
      "0x10000 \<le> cp"
proof -
  have q: "cp = cp div 64 * 64 + cp mod 64" by simp
  have "cp div 64 = cp div 4096 * 64 + (cp div 64) mod 64"
    using div_mult_mod_eq [of "cp div 64" 64] by (simp add: div_mult2_eq [of cp 64 64, simplified])
  then have q2: "cp = cp div 4096 * 4096 + (cp div 64) mod 64 * 64 + cp mod 64" using q by linarith
  have "cp div 4096 = cp div 262144 * 64 + (cp div 4096) mod 64"
    using div_mult_mod_eq [of "cp div 4096" 64] by (simp add: div_mult2_eq [of cp 4096 64, simplified])
  then have q3: "cp = cp div 262144 * 262144 + (cp div 4096) mod 64 * 4096 + (cp div 64) mod 64 * 64 + cp mod 64"
    using q2 by linarith
  have le: "cp \<le> 1114111" using assms by (simp add: scalar_value_def)
  consider "cp < 128" | "128 \<le> cp" "cp < 2048" | "2048 \<le> cp" "cp < 65536" | "65536 \<le> cp" by linarith
  then show thesis
  proof cases
    case 2
    then show thesis
      using two [OF q] div_less_iff_less_mult [of 64 cp 32] less_eq_div_iff_mult_less_eq [of 64 2 cp] by simp
  next
    case 3
    then show thesis using three [OF q2] div_less_iff_less_mult [of 4096 cp 16] by simp
  next
    case 4
    then show thesis using four [OF q3] div_less_iff_less_mult [of 262144 cp 5] le by simp
  qed (rule one)
qed

lemma valid_utf8_encode:
  "scalar_value cp \<Longrightarrow> valid_utf8_bytes (utf8_encode cp @ rest) = valid_utf8_bytes rest"
  by (cases rule: scalar_digits [of cp])
    (simp_all add: utf8_encode_digits valid_step_1 valid_step_2 valid_step_3 valid_step_4
      del: of_nat_add valid_utf8_bytes.simps)

lemma utf8_encode_not_Nil [simp]: "utf8_encode cp \<noteq> []"
  by (simp add: utf8_encode_def)

lemma valid_utf8_concat:
  "\<forall>cp\<in>set cps. scalar_value cp \<Longrightarrow> valid_utf8_bytes (concat (map utf8_encode cps))"
  by (induction cps) (simp_all add: valid_utf8_encode)

text \<open>Conversely, an accepted text starts with the encoding of a scalar value.\<close>

lemma continuation_digits:
  "(c :: byte) AND 0xC0 = 0x80 \<Longrightarrow> \<exists>b<64. c = of_nat (128 + b)"
  by (rule exI [of _ "unat c - 128"]) (auto simp: continuation_byte)

lemma take_continuations_cases:
  assumes "take_continuations cs cp = Some cp'"
  shows "\<forall>c\<in>set cs. \<exists>b<64. c = of_nat (128 + b)"
  using assms
proof (induction cs arbitrary: cp)
  case (Cons c cs)
  then show ?case using continuation_digits [of c] by (auto simp: take_continuations.simps split: if_splits)
qed simp

lemma byte_digits: "k \<le> unat (b :: byte) \<Longrightarrow> b = of_nat (k + (unat b - k))"
  by simp

lemma lead_info_cases:
  assumes "lead_info lead = Some (n, cp)"
  obtains (one) m where "lead = of_nat m" "m < 128" "n = 0"
  | (two) a where "lead = of_nat (192 + a)" "2 \<le> a" "a < 32" "n = 1"
  | (three) a where "lead = of_nat (224 + a)" "a < 16" "n = 2"
  | (four) a where "lead = of_nat (240 + a)" "a < 5" "n = 3"
proof -
  define m where "m = unat lead"
  have lead: "lead = of_nat m" by (simp add: m_def)
  have "m < 256" by (simp add: m_def unat_byte_less)
  then consider "m \<le> 127" "n = 0" | "194 \<le> m" "m \<le> 223" "n = 1" | "224 \<le> m" "m \<le> 239" "n = 2"
    | "240 \<le> m" "m \<le> 244" "n = 3"
    using assms by (auto simp: lead_info_def lead byte_of_nat_le split: if_splits)
  then show thesis
  proof cases
    case 1
    then show thesis using one [OF lead] by simp
  next
    case 2
    then show thesis using two [of "m - 192"] lead by simp
  next
    case 3
    then show thesis using three [of "m - 224"] lead by simp
  next
    case 4
    then show thesis using four [of "m - 240"] lead by simp
  qed
qed

lemma valid_utf8_first:
  assumes "valid_utf8_bytes bs" and "bs \<noteq> []"
  obtains cp rest where "bs = utf8_encode cp @ rest" "scalar_value cp" "valid_utf8_bytes rest"
    "length rest < length bs"
proof -
  obtain lead tl where bs: "bs = lead # tl" using assms(2) by (cases bs) auto
  obtain n cp where li: "lead_info lead = Some (n, cp)" using assms(1) bs by (auto split: option.splits)
  have long: "n \<le> length tl" using assms(1) bs li by (auto split: if_splits)
  have "take n tl = [] \<or> (\<exists>cp'. take_continuations (take n tl) cp = Some cp')"
    using assms(1) bs li by (auto split: if_splits option.splits)
  then have cont: "\<forall>c\<in>set (take n tl). \<exists>b<64. c = of_nat (128 + b)"
    using take_continuations_cases by auto
  show thesis
    using li
  proof (cases rule: lead_info_cases)
    case (one m)
    then have "scalar_value m" by (simp add: scalar_value_def)
    then show thesis
      using that [of m tl] one assms(1) bs by (simp add: utf8_encode_digits valid_step_1 del: valid_utf8_bytes.simps)
  next
    case (two a)
    then obtain c where "take n tl = [c]" using long by (cases tl) auto
    then obtain b where b: "b < 64" "take n tl = [of_nat (128 + b)]" using cont by auto
    then have tl: "tl = of_nat (128 + b) # drop n tl" by (metis append_Cons append_Nil append_take_drop_id)
    have "scalar_value (a * 64 + b)" using two b by (simp add: scalar_value_def)
    then show thesis
      using that [of "a * 64 + b" "drop n tl"] two b assms(1) tl valid_step_2 [of a b "drop n tl"]
        utf8_encode_digits(2) [of a b]
      unfolding bs by (metis append_Cons append_Nil length_append_singleton length_Cons less_Suc_eq)
  next
    case (three a)
    then obtain c d where "take n tl = [c, d]"
      using long by (cases tl; cases "List.tl tl") auto
    then obtain b c where b: "b < 64" "c < 64" "take n tl = [of_nat (128 + b), of_nat (128 + c)]"
      using cont by auto
    then have tl: "tl = of_nat (128 + b) # of_nat (128 + c) # drop n tl"
      by (metis append_Cons append_Nil append_take_drop_id)
    define v where "v = a * 4096 + b * 64 + c"
    have "0x800 \<le> v \<and> scalar_value v \<and> valid_utf8_bytes (drop n tl)"
      using valid_step_3 [of a b c "drop n tl"] assms(1) three b tl unfolding bs v_def by metis
    moreover from this have "bs = utf8_encode v @ drop n tl"
      using utf8_encode_digits(3) [of a b c] three b tl unfolding bs v_def by simp
    ultimately show thesis using that [of v "drop n tl"] bs by simp
  next
    case (four a)
    then obtain c d e where "take n tl = [c, d, e]"
      using long by (cases tl; cases "List.tl tl"; cases "List.tl (List.tl tl)") auto
    then obtain b c d where b: "b < 64" "c < 64" "d < 64"
      "take n tl = [of_nat (128 + b), of_nat (128 + c), of_nat (128 + d)]"
      using cont by auto
    then have tl: "tl = of_nat (128 + b) # of_nat (128 + c) # of_nat (128 + d) # drop n tl"
      by (metis append_Cons append_Nil append_take_drop_id)
    define v where "v = a * 262144 + b * 4096 + c * 64 + d"
    have "0x10000 \<le> v \<and> scalar_value v \<and> valid_utf8_bytes (drop n tl)"
      using valid_step_4 [of a b c d "drop n tl"] assms(1) four b tl unfolding bs v_def by metis
    moreover from this have "bs = utf8_encode v @ drop n tl"
      using utf8_encode_digits(4) [of a b c d] four b tl unfolding bs v_def by simp
    ultimately show thesis using that [of v "drop n tl"] bs by simp
  qed
qed

lemma valid_utf8_is_encoding:
  "valid_utf8_bytes bs \<Longrightarrow> \<exists>cps. (\<forall>cp\<in>set cps. scalar_value cp) \<and> bs = concat (map utf8_encode cps)"
proof (induction "length bs" arbitrary: bs rule: less_induct)
  case less
  show ?case
  proof (cases "bs = []")
    case True
    then show ?thesis by (intro exI [of _ "[]"]) simp
  next
    case False
    then obtain cp rest where first: "bs = utf8_encode cp @ rest" "scalar_value cp" "valid_utf8_bytes rest"
        "length rest < length bs"
      using valid_utf8_first [OF less.prems] by blast
    obtain cps where "\<forall>cp\<in>set cps. scalar_value cp" "rest = concat (map utf8_encode cps)"
      using less.hyps [OF first(4,3)] by blast
    then show ?thesis using first by (intro exI [of _ "cp # cps"]) simp
  qed
qed

section \<open>The counter on valid text\<close>

lemma count_width_digits:
  "n < 128 \<Longrightarrow> count_width (of_nat n) = (1, of_nat n)"
  "2 \<le> a \<Longrightarrow> a < 32 \<Longrightarrow> count_width (of_nat (192 + a)) = (2, of_nat a)"
  "a < 16 \<Longrightarrow> count_width (of_nat (224 + a)) = (3, of_nat a)"
  "a < 5 \<Longrightarrow> count_width (of_nat (240 + a)) = (4, of_nat a)"
proof -
  have m: "a < 32 \<Longrightarrow> (192 + a) mod 32 = a" "a < 16 \<Longrightarrow> (224 + a) mod 16 = a" "a < 5 \<Longrightarrow> (240 + a) mod 8 = a"
    using mod_mult_self3 [of 6 32 a] mod_mult_self3 [of 14 16 a] mod_mult_self3 [of 30 8 a] by simp_all
  have "ucast (of_nat n :: byte) = (of_nat n :: u32)" if "n < 256"
    by (simp only: word_unat_eq_iff unsigned_ucast_eq unat_byte_of_nat [OF that])
      (use that in \<open>simp add: unat_of_nat take_bit_eq_mod\<close>)
  then show "n < 128 \<Longrightarrow> count_width (of_nat n) = (1, of_nat n)"
    by (simp add: count_width_def byte_of_nat_le del: of_nat_add)
  show "2 \<le> a \<Longrightarrow> a < 32 \<Longrightarrow> count_width (of_nat (192 + a)) = (2, of_nat a)"
    "a < 16 \<Longrightarrow> count_width (of_nat (224 + a)) = (3, of_nat a)"
    "a < 5 \<Longrightarrow> count_width (of_nat (240 + a)) = (4, of_nat a)"
    by (simp_all add: count_width_def byte_of_nat_le ucast_mask_of_nat m del: of_nat_add)
qed

lemma join_continuation:
  "v < 67108864 \<Longrightarrow> b < 64 \<Longrightarrow>
     join_continuations (of_nat (128 + b) # cs) (of_nat v) = join_continuations cs (of_nat (v * 64 + b))"
  by (simp only: join_continuations_def fold_Cons comp_def push_digit)

lemma join_continuations_Nil [simp]: "join_continuations [] cp = cp"
  by (simp add: join_continuations_def)

definition non_space_width :: "nat \<Rightarrow> nat" where
  "non_space_width cp = (if is_unicode_space (of_nat cp) then 0 else length (utf8_encode cp))"

lemma count_step:
  assumes "count_width lead = (Suc (length cs), cp)" and "join_continuations cs cp = v"
  shows "count_bytes (lead # cs @ rest) =
     map_option (\<lambda>n. (if is_unicode_space v then 0 else Suc (length cs)) + n) (count_bytes rest)"
  using assms by (simp split: option.split)

lemma count_bytes_encode:
  assumes "scalar_value cp"
  shows "count_bytes (utf8_encode cp @ rest) = map_option (\<lambda>n. non_space_width cp + n) (count_bytes rest)"
  using assms
proof (cases rule: scalar_digits)
  case one
  then show ?thesis
    using count_step [of "of_nat cp" "[]" "of_nat cp" _ rest]
    by (cases "count_bytes rest")
      (simp_all add: utf8_encode_digits count_width_digits non_space_width_def del: count_bytes.simps)
next
  case (two a b)
  have "join_continuations [of_nat (128 + b)] (of_nat a) = of_nat cp"
    using two by (simp only: join_continuation) simp
  then show ?thesis
    using two count_step [of "of_nat (192 + a)" "[of_nat (128 + b)]" "of_nat a" _ rest]
    by (cases "count_bytes rest") (simp_all add: utf8_encode_digits count_width_digits non_space_width_def del: count_bytes.simps of_nat_add
        of_nat_mult)
next
  case (three a b c)
  have "join_continuations [of_nat (128 + b), of_nat (128 + c)] (of_nat a) = of_nat cp"
    using three by (simp add: join_continuation mult.commute del: of_nat_add of_nat_mult)
  then show ?thesis
    using three utf8_encode_digits(3) [of a b c]
      count_step [of "of_nat (224 + a)" "[of_nat (128 + b), of_nat (128 + c)]" "of_nat a" _ rest]
    by (cases "count_bytes rest") (simp_all add: count_width_digits non_space_width_def del: count_bytes.simps of_nat_add of_nat_mult)
next
  case (four a b c d)
  have "join_continuations [of_nat (128 + b), of_nat (128 + c), of_nat (128 + d)] (of_nat a) = of_nat cp"
    using four by (simp add: join_continuation mult.commute del: of_nat_add of_nat_mult)
  then show ?thesis
    using four utf8_encode_digits(4) [of a b c d]
      count_step [of "of_nat (240 + a)" "[of_nat (128 + b), of_nat (128 + c), of_nat (128 + d)]" "of_nat a" _ rest]
    by (cases "count_bytes rest") (simp_all add: count_width_digits non_space_width_def del: count_bytes.simps of_nat_add of_nat_mult)
qed

lemma count_bytes_concat:
  "\<forall>cp\<in>set cps. scalar_value cp \<Longrightarrow>
     count_bytes (concat (map utf8_encode cps)) = Some (sum_list (map non_space_width cps))"
  by (induction cps) (simp_all add: count_bytes_encode)

section \<open>Properties of the text routines\<close>

text \<open>C24. The validator accepts exactly the UTF-8 encodings of sequences of Unicode scalar values:
  overlong forms, surrogates, values above U+10FFFF and truncated sequences are all rejected, and
  nothing else is.\<close>

theorem is_valid_utf8_iff_encoding:
  "is_valid_utf8 s \<longleftrightarrow>
     (\<exists>cps. (\<forall>cp\<in>set cps. scalar_value cp) \<and> map char_byte s = concat (map utf8_encode cps))"
  unfolding is_valid_utf8_def using valid_utf8_is_encoding valid_utf8_concat by metis

theorem is_valid_utf8_iff_encoding_witness:
  "is_valid_utf8 (map byte_char (concat (map utf8_encode [0x41, 0x20AC, 0x1F600])))"
  unfolding is_valid_utf8_iff_encoding
  by (rule exI [of _ "[0x41, 0x20AC, 0x1F600]"]) (simp add: scalar_value_def comp_def)

text \<open>On every text the validator accepts, the counter, which trusts the lead bytes, never reads
  past the end and returns the number of bytes of the code points that are not Unicode spaces.\<close>

theorem count_non_space_correct:
  assumes "\<forall>cp\<in>set cps. scalar_value cp" and "map char_byte s = concat (map utf8_encode cps)"
  shows "count_non_space_utf8_bytes s =
     Some (sum_list (map (\<lambda>cp. if is_unicode_space (of_nat cp) then 0 else length (utf8_encode cp)) cps))"
  using count_bytes_concat [OF assms(1)] assms(2)
  by (simp add: count_non_space_utf8_bytes_def non_space_width_def [abs_def])

theorem count_non_space_correct_witness:
  "count_non_space_utf8_bytes (map byte_char (concat (map utf8_encode [0x41, 0x20, 0x20AC]))) = Some 4"
  using count_non_space_correct [of "[0x41, 0x20, 0x20AC]"
      "map byte_char (concat (map utf8_encode [0x41, 0x20, 0x20AC]))"]
  by (simp add: scalar_value_def utf8_encode_def is_unicode_space_def comp_def)

end
