(* ===== verification/Client_Types.thy ===== *)
theory Client_Types
  imports Session_Lifecycle Utf8_Text
begin

text \<open>
  The request, callback and error structures of \<open>src/qwen_tts_bridge/client/client_types.hpp\<close>, the
  private structures of \<open>QwenTtsClient\<close>, the sample arithmetic and the text preparation of
  \<open>qwen_tts_client.cpp\<close>. User-supplied functions (the text preparer, the text preprocessor, the
  callbacks) are arguments: a hook is its function with the ways it can end, a callback is whether
  it is set, and its invocation is an entry of the client's log.
\<close>

section \<open>Structures\<close>

record TextPreparationWarning =
  tw_code :: string
  tw_message :: string
  tw_offset :: nat
  tw_length :: nat

record TextStressDecision =
  ts_word :: string
  ts_stressed_vowel :: "nat option"
  ts_from_dictionary :: bool
  ts_reason :: string

text \<open>\<open>TtsSamplingOptions\<close> has the members of the control message's sampling options.\<close>

record TtsRequest =
  rq_id :: RequestId
  rq_text :: string
  rq_language :: string
  rq_speaker :: string
  rq_instruction :: string
  rq_voice_id :: string
  rq_reference_audio_path :: string
  rq_reference_text :: string
  rq_x_vector_only :: bool
  rq_has_seed :: bool
  rq_seed :: u64
  rq_sampling :: SynthesisSamplingOptions
  rq_output :: AudioFormat

record PreparedText =
  pt_original_text :: string
  pt_effective_text :: string
  pt_utf8_bytes :: nat
  pt_non_space_utf8_bytes :: nat
  pt_was_modified :: bool
  pt_normalized_text :: string
  pt_pronunciation_text :: string
  pt_warnings :: "TextPreparationWarning list"
  pt_stress_decisions :: "TextStressDecision list"
  pt_has_uncertainty :: bool

record PreparedTtsRequest =
  pr_request :: TtsRequest
  pr_text :: PreparedText

record TtsError =
  te_request_id :: RequestId
  te_category :: string
  te_code :: string
  te_message :: string

record TtsCompletion =
  tc_execution_outcome :: string
  tc_has_generation_trace :: bool
  tc_trace :: GenerationTrace

record TtsCallbacks =
  on_text_prepared :: bool
  on_audio :: bool
  on_timing :: bool
  on_completed :: bool
  on_completion_metadata :: bool
  on_cancelled :: bool
  on_error :: bool

datatype CallbackCall =
    TextPreparedCall PreparedText
  | AudioCall PcmChunk
  | TimingCall SpeechTimingChunk
  | CompletionMetadataCall TtsCompletion
  | CompletedCall
  | CancelledCall
  | ErrorCall TtsError

definition default_prepared_text :: PreparedText where
  "default_prepared_text = \<lparr>pt_original_text = '''', pt_effective_text = '''', pt_utf8_bytes = 0,
     pt_non_space_utf8_bytes = 0, pt_was_modified = False, pt_normalized_text = '''',
     pt_pronunciation_text = '''', pt_warnings = [], pt_stress_decisions = [], pt_has_uncertainty = False\<rparr>"

definition default_request :: TtsRequest where
  "default_request = \<lparr>rq_id = 0, rq_text = '''', rq_language = ''auto'', rq_speaker = '''',
     rq_instruction = '''', rq_voice_id = '''', rq_reference_audio_path = '''', rq_reference_text = '''',
     rq_x_vector_only = False, rq_has_seed = False, rq_seed = 0, rq_sampling = default_sampling,
     rq_output = default_audio_format\<rparr>"

section \<open>Sample arithmetic\<close>

definition bytes_per_sample :: "AudioFormat \<Rightarrow> nat option" where
  "bytes_per_sample f =
     (if sample_format f = ''u8'' then Some 1
      else if sample_format f = ''s16le'' then Some 2
      else if sample_format f = ''s24le'' then Some 3
      else if sample_format f = ''s32le'' \<or> sample_format f = ''f32le'' then Some 4
      else None)"

text \<open>The product of at most 4 bytes and a 32-bit channel count does not wrap in a 64-bit \<open>size_t\<close>.\<close>

definition sample_count_for_audio :: "AudioFormat \<Rightarrow> nat \<Rightarrow> u32 option" where
  "sample_count_for_audio f byte_count =
     (case bytes_per_sample f of
        None \<Rightarrow> None
      | Some sample_bytes \<Rightarrow>
          if channels f = 0 then None
          else
            (let frame_bytes = sample_bytes * unat (channels f) in
             if frame_bytes = 0 \<or> byte_count mod frame_bytes \<noteq> 0 then None
             else if byte_count div frame_bytes > unat (- 1 :: u32) then None
             else Some (of_nat (byte_count div frame_bytes))))"

lemma frame_bytes_fit: "bytes_per_sample f = Some n \<Longrightarrow> n * unat (channels f) < 2 ^ 64"
  using unat_u32_less [of "channels f"]
  by (auto simp: bytes_per_sample_def split: if_splits)

lemma sample_count_exact:
  assumes "sample_count_for_audio f n = Some c"
  shows "\<exists>sb. bytes_per_sample f = Some sb \<and> n = unat c * (sb * unat (channels f))"
proof -
  obtain sb where sb: "bytes_per_sample f = Some sb"
    using assms by (auto simp: sample_count_for_audio_def split: option.splits)
  define fb where "fb = sb * unat (channels f)"
  have "n mod fb = 0" "n div fb \<le> 4294967295" "c = of_nat (n div fb)"
    using assms sb by (auto simp: sample_count_for_audio_def fb_def Let_def split: if_splits)
  moreover from this have "unat c = n div fb" by (simp add: unat_of_nat)
  ultimately have "n = unat c * fb" using div_mult_mod_eq [of n fb] by simp
  then show ?thesis using sb by (simp add: fb_def)
qed

section \<open>Text preparation\<close>

definition make_local_error :: "RequestId \<Rightarrow> string \<Rightarrow> string \<Rightarrow> string \<Rightarrow> TtsError" where
  "make_local_error rid cat cd msg =
     \<lparr>te_request_id = rid, te_category = cat, te_code = cd, te_message = msg\<rparr>"

text \<open>The counter is run on valid UTF-8 only, where it has a result.\<close>

definition refresh_prepared_text_metrics :: "PreparedText \<Rightarrow> PreparedText" where
  "refresh_prepared_text_metrics p =
     p\<lparr>pt_utf8_bytes := length (pt_effective_text p),
       pt_non_space_utf8_bytes :=
         (case count_non_space_utf8_bytes (pt_effective_text p) of Some n \<Rightarrow> n | None \<Rightarrow> 0),
       pt_was_modified := (pt_original_text p \<noteq> pt_effective_text p)\<rparr>"

definition to_control_message :: "TtsRequest \<Rightarrow> SynthesizeMessage" where
  "to_control_message r =
     \<lparr>sy_text = rq_text r, sy_language = rq_language r, sy_speaker = rq_speaker r,
      sy_instruction = rq_instruction r, sy_voice_id = rq_voice_id r,
      sy_reference_audio_path = rq_reference_audio_path r, sy_reference_text = rq_reference_text r,
      sy_x_vector_only = rq_x_vector_only r, sy_has_seed = rq_has_seed r, sy_seed = rq_seed r,
      sy_sampling = rq_sampling r, sy_output = rq_output r\<rparr>"

text \<open>How a hook ends: it returns, it returns \<open>false\<close> with an error, or it throws, a
  \<open>std::exception\<close> with its text or something else.\<close>

datatype PreparerOutcome = Prepared PreparedText | PreparerFailed TtsError | PreparerThrew "string option"

record QwenTtsClientOptions =
  co_session :: WorkerSessionOptions
  max_outbound_commands :: nat
  max_outbound_command_bytes :: nat
  text_preparer :: "(TtsRequest \<Rightarrow> PreparerOutcome) option"
  text_preprocessor :: "(TtsRequest \<Rightarrow> string option + string) option"

definition preprocessing_threw :: "RequestId \<Rightarrow> string option \<Rightarrow> TtsError" where
  "preprocessing_threw rid what =
     make_local_error rid ''client_error'' ''text_preprocessing_failed''
       (''text preprocessing failed: '' @ (case what of Some w \<Rightarrow> w | None \<Rightarrow> ''unknown exception''))"

definition check_prepared :: "TtsRequest \<Rightarrow> PreparedText \<Rightarrow> TtsError + PreparedText" where
  "check_prepared r p =
     (if pt_original_text p \<noteq> rq_text r then
        Inl (make_local_error (rq_id r) ''client_error'' ''prepared_text_mismatch''
          ''structured text preparation returned a mismatched source text'')
      else if \<not> is_valid_utf8 (pt_effective_text p) then
        Inl (make_local_error (rq_id r) ''client_error'' ''invalid_utf8_text''
          ''text preparation returned invalid UTF-8'')
      else if pt_effective_text p = [] then
        Inl (make_local_error (rq_id r) ''request_error'' ''empty_text''
          ''synthesis text is empty after preprocessing'')
      else Inr (refresh_prepared_text_metrics p))"

definition prepare_text :: "QwenTtsClientOptions \<Rightarrow> TtsRequest \<Rightarrow> TtsError + PreparedText" where
  "prepare_text options r =
     (case text_preparer options of
        Some hook \<Rightarrow>
          (case hook r of
             PreparerFailed e \<Rightarrow>
               Inl (if te_code e = [] then
                      make_local_error (rq_id r) ''client_error'' ''text_preprocessing_failed''
                        ''structured text preparation failed''
                    else e)
           | PreparerThrew what \<Rightarrow> Inl (preprocessing_threw (rq_id r) what)
           | Prepared p \<Rightarrow> check_prepared r p)
      | None \<Rightarrow>
          (case (case text_preprocessor options of Some hook \<Rightarrow> hook r | None \<Rightarrow> Inr (rq_text r)) of
             Inl what \<Rightarrow> Inl (preprocessing_threw (rq_id r) what)
           | Inr processed \<Rightarrow>
               if \<not> is_valid_utf8 processed then
                 Inl (make_local_error (rq_id r) ''client_error'' ''invalid_utf8_text''
                   ''text preprocessing returned invalid UTF-8'')
               else if processed = [] then
                 Inl (make_local_error (rq_id r) ''request_error'' ''empty_text''
                   ''synthesis text is empty after preprocessing'')
               else
                 Inr (refresh_prepared_text_metrics
                   (default_prepared_text\<lparr>pt_original_text := rq_text r, pt_effective_text := processed\<rparr>))))"

lemma refresh_effective [simp]:
  "pt_effective_text (refresh_prepared_text_metrics p) = pt_effective_text p"
  "pt_original_text (refresh_prepared_text_metrics p) = pt_original_text p"
  by (simp_all add: refresh_prepared_text_metrics_def)

end
