(* ===== verification/Qwen_Client.thy ===== *)
theory Qwen_Client
  imports Client_Types
begin

text \<open>
  \<open>src/qwen_tts_bridge/client/qwen_tts_client.cpp\<close>: the asynchronous client. The record holds the
  members of the class, the callbacks the dispatcher thread has collected but not yet invoked
  (\<open>cl_pending\<close>), and the callbacks invoked since the last start (\<open>cl_log\<close>). Each critical section of
  the API calls, the writer thread and the dispatcher thread is one operation; callbacks are
  invoked outside the lock, one by one, so that other operations, also those a callback itself
  calls, come in between. The hash map of the active requests is an association list; the order
  in which \<open>fail_all_requests\<close> visits it is the list's, and no theorem depends on it.
\<close>

section \<open>State\<close>

record ActiveRequest =
  ar_callbacks :: TtsCallbacks
  ar_audio_format :: AudioFormat
  ar_prepared_text :: "PreparedText option"
  ar_next_sample :: u64
  ar_text_context_delivered :: bool

record OutboundCommand =
  oc_request_id :: RequestId
  oc_message :: ControlMessage
  oc_queued_bytes :: nat

record QwenTtsClient =
  cl_session :: "WorkerSession option"
  cl_options :: QwenTtsClientOptions
  cl_active :: "(RequestId \<times> ActiveRequest) list"
  cl_outbound :: "OutboundCommand list"
  cl_outbound_bytes :: nat
  cl_writer_joinable :: bool
  cl_dispatcher_joinable :: bool
  cl_next_request_id :: RequestId
  cl_running :: bool
  cl_stopping :: bool
  cl_failure_handled :: bool
  cl_late_audio :: u64
  cl_duplicate_terminal :: u64
  cl_pending :: "(RequestId \<times> CallbackCall) list"
  cl_log :: "(RequestId \<times> CallbackCall) list"

definition new_client :: "QwenTtsClientOptions \<Rightarrow> QwenTtsClient" where
  "new_client options =
     \<lparr>cl_session = None, cl_options = options, cl_active = [], cl_outbound = [], cl_outbound_bytes = 0,
      cl_writer_joinable = False, cl_dispatcher_joinable = False, cl_next_request_id = 1,
      cl_running = False, cl_stopping = False, cl_failure_handled = False, cl_late_audio = 0,
      cl_duplicate_terminal = 0, cl_pending = [], cl_log = []\<rparr>"

definition defer_calls :: "(RequestId \<times> CallbackCall) list \<Rightarrow> QwenTtsClient \<Rightarrow> QwenTtsClient" where
  "defer_calls calls c = c\<lparr>cl_pending := cl_pending c @ calls\<rparr>"

definition invoke_calls :: "(RequestId \<times> CallbackCall) list \<Rightarrow> QwenTtsClient \<Rightarrow> QwenTtsClient" where
  "invoke_calls calls c = c\<lparr>cl_log := cl_log c @ calls\<rparr>"

section \<open>The outbound queue\<close>

definition outbound_command_fixed_overhead :: nat where
  "outbound_command_fixed_overhead = 64"

fun outbound_command_size :: "ControlMessage \<Rightarrow> nat" where
  "outbound_command_size (HelloM m) =
     outbound_command_fixed_overhead + length (client_name m) + length (client_version m)"
| "outbound_command_size (SynthesizeM m) =
     outbound_command_fixed_overhead + length (sy_text m) + length (sy_language m) + length (sy_speaker m) +
     length (sy_instruction m) + length (sy_voice_id m) + length (sy_reference_audio_path m) +
     length (sy_reference_text m) + length (sample_format (sy_output m)) + (if sy_has_seed m then 32 else 0)"
| "outbound_command_size (ShutdownM m) = outbound_command_fixed_overhead + length (mode m)"
| "outbound_command_size m = outbound_command_fixed_overhead"

definition push_command :: "OutboundCommand \<Rightarrow> QwenTtsClient \<Rightarrow> QwenTtsClient" where
  "push_command cmd c =
     c\<lparr>cl_outbound_bytes := cl_outbound_bytes c + oc_queued_bytes cmd, cl_outbound := cl_outbound c @ [cmd]\<rparr>"

definition pop_command :: "QwenTtsClient \<Rightarrow> (OutboundCommand \<times> QwenTtsClient) option" where
  "pop_command c =
     (case cl_outbound c of
        [] \<Rightarrow> None
      | cmd # cmds \<Rightarrow>
          Some (cmd, c\<lparr>cl_outbound_bytes := saturating_sub (cl_outbound_bytes c) (oc_queued_bytes cmd),
                       cl_outbound := cmds\<rparr>))"

definition enqueue_outbound_locked :: "RequestId \<Rightarrow> ControlMessage \<Rightarrow> QwenTtsClient \<Rightarrow> bool \<times> QwenTtsClient" where
  "enqueue_outbound_locked rid m c =
     (let command_bytes = outbound_command_size m in
      if length (cl_outbound c) \<ge> max_outbound_commands (cl_options c) then (False, c)
      else if command_bytes > max_outbound_command_bytes (cl_options c) \<or>
              cl_outbound_bytes c > max_outbound_command_bytes (cl_options c) - command_bytes then (False, c)
      else (True, push_command \<lparr>oc_request_id = rid, oc_message = m, oc_queued_bytes = command_bytes\<rparr> c))"

definition clear_outbound_queue_locked :: "QwenTtsClient \<Rightarrow> QwenTtsClient" where
  "clear_outbound_queue_locked c = c\<lparr>cl_outbound := [], cl_outbound_bytes := 0\<rparr>"

interpretation outbound_queue:
  accounted_queue cl_outbound cl_outbound_bytes oc_queued_bytes push_command pop_command
  by unfold_locales (auto simp: push_command_def pop_command_def saturating_sub_eq)

section \<open>Submission and cancellation\<close>

definition allocate_request_id_locked :: "RequestId \<Rightarrow> QwenTtsClient \<Rightarrow> RequestId \<times> QwenTtsClient" where
  "allocate_request_id_locked requested c =
     (let nxt = cl_next_request_id c in
      if nxt = 0 then (0, c)
      else if requested \<noteq> 0 then
        (if requested < nxt \<or> map_of (cl_active c) requested \<noteq> None then (0, c)
         else (requested, c\<lparr>cl_next_request_id := (if requested = - 1 then 0 else requested + 1)\<rparr>))
      else (nxt, c\<lparr>cl_next_request_id := (if nxt = - 1 then 0 else nxt + 1)\<rparr>))"

definition accepting :: "QwenTtsClient \<Rightarrow> bool" where
  "accepting c \<longleftrightarrow> cl_running c \<and> \<not> cl_stopping c \<and> cl_session c \<noteq> None"

text \<open>A rejection before a request exists is reported through the callback of the submission and
  belongs to no request.\<close>

definition reject_call :: "TtsCallbacks \<Rightarrow> TtsError \<Rightarrow> QwenTtsClient \<Rightarrow> QwenTtsClient" where
  "reject_call cbs e c = (if on_error cbs then invoke_calls [(0, ErrorCall e)] c else c)"

definition new_active :: "TtsCallbacks \<Rightarrow> TtsRequest \<Rightarrow> PreparedText \<Rightarrow> ActiveRequest" where
  "new_active cbs r p =
     \<lparr>ar_callbacks = cbs, ar_audio_format = rq_output r, ar_prepared_text = Some p, ar_next_sample = 0,
      ar_text_context_delivered = False\<rparr>"

definition synthesize_prepared ::
  "json_dump \<Rightarrow> PreparedTtsRequest \<Rightarrow> TtsCallbacks \<Rightarrow> QwenTtsClient \<Rightarrow> RequestId \<times> QwenTtsClient" where
  "synthesize_prepared jd preq cbs c =
     (let r = pr_request preq; p = pr_text preq in
      if pt_original_text p \<noteq> rq_text r then
        (0, reject_call cbs (make_local_error (rq_id r) ''client_error'' ''prepared_text_mismatch''
           ''prepared text does not match the request source text'') c)
      else if pt_effective_text p = [] \<or> \<not> is_valid_utf8 (pt_effective_text p) then
        (0, reject_call cbs (make_local_error (rq_id r) ''client_error'' ''invalid_prepared_text''
           ''prepared text must be non-empty valid UTF-8'') c)
      else
        (let p = refresh_prepared_text_metrics p;
             r = r\<lparr>rq_text := pt_effective_text p\<rparr>;
             m = SynthesizeM (to_control_message r)
         in
         if je_error (encode_control_message jd m) \<noteq> CCE_None then (0, c)
         else if \<not> accepting c then (0, c)
         else
           (let (rid, c) = allocate_request_id_locked (rq_id r) c in
            if rid = 0 then (0, c)
            else
              (let c1 = c\<lparr>cl_active := (if map_of (cl_active c) rid = None
                                       then (rid, new_active cbs r p) # cl_active c else cl_active c)\<rparr>;
                   (queued, c2) = enqueue_outbound_locked rid m c1
               in if \<not> queued then (0, c2\<lparr>cl_active := assoc_erase rid (cl_active c2)\<rparr>) else (rid, c2)))))"

definition synthesize_async ::
  "json_dump \<Rightarrow> TtsRequest \<Rightarrow> TtsCallbacks \<Rightarrow> QwenTtsClient \<Rightarrow> RequestId \<times> QwenTtsClient" where
  "synthesize_async jd r cbs c =
     (case prepare_text (cl_options c) r of
        Inl e \<Rightarrow> (0, reject_call cbs e c)
      | Inr p \<Rightarrow> synthesize_prepared jd \<lparr>pr_request = r, pr_text = p\<rparr> cbs c)"

definition synthesize_text ::
  "json_dump \<Rightarrow> string \<Rightarrow> TtsCallbacks \<Rightarrow> QwenTtsClient \<Rightarrow> RequestId \<times> QwenTtsClient" where
  "synthesize_text jd t cbs c = synthesize_async jd (default_request\<lparr>rq_text := t\<rparr>) cbs c"

definition cancel :: "RequestId \<Rightarrow> QwenTtsClient \<Rightarrow> bool \<times> QwenTtsClient" where
  "cancel rid c =
     (if rid = 0 then (False, c)
      else if \<not> accepting c \<or> map_of (cl_active c) rid = None then (False, c)
      else enqueue_outbound_locked rid CancelM c)"

section \<open>The writer thread\<close>

text \<open>One round of the loop: take the next command and hand it to the session, with the answer of
  the transport.\<close>

definition writer_step ::
  "json_dump \<Rightarrow> json_parse \<Rightarrow> bool \<Rightarrow> SendEnv \<Rightarrow> QwenTtsClient \<Rightarrow> QwenTtsClient" where
  "writer_step jd jp transport_running env c =
     (case pop_command c of
        None \<Rightarrow> c
      | Some (cmd, c') \<Rightarrow>
          (case cl_session c' of
             None \<Rightarrow> c'
           | Some s \<Rightarrow>
               c'\<lparr>cl_session := Some (snd (send_control jd jp transport_running env (oc_request_id cmd)
                                   (oc_message cmd) s))\<rparr>))"

section \<open>Terminal events\<close>

definition count_duplicate :: "QwenTtsClient \<Rightarrow> QwenTtsClient" where
  "count_duplicate c = c\<lparr>cl_duplicate_terminal := cl_duplicate_terminal c + 1\<rparr>"

text \<open>The critical section shared by \<open>complete_request\<close>, \<open>cancel_request_locally\<close> and \<open>fail_request\<close>: the
  request is removed and its callbacks are taken, or the event is counted as a duplicate.\<close>

definition finish_request ::
  "RequestId \<Rightarrow> (TtsCallbacks \<Rightarrow> CallbackCall list) \<Rightarrow> QwenTtsClient \<Rightarrow> QwenTtsClient" where
  "finish_request rid calls c =
     (case map_of (cl_active c) rid of
        None \<Rightarrow> count_duplicate c
      | Some ar \<Rightarrow>
          defer_calls (map (\<lambda>call. (rid, call)) (calls (ar_callbacks ar)))
            (c\<lparr>cl_active := assoc_erase rid (cl_active c)\<rparr>))"

definition completion_of :: "CompletedMessage \<Rightarrow> TtsCompletion" where
  "completion_of m =
     \<lparr>tc_execution_outcome = execution_outcome m, tc_has_generation_trace = has_generation_trace m,
      tc_trace = generation_trace m\<rparr>"

definition complete_request :: "RequestId \<Rightarrow> CompletedMessage \<Rightarrow> QwenTtsClient \<Rightarrow> QwenTtsClient" where
  "complete_request rid m =
     finish_request rid (\<lambda>cbs.
       (if on_completion_metadata cbs then [CompletionMetadataCall (completion_of m)] else []) @
       (if on_completed cbs then [CompletedCall] else []))"

definition cancel_request_locally :: "RequestId \<Rightarrow> QwenTtsClient \<Rightarrow> QwenTtsClient" where
  "cancel_request_locally rid =
     finish_request rid (\<lambda>cbs. if on_cancelled cbs then [CancelledCall] else [])"

definition fail_request :: "RequestId \<Rightarrow> TtsError \<Rightarrow> QwenTtsClient \<Rightarrow> QwenTtsClient" where
  "fail_request rid e =
     finish_request rid (\<lambda>cbs. if on_error cbs then [ErrorCall e] else [])"

definition failure_calls :: "TtsError \<Rightarrow> (RequestId \<times> ActiveRequest) list \<Rightarrow> (RequestId \<times> CallbackCall) list" where
  "failure_calls e active =
     concat (map (\<lambda>(rid, ar).
       if on_error (ar_callbacks ar)
       then [(rid, ErrorCall (if te_request_id e = 0 then e\<lparr>te_request_id := rid\<rparr> else e))]
       else []) active)"

text \<open>\<open>fail_all_requests\<close> on the dispatcher thread, and when called by \<open>stop\<close>.\<close>

definition fail_all_deferred :: "TtsError \<Rightarrow> QwenTtsClient \<Rightarrow> QwenTtsClient" where
  "fail_all_deferred e c = defer_calls (failure_calls e (cl_active c)) (c\<lparr>cl_active := []\<rparr>)"

definition fail_all_now :: "TtsError \<Rightarrow> QwenTtsClient \<Rightarrow> QwenTtsClient" where
  "fail_all_now e c = invoke_calls (failure_calls e (cl_active c)) (c\<lparr>cl_active := []\<rparr>)"

section \<open>The dispatcher thread\<close>

definition deliver_text :: "RequestId \<Rightarrow> ActiveRequest \<Rightarrow> (RequestId \<times> CallbackCall) list" where
  "deliver_text rid ar =
     (case ar_prepared_text ar of
        Some p \<Rightarrow>
          if \<not> ar_text_context_delivered ar \<and> on_text_prepared (ar_callbacks ar)
          then [(rid, TextPreparedCall p)] else []
      | None \<Rightarrow> [])"

definition mark_delivered :: "ActiveRequest \<Rightarrow> ActiveRequest" where
  "mark_delivered ar = (if ar_prepared_text ar \<noteq> None then ar\<lparr>ar_text_context_delivered := True\<rparr> else ar)"

definition handle_started :: "RequestId \<Rightarrow> StartedMessage \<Rightarrow> QwenTtsClient \<Rightarrow> QwenTtsClient" where
  "handle_started rid m c =
     (case map_of (cl_active c) rid of
        None \<Rightarrow> c
      | Some ar \<Rightarrow>
          defer_calls (deliver_text rid ar)
            (c\<lparr>cl_active := assoc_modify rid
                (\<lambda>ar. mark_delivered (ar\<lparr>ar_audio_format := started_format m\<rparr>)) (cl_active c)\<rparr>))"

definition handle_control_event :: "RequestId \<Rightarrow> ControlMessage \<Rightarrow> QwenTtsClient \<Rightarrow> QwenTtsClient" where
  "handle_control_event rid m c =
     (case m of
        StartedM x \<Rightarrow> handle_started rid x c
      | CompletedM x \<Rightarrow> complete_request rid x c
      | CancelledM \<Rightarrow> cancel_request_locally rid c
      | _ \<Rightarrow> c)"

definition audio_chunk :: "RequestId \<Rightarrow> ActiveRequest \<Rightarrow> byte list \<Rightarrow> u32 \<Rightarrow> PcmChunk" where
  "audio_chunk rid ar bytes count =
     \<lparr>pcm_request_id = rid, pcm_format = ar_audio_format ar, pcm_bytes = bytes,
      first_sample = ar_next_sample ar, sample_count = count\<rparr>"

definition audio_calls :: "ActiveRequest \<Rightarrow> PcmChunk \<Rightarrow> CallbackCall list" where
  "audio_calls ar chunk =
     (if pcm_bytes chunk = [] then []
      else
        (if on_audio (ar_callbacks ar) then [AudioCall chunk] else []) @
        (if on_timing (ar_callbacks ar) \<and> sample_count chunk \<noteq> 0
         then [TimingCall \<lparr>st_request_id = pcm_request_id chunk, st_first_sample = first_sample chunk,
                 st_sample_count = sample_count chunk, st_sample_rate = sample_rate (pcm_format chunk)\<rparr>]
         else []))"

definition handle_audio_event :: "RequestId \<Rightarrow> byte list \<Rightarrow> QwenTtsClient \<Rightarrow> QwenTtsClient" where
  "handle_audio_event rid audio c =
     (case map_of (cl_active c) rid of
        None \<Rightarrow> c\<lparr>cl_late_audio := cl_late_audio c + 1\<rparr>
      | Some ar \<Rightarrow>
          (let count = sample_count_for_audio (ar_audio_format ar) (length audio) in
           if audio \<noteq> [] \<and> count = None then
             fail_request rid (make_local_error rid ''protocol_error'' ''invalid_audio_timeline''
               ''worker audio payload has an unsupported format or incomplete sample frame'') c
           else
             (let samples = (case count of Some n \<Rightarrow> n | None \<Rightarrow> 0) in
              defer_calls (deliver_text rid ar @
                  map (\<lambda>call. (rid, call)) (audio_calls ar (audio_chunk rid ar audio samples)))
                (c\<lparr>cl_active := assoc_modify rid
                    (\<lambda>ar. (mark_delivered ar)\<lparr>ar_next_sample := ar_next_sample ar + ucast samples\<rparr>)
                    (cl_active c)\<rparr>))))"

definition handle_worker_error :: "RequestId \<Rightarrow> ErrorMessage \<Rightarrow> QwenTtsClient \<Rightarrow> QwenTtsClient" where
  "handle_worker_error rid m c =
     (let e = \<lparr>te_request_id = rid, te_category = category m, te_code = code m, te_message = err_message m\<rparr> in
      if rid = 0 then fail_all_deferred e c else fail_request rid e c)"

definition stop_session ::
  "json_dump \<Rightarrow> json_parse \<Rightarrow> StopEnv \<Rightarrow> QwenTtsClient \<Rightarrow> QwenTtsClient" where
  "stop_session jd jp env c =
     (case cl_session c of None \<Rightarrow> c | Some s \<Rightarrow> c\<lparr>cl_session := Some (session_stop jd jp env s)\<rparr>)"

definition handle_local_error ::
  "json_dump \<Rightarrow> json_parse \<Rightarrow> StopEnv \<Rightarrow> WorkerSessionEvent \<Rightarrow> string \<Rightarrow> string \<Rightarrow> QwenTtsClient \<Rightarrow> QwenTtsClient" where
  "handle_local_error jd jp env ev cat cd c =
     (if cl_failure_handled c then c
      else
        (let c = clear_outbound_queue_locked
                   (c\<lparr>cl_failure_handled := True, cl_running := False, cl_stopping := True\<rparr>);
             c = stop_session jd jp env c;
             msg = (if ev_message ev = [] then cd else ev_message ev)
         in fail_all_deferred (make_local_error (ev_request_id ev) cat cd msg) c))"

definition handle_event ::
  "json_dump \<Rightarrow> json_parse \<Rightarrow> StopEnv \<Rightarrow> WorkerSessionEvent \<Rightarrow> QwenTtsClient \<Rightarrow> QwenTtsClient" where
  "handle_event jd jp env ev c =
     (case ev_type ev of
        Ev_Control \<Rightarrow> handle_control_event (ev_request_id ev) (ev_control ev) c
      | Ev_Audio \<Rightarrow> handle_audio_event (ev_request_id ev) (ev_audio ev) c
      | Ev_WorkerError \<Rightarrow> handle_worker_error (ev_request_id ev) (ev_error ev) c
      | Ev_TransportError \<Rightarrow> handle_local_error jd jp env ev ''transport_error'' ''transport_error'' c
      | Ev_ProtocolError \<Rightarrow> handle_local_error jd jp env ev ''protocol_error'' ''protocol_error'' c
      | Ev_SessionError \<Rightarrow> handle_local_error jd jp env ev ''session_error'' ''session_error'' c
      | Ev_Exited \<Rightarrow> handle_local_error jd jp env ev ''transport_error'' ''worker_exited'' c)"

text \<open>One round of the dispatcher loop: it takes the next event once the callbacks of the previous
  one have been invoked.\<close>

definition dispatcher_step ::
  "json_dump \<Rightarrow> json_parse \<Rightarrow> StopEnv \<Rightarrow> QwenTtsClient \<Rightarrow> QwenTtsClient" where
  "dispatcher_step jd jp env c =
     (if cl_pending c \<noteq> [] then c
      else
        (case cl_session c of
           None \<Rightarrow> c
         | Some s \<Rightarrow>
             (case pop_event s of
                None \<Rightarrow> c
              | Some (ev, s') \<Rightarrow> handle_event jd jp env ev (c\<lparr>cl_session := Some s'\<rparr>))))"

text \<open>\<open>invoke_user_callback\<close> returns whatever the callback does: an exception it throws is caught and
  reported to the diagnostic hook, whose exceptions are dropped.\<close>

definition invoke_user_callback :: "QwenTtsClient \<Rightarrow> QwenTtsClient" where
  "invoke_user_callback c =
     (case cl_pending c of
        [] \<Rightarrow> c
      | call # calls \<Rightarrow> invoke_calls [call] (c\<lparr>cl_pending := calls\<rparr>))"

section \<open>Start and stop\<close>

text \<open>\<open>join_threads\<close>: a thread is not joined from itself.\<close>

definition join_threads :: "bool \<Rightarrow> QwenTtsClient \<Rightarrow> QwenTtsClient" where
  "join_threads from_dispatcher c =
     c\<lparr>cl_writer_joinable := False,
       cl_dispatcher_joinable := cl_dispatcher_joinable c \<and> from_dispatcher\<rparr>"

definition begin_client_stop :: "QwenTtsClient \<Rightarrow> QwenTtsClient" where
  "begin_client_stop c = clear_outbound_queue_locked (c\<lparr>cl_running := False, cl_stopping := True\<rparr>)"

definition client_stopped_error :: TtsError where
  "client_stopped_error = make_local_error 0 ''client_error'' ''client_stopped''
     ''QwenTtsClient stopped before request reached a terminal event''"

definition finish_client_stop :: "bool \<Rightarrow> QwenTtsClient \<Rightarrow> QwenTtsClient" where
  "finish_client_stop from_dispatcher c =
     (let c = fail_all_now client_stopped_error (join_threads from_dispatcher c) in
      if \<not> cl_writer_joinable c \<and> (\<not> cl_dispatcher_joinable c \<or> from_dispatcher) then
        clear_outbound_queue_locked (c\<lparr>cl_session := None, cl_stopping := False, cl_running := False,
          cl_failure_handled := False\<rparr>)
      else c)"

definition reap_finished_threads :: "QwenTtsClient \<Rightarrow> QwenTtsClient" where
  "reap_finished_threads c =
     (let c = join_threads False c in
      if \<not> cl_running c \<and> \<not> cl_stopping c \<and> \<not> cl_writer_joinable c \<and> \<not> cl_dispatcher_joinable c then
        clear_outbound_queue_locked (c\<lparr>cl_session := None, cl_failure_handled := False\<rparr>)
      else c)"

text \<open>\<open>start\<close> with a transport (present or null), the behaviour of the session's environment, and
  whether the threads could be created; a failure there ends in \<open>stop\<close>.\<close>

definition client_start ::
  "json_dump \<Rightarrow> json_parse \<Rightarrow> bool \<Rightarrow> StartEnv \<Rightarrow> bool \<Rightarrow> QwenTtsClientOptions \<Rightarrow> QwenTtsClient \<Rightarrow>
     bool \<times> QwenTtsClient" where
  "client_start jd jp has_transport env threads_started options c =
     (if \<not> has_transport \<or> max_outbound_commands options = 0 \<or> max_outbound_command_bytes options = 0
      then (False, c)
      else if cl_running c \<or> cl_stopping c then (False, c)
      else
        (let c = reap_finished_threads c in
         if cl_running c \<or> cl_stopping c \<or> cl_session c \<noteq> None \<or> cl_writer_joinable c \<or>
            cl_dispatcher_joinable c then (False, c)
         else
           (let (started, s) = session_start jd jp env (new_session True (co_session options)) in
            if \<not> started then (False, c)
            else
              (let c = clear_outbound_queue_locked (c\<lparr>cl_options := options, cl_session := Some s,
                     cl_active := [], cl_next_request_id := 1, cl_running := True, cl_stopping := False,
                     cl_failure_handled := False, cl_late_audio := 0, cl_duplicate_terminal := 0,
                     cl_pending := [], cl_log := []\<rparr>)
               in
               if threads_started then
                 (True, c\<lparr>cl_writer_joinable := True, cl_dispatcher_joinable := True\<rparr>)
               else
                 (False, finish_client_stop False
                    (stop_session jd jp (startup_stop env) (begin_client_stop c)))))))"

definition is_running :: "QwenTtsClient \<Rightarrow> bool" where
  "is_running c \<longleftrightarrow> accepting c"

definition client_ready_message :: "QwenTtsClient \<Rightarrow> ReadyMessage option" where
  "client_ready_message c =
     (if \<not> accepting c then None
      else case cl_session c of None \<Rightarrow> None | Some s \<Rightarrow> ready_message s)"

definition available_voice_ids :: "QwenTtsClient \<Rightarrow> string list" where
  "available_voice_ids c =
     (if \<not> accepting c then []
      else case cl_session c of
        None \<Rightarrow> []
      | Some s \<Rightarrow> (case ready_message s of None \<Rightarrow> [] | Some m \<Rightarrow> voice_ids m))"

end
