(* ===== verification/Client_Protocol.thy ===== *)
theory Client_Protocol
  imports Qwen_Client
begin

text \<open>
  The client as an interleaving of its operations, and the life of a single request as a small
  state machine that every interleaving follows. The machine is the specification of what a user
  sees of one request; the refinement lemma \<open>client_action_request_step\<close> relates the two.
\<close>

section \<open>Interleavings\<close>

datatype ClientAction =
    Submit TtsRequest TtsCallbacks
  | SubmitPrepared PreparedTtsRequest TtsCallbacks
  | CancelRequest RequestId
  | WriterStep bool SendEnv
  | DispatcherStep StopEnv
  | InvokeCallback
  | SessionStep SessionAction
  | StopBegin
  | StopSession StopEnv
  | StopFinish bool

text \<open>\<open>stop\<close> is the sequence \<open>StopBegin\<close>, \<open>StopSession\<close>, \<open>StopFinish\<close>. Called from outside, it joins the
  dispatcher first, which returns when the pending callbacks have been invoked; called from a
  callback (\<open>StopFinish True\<close>), it does not wait for them.\<close>

fun client_action :: "json_dump \<Rightarrow> json_parse \<Rightarrow> ClientAction \<Rightarrow> QwenTtsClient \<Rightarrow> QwenTtsClient" where
  "client_action jd jp (Submit r cbs) c = snd (synthesize_async jd r cbs c)"
| "client_action jd jp (SubmitPrepared pr cbs) c = snd (synthesize_prepared jd pr cbs c)"
| "client_action jd jp (CancelRequest rid) c = snd (cancel rid c)"
| "client_action jd jp (WriterStep running env) c = writer_step jd jp running env c"
| "client_action jd jp (DispatcherStep env) c = dispatcher_step jd jp env c"
| "client_action jd jp InvokeCallback c = invoke_user_callback c"
| "client_action jd jp (SessionStep a) c =
     (case cl_session c of None \<Rightarrow> c | Some s \<Rightarrow> c\<lparr>cl_session := Some (session_action jp a s)\<rparr>)"
| "client_action jd jp StopBegin c = begin_client_stop c"
| "client_action jd jp (StopSession env) c = stop_session jd jp env c"
| "client_action jd jp (StopFinish from_dispatcher) c =
     (if from_dispatcher \<or> cl_pending c = [] then finish_client_stop from_dispatcher c else c)"

definition client_run :: "json_dump \<Rightarrow> json_parse \<Rightarrow> ClientAction list \<Rightarrow> QwenTtsClient \<Rightarrow> QwenTtsClient" where
  "client_run jd jp acts c = fold (client_action jd jp) acts c"

inductive client_reachable :: "json_dump \<Rightarrow> json_parse \<Rightarrow> QwenTtsClient \<Rightarrow> bool" for jd jp where
  started: "client_start jd jp True env True options c = (True, c') \<Longrightarrow> client_reachable jd jp c'"
| action: "client_reachable jd jp c \<Longrightarrow> client_reachable jd jp (client_action jd jp a c)"

section \<open>What an operation does to the requests\<close>

text \<open>The part of the client that decides what users see.\<close>

definition all_calls :: "QwenTtsClient \<Rightarrow> (RequestId \<times> CallbackCall) list" where
  "all_calls c = cl_log c @ cl_pending c"

definition same_requests :: "QwenTtsClient \<Rightarrow> QwenTtsClient \<Rightarrow> bool" where
  "same_requests c c' \<longleftrightarrow> cl_active c' = cl_active c \<and> cl_next_request_id c' = cl_next_request_id c \<and>
     all_calls c' = all_calls c"

lemma same_requests_refl [simp]: "same_requests c c"
  by (simp add: same_requests_def)

lemma same_requests_enqueue: "same_requests c (snd (enqueue_outbound_locked rid m c))"
  by (simp add: same_requests_def enqueue_outbound_locked_def push_command_def all_calls_def Let_def)

lemma same_requests_plain:
  "same_requests c (snd (cancel rid c))" "same_requests c (writer_step jd jp b env c)"
  "same_requests c (invoke_user_callback c)" "same_requests c (begin_client_stop c)"
  "same_requests c (stop_session jd jp senv c)" "same_requests c (clear_outbound_queue_locked c)"
  using same_requests_enqueue [of c rid CancelM]
  by (simp_all add: cancel_def writer_step_def pop_command_def invoke_user_callback_def invoke_calls_def
      begin_client_stop_def clear_outbound_queue_locked_def stop_session_def same_requests_def all_calls_def
      split: list.split option.split)

definition id_used :: "QwenTtsClient \<Rightarrow> RequestId \<Rightarrow> bool" where
  "id_used c rid \<longleftrightarrow> rid \<noteq> 0 \<and> (cl_next_request_id c = 0 \<or> rid < cl_next_request_id c)"

definition ids_ok :: "QwenTtsClient \<Rightarrow> bool" where
  "ids_ok c \<longleftrightarrow> distinct (map fst (cl_active c)) \<and> (\<forall>rid\<in>fst ` set (cl_active c). id_used c rid) \<and>
     (\<forall>rid\<in>fst ` set (all_calls c). rid = 0 \<or> id_used c rid)"

lemma ids_ok_same: "same_requests c c' \<Longrightarrow> ids_ok c \<Longrightarrow> ids_ok c'"
  by (simp add: ids_ok_def same_requests_def id_used_def)

lemma ids_ok_keys:
  assumes "ids_ok c" "distinct (map fst (cl_active c'))" "fst ` set (cl_active c') \<subseteq> fst ` set (cl_active c)"
    "fst ` set (all_calls c') \<subseteq> fst ` set (all_calls c) \<union> fst ` set (cl_active c)"
    "\<And>rid. id_used c rid \<Longrightarrow> id_used c' rid"
  shows "ids_ok c'"
proof -
  have "rid = 0 \<or> id_used c' rid" if "rid \<in> fst ` set (all_calls c')" for rid
    using that assms(1,4,5) by (meson UnE ids_ok_def subsetD)
  moreover have "id_used c' rid" if "rid \<in> fst ` set (cl_active c')" for rid
    using that assms(1,3,5) by (meson ids_ok_def subsetD)
  ultimately show ?thesis using assms(2) by (simp add: ids_ok_def)
qed

lemma allocate_request_id:
  assumes "allocate_request_id_locked requested c = (rid, c')"
  shows "rid = 0 \<and> c' = c \<or>
     rid \<noteq> 0 \<and> cl_next_request_id c \<noteq> 0 \<and> cl_next_request_id c \<le> rid \<and> \<not> id_used c rid \<and> id_used c' rid \<and>
     (cl_next_request_id c' = 0 \<or> cl_next_request_id c' = rid + 1 \<and> rid < rid + 1) \<and>
     c' = c\<lparr>cl_next_request_id := cl_next_request_id c'\<rparr> \<and> cl_active c' = cl_active c \<and> all_calls c' = all_calls c"
  using assms by (auto simp: all_calls_def allocate_request_id_locked_def id_used_def Let_def word_succ_greater split: if_splits)

section \<open>The life of a request\<close>

definition calls_for :: "RequestId \<Rightarrow> (RequestId \<times> CallbackCall) list \<Rightarrow> CallbackCall list" where
  "calls_for rid calls = map snd (filter (\<lambda>p. fst p = rid) calls)"

type_synonym RequestView = "ActiveRequest option \<times> CallbackCall list"

definition request_view :: "RequestId \<Rightarrow> QwenTtsClient \<Rightarrow> RequestView" where
  "request_view rid c = (map_of (cl_active c) rid, calls_for rid (all_calls c))"

definition text_calls :: "ActiveRequest \<Rightarrow> CallbackCall list" where
  "text_calls ar =
     (case ar_prepared_text ar of
        Some p \<Rightarrow>
          if \<not> ar_text_context_delivered ar \<and> on_text_prepared (ar_callbacks ar)
          then [TextPreparedCall p] else []
      | None \<Rightarrow> [])"

text \<open>How a request can end: completed, cancelled or failed, through the callbacks that are set.\<close>

inductive ends_with :: "TtsCallbacks \<Rightarrow> CallbackCall list \<Rightarrow> bool" where
  completed: "ends_with cbs
     ((if on_completion_metadata cbs then [CompletionMetadataCall m] else []) @
      (if on_completed cbs then [CompletedCall] else []))"
| cancelled: "ends_with cbs (if on_cancelled cbs then [CancelledCall] else [])"
| failed: "ends_with cbs (if on_error cbs then [ErrorCall e] else [])"

inductive request_step :: "RequestId \<Rightarrow> RequestView \<Rightarrow> RequestView \<Rightarrow> bool" for rid where
  stay: "request_step rid v v"
| accept: "request_step rid (None, []) (Some (new_active cbs r p), [])"
| started: "request_step rid (Some ar, cs)
     (Some (mark_delivered (ar\<lparr>ar_audio_format := f\<rparr>)), cs @ text_calls ar)"
| audio: "count = sample_count_for_audio (ar_audio_format ar) (length bytes) \<Longrightarrow>
     bytes \<noteq> [] \<longrightarrow> count \<noteq> None \<Longrightarrow> samples = (case count of Some n \<Rightarrow> n | None \<Rightarrow> 0) \<Longrightarrow>
     request_step rid (Some ar, cs)
       (Some ((mark_delivered ar)\<lparr>ar_next_sample := ar_next_sample ar + ucast samples\<rparr>),
        cs @ text_calls ar @ audio_calls ar (audio_chunk rid ar bytes samples))"
| finish: "ends_with (ar_callbacks ar) ts \<Longrightarrow> request_step rid (Some ar, xs @ ys) (None, xs @ ts @ ys)"

inductive_cases request_step_None: "request_step rid (None, cs) v"

lemma calls_for_append [simp]: "calls_for rid (xs @ ys) = calls_for rid xs @ calls_for rid ys"
  by (simp add: calls_for_def)

lemma calls_for_map [simp]: "calls_for rid (map (\<lambda>call. (r, call)) cs) = (if r = rid then cs else [])"
  by (induction cs) (auto simp: calls_for_def)

lemma calls_for_deliver_text: "calls_for rid (deliver_text r ar) = (if r = rid then text_calls ar else [])"
  by (simp add: deliver_text_def text_calls_def calls_for_def split: option.split)

lemma view_same: "same_requests c c' \<Longrightarrow> request_view rid c' = request_view rid c"
  by (simp add: request_view_def same_requests_def)

lemma view_defer:
  "request_view rid (defer_calls calls c) =
     (fst (request_view rid c), snd (request_view rid c) @ calls_for rid calls)"
  by (simp add: request_view_def defer_calls_def all_calls_def)

lemma view_active:
  "request_view rid (c\<lparr>cl_active := as\<rparr>) = (map_of as rid, snd (request_view rid c))"
  by (simp add: request_view_def all_calls_def)

lemma calls_for_failure:
  "distinct (map fst active) \<Longrightarrow> calls_for rid (failure_calls e active) =
     (case map_of active rid of
        None \<Rightarrow> []
      | Some ar \<Rightarrow>
          if on_error (ar_callbacks ar)
          then [ErrorCall (if te_request_id e = 0 then e\<lparr>te_request_id := rid\<rparr> else e)] else [])"
proof (induction active)
  case (Cons p active)
  have "calls_for rid (failure_calls e (p # active)) =
      (if fst p = rid \<and> on_error (ar_callbacks (snd p))
       then [ErrorCall (if te_request_id e = 0 then e\<lparr>te_request_id := rid\<rparr> else e)] else []) @
      calls_for rid (failure_calls e active)"
    by (cases p) (simp add: failure_calls_def calls_for_def)
  moreover have "map_of active rid = None" if "fst p = rid"
    using that Cons.prems by (simp add: map_of_eq_None_iff)
  ultimately show ?case
    using Cons by (cases p; cases "fst p = rid") simp_all
qed (simp add: failure_calls_def calls_for_def)

lemma step_finish_request:
  assumes "\<And>cbs. ends_with cbs (calls cbs)"
  shows "request_step rid (request_view rid c) (request_view rid (finish_request r calls c))"
proof (cases "map_of (cl_active c) r")
  case None
  then have "same_requests c (finish_request r calls c)"
    by (simp add: finish_request_def count_duplicate_def same_requests_def all_calls_def)
  then show ?thesis by (simp add: view_same request_step.stay)
next
  case (Some ar)
  show ?thesis
  proof (cases "r = rid")
    case True
    then show ?thesis
      using Some assms request_step.finish [of ar "calls (ar_callbacks ar)" rid "snd (request_view rid c)" "[]"]
      by (simp add: finish_request_def view_defer view_active map_of_assoc_erase)
        (simp add: request_view_def)
  next
    case False
    then show ?thesis
      using Some by (simp add: finish_request_def view_defer view_active map_of_assoc_erase)
        (simp add: request_view_def request_step.stay)
  qed
qed

lemma step_terminal_events:
  "request_step rid (request_view rid c) (request_view rid (complete_request r m c))"
  "request_step rid (request_view rid c) (request_view rid (cancel_request_locally r c))"
  "request_step rid (request_view rid c) (request_view rid (fail_request r e c))"
  unfolding complete_request_def cancel_request_locally_def fail_request_def
  by (rule step_finish_request, rule ends_with.intros)+

lemma step_fail_all:
  assumes "distinct (map fst (cl_active c))"
  shows "request_step rid (request_view rid c) (request_view rid (fail_all_deferred e c))"
    "request_step rid (request_view rid c) (request_view rid (fail_all_now e c))"
proof -
  let ?e = "if te_request_id e = 0 then e\<lparr>te_request_id := rid\<rparr> else e"
  have "request_step rid (request_view rid c) (None, xs @ calls_for rid (failure_calls e (cl_active c)) @ ys)"
    if "snd (request_view rid c) = xs @ ys" for xs ys
  proof (cases "map_of (cl_active c) rid")
    case None
    then show ?thesis
      using that calls_for_failure [OF assms, of rid e] by (simp add: request_view_def request_step.stay)
  next
    case (Some ar)
    then show ?thesis
      using that calls_for_failure [OF assms, of rid e]
        request_step.finish [OF ends_with.failed [of "ar_callbacks ar" ?e], of rid xs ys]
      by (simp add: request_view_def)
  qed
  from this [of _ "[]"] this [of "calls_for rid (cl_log c)" "calls_for rid (cl_pending c)"]
  show "request_step rid (request_view rid c) (request_view rid (fail_all_deferred e c))"
    "request_step rid (request_view rid c) (request_view rid (fail_all_now e c))"
    by (simp_all add: fail_all_deferred_def view_defer view_active fail_all_now_def invoke_calls_def)
      (simp_all add: request_view_def all_calls_def)
qed

lemma step_handle_started:
  "request_step rid (request_view rid c) (request_view rid (handle_started r m c))"
proof (cases "map_of (cl_active c) r")
  case (Some ar)
  then show ?thesis
    using request_step.started [of rid ar "snd (request_view rid c)" "started_format m"]
    by (cases "r = rid")
      (simp_all add: handle_started_def view_defer view_active map_of_assoc_modify calls_for_deliver_text,
       simp_all add: request_view_def request_step.stay)
qed (simp add: handle_started_def request_step.stay)

lemma step_handle_audio_event:
  "request_step rid (request_view rid c) (request_view rid (handle_audio_event r bytes c))"
proof (cases "map_of (cl_active c) r")
  case (Some ar)
  let ?count = "sample_count_for_audio (ar_audio_format ar) (length bytes)"
  let ?n = "case ?count of Some n \<Rightarrow> n | None \<Rightarrow> 0"
  show ?thesis
  proof (cases "bytes \<noteq> [] \<and> ?count = None")
    case True
    with Some show ?thesis by (simp add: handle_audio_event_def step_terminal_events)
  next
    case False
    with Some have "handle_audio_event r bytes c =
        defer_calls (deliver_text r ar @ map (\<lambda>call. (r, call)) (audio_calls ar (audio_chunk r ar bytes ?n)))
          (c\<lparr>cl_active := assoc_modify r
              (\<lambda>ar. (mark_delivered ar)\<lparr>ar_next_sample := ar_next_sample ar + ucast ?n\<rparr>) (cl_active c)\<rparr>)"
      by (simp only: handle_audio_event_def Let_def option.case if_False if_not_P)
    moreover have "bytes \<noteq> [] \<longrightarrow> ?count \<noteq> None"
      using False by auto
    note request_step.audio [OF refl this refl, of rid "snd (request_view rid c)"]
    ultimately show ?thesis
      using Some
      by (cases "r = rid")
        (simp_all add: view_defer view_active map_of_assoc_modify calls_for_deliver_text,
         simp_all add: request_view_def request_step.stay)
  qed
qed (simp add: handle_audio_event_def request_view_def all_calls_def request_step.stay)

lemma step_handle_event:
  assumes "distinct (map fst (cl_active c))"
  shows "request_step rid (request_view rid c) (request_view rid (handle_event jd jp env ev c))"
proof -
  have local: "request_step rid (request_view rid c) (request_view rid (handle_local_error jd jp env ev cat cd c))"
    for cat cd
  proof (cases "cl_failure_handled c")
    case False
    let ?c = "stop_session jd jp env (clear_outbound_queue_locked
                (c\<lparr>cl_failure_handled := True, cl_running := False, cl_stopping := True\<rparr>))"
    have "same_requests c ?c"
      by (simp add: same_requests_def stop_session_def clear_outbound_queue_locked_def all_calls_def
          split: option.split)
    then show ?thesis
      using False assms step_fail_all(1) [of ?c rid]
      by (simp add: handle_local_error_def Let_def view_same) (simp add: same_requests_def)
  qed (simp add: handle_local_error_def request_step.stay)
  show ?thesis
    using assms by (cases "ev_type ev"; cases "ev_control ev")
      (simp_all add: handle_event_def local handle_control_event_def handle_worker_error_def
        step_handle_started step_handle_audio_event step_terminal_events step_fail_all request_step.stay Let_def)
qed

section \<open>Submission\<close>

lemma assoc_erase_fresh: "k \<notin> fst ` set kvs \<Longrightarrow> assoc_erase k kvs = kvs"
  by (auto simp: assoc_erase_def filter_id_conv)

lemma assoc_erase_Cons [simp]: "assoc_erase k ((k, v) # kvs) = assoc_erase k kvs"
  by (simp add: assoc_erase_def)

lemma enqueue_outbound_eq:
  "fst (enqueue_outbound_locked rid m c) \<Longrightarrow> snd (enqueue_outbound_locked rid m c) =
     push_command \<lparr>oc_request_id = rid, oc_message = m, oc_queued_bytes = outbound_command_size m\<rparr> c"
  "\<not> fst (enqueue_outbound_locked rid m c) \<Longrightarrow> snd (enqueue_outbound_locked rid m c) = c"
  by (auto simp: enqueue_outbound_locked_def Let_def split: if_splits)

lemma synthesize_prepared_cases:
  assumes "ids_ok c" "synthesize_prepared jd pr cbs c = (rid, c')"
  obtains (refused) e where "rid = 0" "c' = c \<or> c' = reject_call cbs e c"
  | (dropped) r where "rid = 0" "allocate_request_id_locked (rq_id (pr_request pr)) c = (r, c')" "r \<noteq> 0"
  | (accepted) c1 rq p m where "allocate_request_id_locked (rq_id (pr_request pr)) c = (rid, c1)" "rid \<noteq> 0"
      "rq = (pr_request pr)\<lparr>rq_text := pt_effective_text (pr_text pr)\<rparr>"
      "p = refresh_prepared_text_metrics (pr_text pr)" "m = SynthesizeM (to_control_message rq)"
      "je_error (encode_control_message jd m) = CCE_None" "accepting c"
      "c' = push_command \<lparr>oc_request_id = rid, oc_message = m, oc_queued_bytes = outbound_command_size m\<rparr>
              (c1\<lparr>cl_active := (rid, new_active cbs rq p) # cl_active c\<rparr>)"
proof -
  let ?p = "refresh_prepared_text_metrics (pr_text pr)"
  let ?r = "(pr_request pr)\<lparr>rq_text := pt_effective_text (pr_text pr)\<rparr>"
  let ?m = "SynthesizeM (to_control_message ?r)"
  obtain r c1 where alloc: "allocate_request_id_locked (rq_id (pr_request pr)) c = (r, c1)" by fastforce
  show thesis
  proof (cases "\<exists>e. rid = 0 \<and> (c' = c \<or> c' = reject_call cbs e c)")
    case True
    then show thesis using refused by blast
  next
    case False
    then have r: "r \<noteq> 0" "je_error (encode_control_message jd ?m) = CCE_None" "accepting c" and main:
      "(rid, c') = (let c2 = c1\<lparr>cl_active := (if map_of (cl_active c1) r = None
                       then (r, new_active cbs ?r ?p) # cl_active c1 else cl_active c1)\<rparr>;
                     (queued, c3) = enqueue_outbound_locked r ?m c2
                 in if \<not> queued then (0, c3\<lparr>cl_active := assoc_erase r (cl_active c3)\<rparr>) else (r, c3))"
      using assms(2) alloc allocate_request_id [OF alloc]
      by (auto simp: synthesize_prepared_def Let_def split: if_splits prod.splits)
    have fresh: "map_of (cl_active c1) r = None" "r \<notin> fst ` set (cl_active c1)" and acts: "cl_active c1 = cl_active c"
      using allocate_request_id [OF alloc] r assms(1) by (auto simp: ids_ok_def map_of_eq_None_iff)
    let ?c2 = "c1\<lparr>cl_active := (r, new_active cbs ?r ?p) # cl_active c\<rparr>"
    have main: "(rid, c') = (if fst (enqueue_outbound_locked r ?m ?c2) then (r, snd (enqueue_outbound_locked r ?m ?c2))
        else (0, (snd (enqueue_outbound_locked r ?m ?c2))
               \<lparr>cl_active := assoc_erase r (cl_active (snd (enqueue_outbound_locked r ?m ?c2)))\<rparr>))"
      using main fresh(1) acts by (simp add: Let_def split_beta)
    show thesis
    proof (cases "fst (enqueue_outbound_locked r ?m ?c2)")
      case True
      with main have eqs: "rid = r" "c' = snd (enqueue_outbound_locked r ?m ?c2)"
        by (simp_all only: if_True prod.inject)
      show thesis
        by (rule accepted [of c1 ?r ?p ?m]) (use alloc r True eqs enqueue_outbound_eq(1) in \<open>simp_all only: not_False_eq_True\<close>)
    next
      case False
      with main have "rid = 0" "c' = ?c2\<lparr>cl_active := cl_active c1\<rparr>"
        using fresh(2) acts by (simp_all add: enqueue_outbound_eq(2) assoc_erase_fresh)
      moreover have "?c2\<lparr>cl_active := cl_active c1\<rparr> = c1" by simp
      ultimately show thesis using alloc r by (intro dropped) simp_all
    qed
  qed
qed

lemma accepted_requests:
  assumes "c' = push_command cmd (c1\<lparr>cl_active := as\<rparr>)"
  shows "cl_active c' = as" "all_calls c' = all_calls c1" "cl_next_request_id c' = cl_next_request_id c1"
  using assms by (simp_all add: push_command_def all_calls_def)

lemma id_used_mono:
  "allocate_request_id_locked q c = (r, c1) \<Longrightarrow> id_used c rid \<Longrightarrow> id_used c1 rid"
  using allocate_request_id [of q c r c1] by (auto simp: id_used_def)

lemma ids_ok_reject: "ids_ok c \<Longrightarrow> ids_ok (reject_call cbs e c)"
  by (auto simp: reject_call_def invoke_calls_def ids_ok_def all_calls_def id_used_def)

lemma ids_ok_synthesize_prepared:
  assumes "ids_ok c"
  shows "ids_ok (snd (synthesize_prepared jd pr cbs c))"
proof -
  obtain rid c' where sp: "synthesize_prepared jd pr cbs c = (rid, c')" by fastforce
  from assms sp have "ids_ok c'"
  proof (cases rule: synthesize_prepared_cases)
    case refused
    then show ?thesis using assms ids_ok_reject by blast
  next
    case (dropped r)
    have "cl_active c' = cl_active c \<and> all_calls c' = all_calls c"
      using allocate_request_id [OF dropped(2)] dropped(3) by blast
    then show ?thesis
      using assms id_used_mono [OF dropped(2)] by (intro ids_ok_keys [of c c']) (auto simp: ids_ok_def)
  next
    case (accepted c1 rq p m)
    note reqs = accepted_requests [OF accepted(8)]
    have "id_used c' r = id_used c1 r" for r using reqs by (simp add: id_used_def)
    then show ?thesis
      using reqs allocate_request_id [OF accepted(1)] accepted(2) id_used_mono [OF accepted(1)] assms
      by (auto simp: ids_ok_def)
  qed
  with sp show ?thesis by simp
qed

lemma step_synthesize_prepared:
  assumes "ids_ok c" "rid \<noteq> 0"
  shows "request_step rid (request_view rid c) (request_view rid (snd (synthesize_prepared jd pr cbs c)))"
proof -
  obtain r c' where sp: "synthesize_prepared jd pr cbs c = (r, c')" by fastforce
  from assms(1) sp have "request_step rid (request_view rid c) (request_view rid c')"
  proof (cases rule: synthesize_prepared_cases)
    case (refused e)
    then show ?thesis
      using assms(2) by (auto simp: reject_call_def invoke_calls_def request_view_def all_calls_def
          calls_for_def intro: request_step.stay)
  next
    case (dropped r')
    then show ?thesis
      using allocate_request_id [OF dropped(2)] by (auto simp: request_view_def intro: request_step.stay)
  next
    case (accepted c1 rq p m)
    note reqs = accepted_requests [OF accepted(8)]
    have "map_of (cl_active c) r = None \<and> calls_for r (all_calls c) = []"
      using allocate_request_id [OF accepted(1)] accepted(2) assms(1)
      by (auto simp: ids_ok_def map_of_eq_None_iff calls_for_def filter_empty_conv)
    then show ?thesis
      using reqs allocate_request_id [OF accepted(1)] accepted(2)
      by (auto simp: request_view_def intro: request_step.stay request_step.accept)
  qed
  with sp show ?thesis by simp
qed

section \<open>Every action keeps the identifiers apart and follows the request machine\<close>

lemma keys_failure_calls: "fst ` set (failure_calls e active) \<subseteq> fst ` set active"
proof (induction active)
  case (Cons p active)
  have "fst ` set (failure_calls e (p # active)) \<subseteq> insert (fst p) (fst ` set (failure_calls e active))"
    by (cases p) (auto simp: failure_calls_def simp del: set_concat)
  also have "\<dots> \<subseteq> fst ` set (p # active)" using Cons by (simp add: subset_insertI2)
  finally show ?case .
qed (simp add: failure_calls_def)

lemma ids_ok_defer:
  assumes "ids_ok c" "distinct (map fst as)" "fst ` set as \<subseteq> fst ` set (cl_active c)"
    "fst ` set calls \<subseteq> fst ` set (cl_active c)"
  shows "ids_ok (defer_calls calls (c\<lparr>cl_active := as\<rparr>))" "ids_ok (invoke_calls calls (c\<lparr>cl_active := as\<rparr>))"
proof -
  have "ids_ok c'" if "cl_active c' = as" "cl_next_request_id c' = cl_next_request_id c"
    "set (all_calls c') = set (all_calls c) \<union> set calls" for c'
    using assms that by (intro ids_ok_keys [OF assms(1)]) (simp_all add: image_Un id_used_def le_supI2)
  then show "ids_ok (defer_calls calls (c\<lparr>cl_active := as\<rparr>))" "ids_ok (invoke_calls calls (c\<lparr>cl_active := as\<rparr>))"
    by (simp_all add: defer_calls_def invoke_calls_def all_calls_def Un_ac)
qed

lemma ids_ok_fail_all:
  assumes "ids_ok c"
  shows "ids_ok (fail_all_deferred e c)" "ids_ok (fail_all_now e c)"
  using ids_ok_defer [OF assms, of "[]" "failure_calls e (cl_active c)"] keys_failure_calls
  by (simp_all add: fail_all_deferred_def fail_all_now_def)

lemma key_of: "map_of kvs k = Some v \<Longrightarrow> k \<in> fst ` set kvs"
  by (metis domI dom_map_of_conv_image_fst)

lemma ids_ok_finish_request:
  assumes "ids_ok c"
  shows "ids_ok (finish_request r calls c)"
proof (cases "map_of (cl_active c) r")
  case None
  then show ?thesis
    using ids_ok_same [OF _ assms] by (simp add: finish_request_def count_duplicate_def same_requests_def all_calls_def)
next
  case (Some ar)
  have "distinct (map fst (cl_active c))" using assms by (simp add: ids_ok_def)
  then have "ids_ok (defer_calls (map (\<lambda>call. (r, call)) (calls (ar_callbacks ar)))
      (c\<lparr>cl_active := assoc_erase r (cl_active c)\<rparr>))"
    using key_of [OF Some]
    by (intro ids_ok_defer(1) [OF assms])
      (simp_all add: keys_assoc_erase distinct_assoc_erase image_image image_constant_conv)
  with Some show ?thesis by (simp add: finish_request_def)
qed

lemma keys_set_assoc_modify [simp]: "fst ` set (assoc_modify k f kvs) = fst ` set kvs"
  by (metis keys_assoc_modify set_map)

lemma keys_deliver_text: "fst ` set (deliver_text r ar) \<subseteq> {r}"
  by (auto simp: deliver_text_def split: option.split)

lemma ids_ok_request_events:
  assumes "ids_ok c"
  shows "ids_ok (handle_started r m c)" "ids_ok (handle_audio_event r bytes c)"
proof -
  have "ids_ok (defer_calls (deliver_text r ar @ map (\<lambda>call. (r, call)) calls) (c\<lparr>cl_active := assoc_modify r f (cl_active c)\<rparr>))"
    if "map_of (cl_active c) r = Some ar" for ar calls f
    using that key_of [OF that] keys_deliver_text [of r ar] assms
    by (intro ids_ok_defer) (auto simp: ids_ok_def image_Un image_image)
  from this [where calls = "[]"] this
  show "ids_ok (handle_started r m c)" "ids_ok (handle_audio_event r bytes c)"
    using assms ids_ok_finish_request [OF assms] ids_ok_same [of c "c\<lparr>cl_late_audio := cl_late_audio c + 1\<rparr>"]
    by (simp_all add: handle_started_def handle_audio_event_def Let_def fail_request_def same_requests_def
        all_calls_def split: option.split)
qed

lemma ids_ok_handle_event:
  assumes "ids_ok c"
  shows "ids_ok (handle_event jd jp env ev c)"
proof -
  have "ids_ok (handle_local_error jd jp env ev cat cd c)" for cat cd
  proof -
    have "same_requests c (stop_session jd jp env (clear_outbound_queue_locked
                (c\<lparr>cl_failure_handled := True, cl_running := False, cl_stopping := True\<rparr>)))"
      by (simp add: same_requests_def stop_session_def clear_outbound_queue_locked_def all_calls_def
          split: option.split)
    from ids_ok_same [OF this assms] show ?thesis
      using assms by (simp add: handle_local_error_def Let_def ids_ok_fail_all)
  qed
  with assms show ?thesis
    by (cases "ev_type ev"; cases "ev_control ev")
      (simp_all add: handle_event_def handle_control_event_def handle_worker_error_def ids_ok_request_events
        ids_ok_fail_all complete_request_def cancel_request_locally_def fail_request_def ids_ok_finish_request Let_def)
qed

lemma same_requests_session: "same_requests c (c\<lparr>cl_session := s\<rparr>)"
  by (simp add: same_requests_def all_calls_def)

lemma same_requests_finish_client_stop:
  "same_requests (fail_all_now client_stopped_error c) (finish_client_stop from_dispatcher c)"
  by (simp add: finish_client_stop_def Let_def join_threads_def fail_all_now_def invoke_calls_def
      same_requests_def all_calls_def clear_outbound_queue_locked_def)

lemma client_action_keeps_ids:
  assumes "ids_ok c"
  shows "ids_ok (client_action jd jp a c)"
proof (cases a)
  case (DispatcherStep env)
  then show ?thesis
    using assms ids_ok_handle_event [OF ids_ok_same [OF same_requests_session assms]]
    by (simp add: dispatcher_step_def split: option.split)
next
  case (StopFinish d)
  then show ?thesis
    using assms ids_ok_same [OF same_requests_finish_client_stop ids_ok_fail_all(2) [OF assms]] by simp
next
  case (SessionStep s)
  then show ?thesis
    using assms ids_ok_same [OF same_requests_session assms] by (simp split: option.split)
next
  case (Submit r cbs)
  then show ?thesis
    using assms by (simp add: synthesize_async_def ids_ok_reject ids_ok_synthesize_prepared split: sum.split)
qed (use assms ids_ok_synthesize_prepared ids_ok_same [OF same_requests_plain(1) assms]
    ids_ok_same [OF same_requests_plain(2) assms] ids_ok_same [OF same_requests_plain(3) assms]
    ids_ok_same [OF same_requests_plain(4) assms] ids_ok_same [OF same_requests_plain(5) assms] in simp_all)

lemma step_reject: "rid \<noteq> 0 \<Longrightarrow> request_view rid (reject_call cbs e c) = request_view rid c"
  by (simp add: reject_call_def invoke_calls_def request_view_def all_calls_def calls_for_def)

lemma client_action_request_step:
  assumes "ids_ok c" "rid \<noteq> 0"
  shows "request_step rid (request_view rid c) (request_view rid (client_action jd jp a c))"
proof (cases a)
  case (DispatcherStep env)
  have "distinct (map fst (cl_active c))" using assms by (simp add: ids_ok_def)
  then have "request_step rid (request_view rid c) (request_view rid (handle_event jd jp env ev (c\<lparr>cl_session := s\<rparr>)))" for ev s
    using step_handle_event [of "c\<lparr>cl_session := s\<rparr>" rid] by (simp add: view_same [OF same_requests_session])
  with DispatcherStep show ?thesis
    by (simp add: dispatcher_step_def request_step.stay split: option.split)
next
  case (StopFinish d)
  then show ?thesis
    using step_fail_all(2) [of c rid client_stopped_error] assms
    by (simp add: view_same [OF same_requests_finish_client_stop] ids_ok_def request_step.stay)
next
  case (SessionStep s)
  then show ?thesis
    by (simp add: view_same [OF same_requests_session] request_step.stay split: option.split)
next
  case (Submit r cbs)
  then show ?thesis
    using assms by (simp add: synthesize_async_def step_reject request_step.stay step_synthesize_prepared
        split: sum.split)
qed (use assms in \<open>simp_all add: step_synthesize_prepared view_same [OF same_requests_plain(1)]
    view_same [OF same_requests_plain(2)] view_same [OF same_requests_plain(3)]
    view_same [OF same_requests_plain(4)] view_same [OF same_requests_plain(5)] request_step.stay\<close>)

end
