(* ===== verification/Session_Properties.thy ===== *)
theory Session_Properties
  imports Session_Lifecycle
begin

text \<open>
  What the session promises to its clients: bounded and exactly accounted queues, well-formed
  events, a life cycle that runs once, the conditions of a successful start, and independence of
  how the transport cuts the worker's bytes into chunks.
\<close>

section \<open>From bytes to frame handling\<close>

fun handle_frames :: "json_parse \<Rightarrow> Frame list \<Rightarrow> WorkerSession \<Rightarrow> bool \<times> WorkerSession" where
  "handle_frames jp [] s = (False, s)"
| "handle_frames jp (f # fs) s =
     (let (stop_transport, s') = handle_frame_locked jp f s in
      if stop_transport then (True, s') else handle_frames jp fs s')"

lemma handle_frame_parser:
  "handle_frame_locked jp f (s\<lparr>ws_parser := p\<rparr>) =
     (fst (handle_frame_locked jp f s), (snd (handle_frame_locked jp f s))\<lparr>ws_parser := p\<rparr>)"
proof -
  have live: "fail_if_live (t\<lparr>ws_parser := p\<rparr>) = (fail_if_live t)\<lparr>ws_parser := p\<rparr>" for t
    by (simp add: fail_if_live_def live_state_def)
  have enq: "enqueue_event_locked ev x (t\<lparr>ws_parser := p\<rparr>) =
      (fst (enqueue_event_locked ev x t), (snd (enqueue_event_locked ev x t))\<lparr>ws_parser := p\<rparr>)" for ev x t
    by (simp add: enqueue_event_locked_def Let_def push_event_def fail_if_live_def live_state_def)
  have fail: "fail_with_event_locked ev x (t\<lparr>ws_parser := p\<rparr>) =
      (fst (fail_with_event_locked ev x t), (snd (fail_with_event_locked ev x t))\<lparr>ws_parser := p\<rparr>)" for ev x t
    by (simp add: fail_with_event_locked_def live enq)
  have allowed: "is_control_message_allowed_locked rid t (s\<lparr>ws_parser := p\<rparr>) =
      is_control_message_allowed_locked rid t s" for rid t
    by (simp add: is_control_message_allowed_locked_def is_ready_message_allowed_locked_def)
  have "handle_control_frame_locked jp f (s\<lparr>ws_parser := p\<rparr>) =
      (fst (handle_control_frame_locked jp f s), (snd (handle_control_frame_locked jp f s))\<lparr>ws_parser := p\<rparr>)"
    by (simp add: handle_control_frame_locked_def allowed enq fail Let_def split_beta
        split: ControlMessage.split)
  then show ?thesis
    by (simp add: handle_frame_locked_def handle_audio_frame_locked_def handle_error_frame_locked_def
        enq fail Let_def)
qed

lemma handle_frames_parser:
  "handle_frames jp fs (s\<lparr>ws_parser := p\<rparr>) =
     (fst (handle_frames jp fs s), (snd (handle_frames jp fs s))\<lparr>ws_parser := p\<rparr>)"
  by (induction fs arbitrary: s) (simp_all add: handle_frame_parser split_beta Let_def)

lemma handle_frames_append:
  "handle_frames jp (fs @ gs) s =
     (let (b, s') = handle_frames jp fs s in if b then (True, s') else handle_frames jp gs s')"
  by (induction fs arbitrary: s) (simp_all add: split_beta Let_def)

text \<open>The parsing loop handles the frames of the unread bytes in order.\<close>

lemma handle_parsed_frames:
  "parser_inv (ws_parser s) \<Longrightarrow> abs_parser (ws_parser s) = Live bs \<Longrightarrow> frames_of bs = (fs, Live r) \<Longrightarrow>
     \<not> fst (handle_frames jp fs s) \<Longrightarrow>
     \<exists>p. handle_parsed jp s = (False, (snd (handle_frames jp fs s))\<lparr>ws_parser := p\<rparr>) \<and>
         parser_inv p \<and> abs_parser p = Live r"
proof (induction fs arbitrary: s bs)
  case Nil
  define p where "p = snd (parse_next (ws_parser s))"
  have "next_frame bs = Incomplete" and r: "r = bs"
    using Nil.prems(3) by (subst (asm) frames_of.simps, auto split: FrameStep.splits prod.splits)+
  then have "fst (parse_next (ws_parser s)) = default_parse_result" "abs_parser p = Live r" "parser_inv p"
    using parse_next_refines [OF Nil.prems(1)] Nil.prems(2) by (auto simp: p_def)
  then show ?case by (subst handle_parsed.simps) (auto simp: Let_def simp flip: p_def)
next
  case (Cons f fs)
  define p where "p = snd (parse_next (ws_parser s))"
  obtain rest where f: "next_frame bs = Complete f rest" and rest: "frames_of rest = (fs, Live r)"
    using Cons.prems(3) by (subst (asm) frames_of.simps) (auto split: FrameStep.splits prod.splits)
  have p: "fst (parse_next (ws_parser s)) = ready_result f" "abs_parser p = Live rest" "parser_inv p"
    using parse_next_refines [OF Cons.prems(1)] Cons.prems(2) f by (auto simp: p_def)
  define t where "t = snd (handle_frame_locked jp f s)"
  have stop: "\<not> fst (handle_frame_locked jp f s)" "\<not> fst (handle_frames jp fs t)"
    using Cons.prems(4) by (auto simp: t_def split_beta Let_def split: if_splits)
  have "handle_parsed jp s = handle_parsed jp (t\<lparr>ws_parser := p\<rparr>)"
    using p(1) stop(1)
    by (subst handle_parsed.simps) (simp add: Let_def handle_frame_parser t_def flip: p_def)
  moreover have "\<exists>q. handle_parsed jp (t\<lparr>ws_parser := p\<rparr>) =
      (False, (snd (handle_frames jp fs t))\<lparr>ws_parser := q\<rparr>) \<and> parser_inv q \<and> abs_parser q = Live r"
    using Cons.IH [of "t\<lparr>ws_parser := p\<rparr>" rest] p stop(2) rest by (simp add: handle_frames_parser)
  ultimately show ?case using stop(1) by (simp add: split_beta Let_def t_def)
qed

lemma handle_bytes_frames:
  assumes "parser_inv (ws_parser s)" and "abs_parser (ws_parser s) = Live bs"
    and "frames_of (bs @ d) = (fs, Live r)" and "\<not> fst (handle_frames jp fs s)"
  shows "\<exists>p. handle_bytes jp d s = (snd (handle_frames jp fs s))\<lparr>ws_parser := p\<rparr> \<and>
     parser_inv p \<and> abs_parser p = Live r"
  using handle_parsed_frames [of "s\<lparr>ws_parser := parser_append d (ws_parser s)\<rparr>" "bs @ d" fs r jp] assms
  by (auto simp: handle_bytes_def parser_inv_append abs_parser_append handle_frames_parser)

lemma frames_of_prefix_live:
  assumes "frames_of (bs @ x) = (fs, Live r)"
  obtains gs hs q where "frames_of bs = (gs, Live q)" "frames_of (q @ x) = (hs, Live r)" "fs = gs @ hs"
  using assms by (cases "frames_of bs"; cases "snd (frames_of bs)") (auto simp: frames_of_append split_beta Let_def)

lemma chunks_to_frames:
  "parser_inv (ws_parser s) \<Longrightarrow> abs_parser (ws_parser s) = Live bs \<Longrightarrow> drained (Live bs) \<Longrightarrow>
     frames_of (bs @ concat ds) = (fs, Live r) \<Longrightarrow> \<not> fst (handle_frames jp fs s) \<Longrightarrow>
     \<exists>p. fold (handle_bytes jp) ds s = (snd (handle_frames jp fs s))\<lparr>ws_parser := p\<rparr> \<and>
         parser_inv p \<and> abs_parser p = Live r"
proof (induction ds arbitrary: s bs fs)
  case Nil
  then have "fs = []" "r = bs" by (auto simp: drained_def)
  then show ?case using Nil by (intro exI [of _ "ws_parser s"]) simp
next
  case (Cons d ds)
  obtain gs hs q where split: "frames_of (bs @ d) = (gs, Live q)" "frames_of (q @ concat ds) = (hs, Live r)"
      "fs = gs @ hs"
    using Cons.prems(4) frames_of_prefix_live [of "bs @ d" "concat ds"] by (metis append_assoc concat.simps(2))
  have stop: "\<not> fst (handle_frames jp gs s)" "\<not> fst (handle_frames jp hs (snd (handle_frames jp gs s)))"
    and snd: "snd (handle_frames jp fs s) = snd (handle_frames jp hs (snd (handle_frames jp gs s)))"
    using Cons.prems(5) split(3) by (auto simp: handle_frames_append split_beta Let_def split: if_splits)
  obtain p where p: "handle_bytes jp d s = (snd (handle_frames jp gs s))\<lparr>ws_parser := p\<rparr>"
      "parser_inv p" "abs_parser p = Live q"
    using handle_bytes_frames [OF Cons.prems(1,2) split(1) stop(1)] by blast
  have "drained (Live q)" using frames_of_drained [of "bs @ d"] split(1) by simp
  then show ?case
    using Cons.IH [of "(snd (handle_frames jp gs s))\<lparr>ws_parser := p\<rparr>" q hs] p split(2) stop(2) snd
    by (simp add: handle_frames_parser)
qed

section \<open>The transport log\<close>

definition log_extends :: "WorkerSession \<Rightarrow> WorkerSession \<Rightarrow> bool" where
  "log_extends s s' \<longleftrightarrow> (\<exists>calls. ws_transport_log s' = ws_transport_log s @ calls)"

lemma log_extends_refl [simp]: "log_extends s s"
  by (simp add: log_extends_def)

lemma log_extends_trans: "log_extends s t \<Longrightarrow> log_extends t u \<Longrightarrow> log_extends s u"
  by (auto simp: log_extends_def)

lemma log_extends_in: "log_extends s t \<Longrightarrow> c \<in> set (ws_transport_log s) \<Longrightarrow> c \<in> set (ws_transport_log t)"
  by (auto simp: log_extends_def)

lemma log_event [simp]:
  "ws_transport_log (snd (enqueue_event_locked ev x s)) = ws_transport_log s"
  "ws_transport_log (snd (fail_with_event_locked ev x s)) = ws_transport_log s"
  using untouched_enqueue [of s ev x] untouched_fail [of s ev x] by (simp_all add: untouched_def)

lemma log_handle_bytes: "log_extends s (handle_bytes jp bytes s)"
proof -
  have "ws_transport_log (snd (handle_parsed jp t)) = l" if "ws_transport_log t = l" for t l
    by (rule handle_parsed_keeps [of "\<lambda>s. ws_transport_log s = l"]) (simp_all add: that)
  then show ?thesis by (simp add: handle_bytes_def log_call_def log_extends_def split_beta Let_def)
qed

lemma log_action: "log_extends s (session_action jp a s)"
  by (cases a) (simp_all add: log_handle_bytes, simp_all add: section_defs log_extends_def split: list.split)

lemma log_run: "log_extends s (run_actions jp acts s)"
  unfolding run_actions_def
  by (induction acts arbitrary: s) (auto intro: log_extends_trans log_action)

lemma options_event [simp]:
  "ws_options (snd (enqueue_event_locked ev x s)) = ws_options s"
  "ws_options (snd (fail_with_event_locked ev x s)) = ws_options s"
  using untouched_enqueue [of s ev x] untouched_fail [of s ev x] by (simp_all add: untouched_def)

lemma options_handle_bytes: "ws_options (handle_bytes jp bytes s) = ws_options s"
proof -
  have "ws_options (snd (handle_parsed jp t)) = l" if "ws_options t = l" for t l
    by (rule handle_parsed_keeps [of "\<lambda>s. ws_options s = l"]) (simp_all add: that)
  then show ?thesis by (simp add: handle_bytes_def log_call_def split_beta Let_def)
qed

lemma options_action: "ws_options (session_action jp a s) = ws_options s"
  by (cases a) (simp_all add: options_handle_bytes, simp_all add: section_defs split: list.split)

lemma options_run: "ws_options (run_actions jp acts s) = ws_options s"
  unfolding run_actions_def by (induction acts arbitrary: s) (simp_all add: options_action)

lemma send_control_frame_sent:
  assumes "fst (send_control_frame jd jp env rid m s)"
  shows "TransportSend (er_bytes (encode_frame ControlJson rid (je_payload (encode_control_message jd m))))
     \<in> set (ws_transport_log (snd (send_control_frame jd jp env rid m s))) \<and>
     log_extends s (snd (send_control_frame jd jp env rid m s))"
proof -
  let ?bytes = "er_bytes (encode_frame ControlJson rid (je_payload (encode_control_message jd m)))"
  define t where "t = log_call (TransportSend ?bytes) (mark_outbound_control_locked rid (control_message_type m) s)"
  have res: "snd (send_control_frame jd jp env rid m s) = run_actions jp (during_send env) t"
    using assms by (auto simp: send_control_frame_def Let_def t_def split: if_splits)
  have "TransportSend ?bytes \<in> set (ws_transport_log t)" and ext: "log_extends s t"
    by (simp_all add: t_def log_call_def mark_outbound_control_locked_def log_extends_def)
  then show ?thesis
    unfolding res using log_extends_in [OF log_run] log_extends_trans [OF ext log_run] by blast
qed

section \<open>Properties of the session\<close>

text \<open>C17. The worker's bytes may arrive in any chunks: a session that receives encoded frames cut
  anywhere handles exactly these frames in order, as if each had arrived alone, and keeps no
  undelivered bytes.\<close>

theorem session_receives_frames:
  assumes "\<forall>f\<in>set fs. transmittable f" and "concat ds = concat (map frame_bytes fs)"
    and "ws_parser s = new_parser" and "\<not> fst (handle_frames jp fs s)"
  shows "\<exists>p. fold (handle_bytes jp) ds s = (snd (handle_frames jp fs s))\<lparr>ws_parser := p\<rparr> \<and>
     buffered_size p = 0"
proof -
  have "drained (Live [])" by (simp add: drained_def frames_of.simps [of "[]"] next_frame_Nil)
  then obtain p where "fold (handle_bytes jp) ds s = (snd (handle_frames jp fs s))\<lparr>ws_parser := p\<rparr>"
      "abs_parser p = Live []"
    using chunks_to_frames [of s "[]" ds fs "[]" jp] frames_of_frame_bytes [OF assms(1)] assms(2-4) by auto
  then show ?thesis by (auto simp: abs_parser_def buffered_size_def unread_def split: if_splits)
qed

definition sample_session :: WorkerSession where
  "sample_session = (new_session True \<lparr>opt_client_name = ''c'', opt_client_version = ''1'',
     max_event_queue_events = 4, max_event_queue_bytes = 64\<rparr>)\<lparr>ws_state := WS_Ready, ws_start_attempted := True\<rparr>"

definition sample_audio :: Frame where
  "sample_audio = \<lparr>header = default_header\<lparr>frame_type := AudioPcm, payload_size := 2, request_id := 5\<rparr>,
     payload = [0x10, 0x20]\<rparr>"

lemma sample_audio_transmittable: "transmittable sample_audio"
  by (simp add: transmittable_def encode_frame_header_ok_iff sendable_def sample_audio_def
      default_header_def limit_defs is_known_frame_type_def max_payload_size_def)

lemma sample_audio_handled:
  "handle_frame_locked jp sample_audio sample_session =
     (False, push_event (default_event\<lparr>ev_type := Ev_Audio, ev_request_id := 5, ev_audio := [0x10, 0x20]\<rparr>)
        sample_session)"
  by (simp add: handle_frame_locked_def sample_audio_def default_header_def handle_audio_frame_locked_def
      sample_session_def enqueue_event_locked_def new_session_def event_payload_size_def default_event_def
      default_hello_def default_error_message_def)

theorem session_receives_frames_witness:
  "\<exists>p. fold (handle_bytes sample_parse) [take 7 (frame_bytes sample_audio), drop 7 (frame_bytes sample_audio)]
        sample_session =
      (push_event (default_event\<lparr>ev_type := Ev_Audio, ev_request_id := 5, ev_audio := [0x10, 0x20]\<rparr>)
        sample_session)\<lparr>ws_parser := p\<rparr> \<and> buffered_size p = 0"
  using session_receives_frames [of "[sample_audio]"
      "[take 7 (frame_bytes sample_audio), drop 7 (frame_bytes sample_audio)]" sample_session sample_parse]
    sample_audio_transmittable sample_audio_handled [of sample_parse]
  by (simp add: Let_def) (simp add: sample_session_def new_session_def)

text \<open>C20. The event queue of every reachable session, whatever the worker, the transport and other
  threads do, is accounted for exactly, and its control and audio events stay within the
  configured number and bytes.\<close>

theorem session_queue_bounded:
  assumes "session_reachable jp s"
  shows "ws_queued_bytes s = sum_list (map event_payload_size (ws_events s)) \<and>
     length (filter payload_event (ws_events s)) \<le> max_event_queue_events (ws_options s) \<and>
     sum_list (map event_payload_size (filter payload_event (ws_events s))) \<le>
       max_event_queue_bytes (ws_options s)"
  using reachable_inv [OF assms]
  by (simp add: session_inv_def event_queue.accounted_def queue_bounded_def payload_events_def)

theorem session_queue_bounded_witness:
  "ws_queued_bytes (handle_transport_error ''lost'' (new_session True (ws_options sample_session))) = 4"
proof -
  let ?s = "handle_transport_error ''lost'' (new_session True (ws_options sample_session))"
  have "session_reachable sample_parse ?s"
    using session_reachable.action [OF session_reachable.fresh, of sample_parse "TransportErrored ''lost''"
        True "ws_options sample_session"] by simp
  then show ?thesis
    using session_queue_bounded [of sample_parse ?s]
    by (simp add: handle_transport_error_def live_state_def new_session_def enqueue_event_locked_def
        push_event_def make_transport_error_def default_event_def event_payload_size_def
        default_hello_def default_error_message_def)
qed

text \<open>Every event a client takes from the queue is well formed: a control event is a validated
  worker message whose request identifier is zero exactly for session-level messages, audio always
  belongs to a request, worker errors carry a category, a code and a message.\<close>

theorem session_events_well_formed:
  assumes "session_reachable jp s" and "wait_for_event jp acts s = (Some ev, s')"
  shows "event_wf ev"
proof -
  have "session_inv (run_actions jp acts s)" using assms(1) by (intro reachable_inv [of jp] inv_intros)
  then show ?thesis
    using assms(2) session_inv_pop by (auto simp: wait_for_event_def Let_def split: option.splits)
qed

theorem session_events_well_formed_witness:
  "event_wf (make_transport_error ''lost'')"
proof -
  let ?s = "new_session True (ws_options sample_session)"
  have "session_reachable sample_parse ?s" by (rule session_reachable.fresh)
  moreover have "fst (wait_for_event sample_parse [TransportErrored ''lost''] ?s) =
      Some (make_transport_error ''lost'')"
    by (simp add: wait_for_event_def run_actions_def handle_transport_error_def live_state_def
        new_session_def enqueue_event_locked_def push_event_def pop_event_def)
  ultimately show ?thesis
    using session_events_well_formed [of sample_parse ?s "[TransportErrored ''lost'']"
        "make_transport_error ''lost''"] by (metis prod.collapse)
qed

text \<open>A session runs once. From the moment it is stopped, failed or exited, no interleaving of
  further calls and transport callbacks brings it back to starting or ready, and \<open>start\<close> is
  refused.\<close>

theorem session_runs_once:
  assumes "session_reachable jp s" and "phase s = 3"
  shows "ws_state (run_actions jp acts s) \<notin> {WS_Starting, WS_Ready} \<and>
     session_start jd jp env (run_actions jp acts s) = (False, run_actions jp acts s)"
proof -
  define t where "t = run_actions jp acts s"
  have "3 \<le> phase t" using phase_run [OF reachable_inv [OF assms(1)], of jp acts] assms(2) by (simp add: t_def)
  then have "ws_state t \<notin> {WS_Starting, WS_Ready}" "\<not> start_allowed t"
    by (auto simp: phase_def start_allowed_def split: WorkerSessionState.splits if_splits)
  then show ?thesis by (simp add: session_start_def flip: t_def)
qed

theorem session_runs_once_witness:
  "ws_state (run_actions sample_parse [BeginStart, Receive [1]]
     (handle_exit 0 (new_session True (ws_options sample_session)))) \<notin> {WS_Starting, WS_Ready}"
proof -
  let ?s = "handle_exit 0 (new_session True (ws_options sample_session))"
  have "session_reachable sample_parse ?s"
    using session_reachable.action [OF session_reachable.fresh, of sample_parse "PeerExited 0" True
        "ws_options sample_session"] by simp
  moreover have "phase ?s = 3" by (simp add: phase_def handle_exit_def)
  ultimately show ?thesis
    using session_runs_once [of sample_parse ?s "[BeginStart, Receive [1]]"] by blast
qed


text \<open>When \<open>start\<close> reports success, the session is ready, its queue has not overflowed, and the
  transport was started and then given the encoded \<open>hello\<close> frame with request identifier zero.\<close>

theorem session_start_success:
  assumes "fst (session_start jd jp env s)"
  shows "ws_state (snd (session_start jd jp env s)) = WS_Ready \<and>
     \<not> ws_overflowed (snd (session_start jd jp env s)) \<and> start_allowed s \<and> transport_started env \<and>
     (\<exists>hello. hello = HelloM \<lparr>client_name = opt_client_name (ws_options s),
                             client_version = opt_client_version (ws_options s)\<rparr> \<and>
        TransportSend (er_bytes (encode_frame ControlJson 0 (je_payload (encode_control_message jd hello))))
          \<in> set (ws_transport_log (snd (session_start jd jp env s))))"
proof -
  define s1 where "s1 = run_actions jp (during_transport_start env) (log_call TransportStart (begin_start s))"
  define hello where "hello = HelloM \<lparr>client_name = opt_client_name (ws_options s1),
      client_version = opt_client_version (ws_options s1)\<rparr>"
  define s2 where "s2 = snd (send_control_frame jd jp (hello_send env) 0 hello s1)"
  define s3 where "s3 = run_actions jp (during_ready_wait env) s2"
  have facts: "start_allowed s" "transport_started env" "fst (send_control_frame jd jp (hello_send env) 0 hello s1)"
    "ws_state s3 = WS_Ready" "\<not> ws_overflowed s3" "snd (session_start jd jp env s) = s3"
    using assms
    by (auto simp: session_start_def Let_def split_beta s1_def hello_def s2_def s3_def split: if_splits)
  have "ws_options s1 = ws_options s" unfolding s1_def by (simp add: options_run log_call_def begin_start_def)
  moreover have "TransportSend (er_bytes (encode_frame ControlJson 0 (je_payload (encode_control_message jd hello))))
      \<in> set (ws_transport_log s3)"
    using send_control_frame_sent [OF facts(3)] log_extends_in [OF log_run] unfolding s2_def s3_def by blast
  ultimately show ?thesis using facts by (simp add: hello_def)
qed

definition started_ready :: ReadyMessage where
  "started_ready = default_ready\<lparr>worker_version := ''1'', session_id := ''s''\<rparr>"

definition started_parse :: json_parse where
  "started_parse s = (if s = ''{}'' then Inr (control_message_to_json (ReadyM started_ready))
     else Inl (ParseException ''syntax error''))"

definition started_frame :: Frame where
  "started_frame = \<lparr>header = default_header\<lparr>payload_size := 2\<rparr>, payload = string_to_bytes ''{}''\<rparr>"

definition started_env :: StartEnv where
  "started_env = \<lparr>during_transport_start = [], transport_started = True,
     hello_send = \<lparr>send_answer = Accepted, during_send = []\<rparr>,
     during_ready_wait = [Receive (frame_bytes started_frame)], running_when_ready = True,
     startup_stop = \<lparr>after_begin_stop = [], running_at_stop = True,
       shutdown_send = \<lparr>send_answer = Accepted, during_send = []\<rparr>, during_transport_stop = []\<rparr>\<rparr>"

definition idle_session :: WorkerSession where
  "idle_session = new_session True (ws_options sample_session)"

lemma started_frame_handled:
  assumes "ws_state s = WS_Starting" "ws_events s = []" "ws_queued_bytes s = 0" "\<not> ws_overflowed s"
    and "ws_options s = ws_options sample_session"
  shows "\<exists>t. handle_frame_locked started_parse started_frame s =
     (False, t\<lparr>ws_ready_message := started_ready, ws_state := WS_Ready\<rparr>) \<and> \<not> ws_overflowed t"
proof -
  let ?dec = "decode_control_message started_parse (payload started_frame) WorkerToClient"
  have dec: "?dec = make_control_message (ReadyM started_ready)"
    using decode_known_encoded [of "ReadyM started_ready"]
    by (simp add: started_frame_def decode_control_payload_text started_parse_def
        decode_control_object_encoded del: control_message_to_json.simps)
      (simp add: started_ready_def default_ready_def validate_non_empty_string_def)
  have cd: "cd_message ?dec = ReadyM started_ready" "cd_error ?dec = CCE_None"
    by (simp_all add: dec make_control_message_def default_control_result_def)
  have rid: "request_id (header started_frame) = 0" "frame_type (header started_frame) = ControlJson"
    by (simp_all add: started_frame_def default_header_def)
  have size: "event_payload_size (default_event\<lparr>ev_type := Ev_Control, ev_control := ReadyM started_ready\<rparr>) = 2"
    by (simp add: event_payload_size_def default_event_def default_error_message_def started_ready_def
        default_ready_def)
  have ev0: "default_event\<lparr>ev_type := Ev_Control, ev_request_id := 0, ev_control := ReadyM started_ready\<rparr> =
      default_event\<lparr>ev_type := Ev_Control, ev_control := ReadyM started_ready\<rparr>"
    by (simp add: default_event_def)
  show ?thesis
    using assms
    by (simp add: handle_frame_locked_def rid handle_control_frame_locked_def cd Let_def
        is_control_message_allowed_locked_def is_ready_message_allowed_locked_def enqueue_event_locked_def
        ev0 size) (auto simp: sample_session_def new_session_def push_event_def)
qed

lemma sample_start_succeeds:
  "fst (session_start (\<lambda>j. Inr ''{}'') started_parse started_env idle_session)"
proof -
  define s2 where "s2 = log_call (TransportSend (er_bytes (encode_frame ControlJson 0 (string_to_bytes ''{}''))))
      (log_call TransportStart (begin_start idle_session))"
  have tf: "transmittable started_frame"
    by (simp add: transmittable_def encode_frame_header_ok_iff sendable_def started_frame_def
        default_header_def limit_defs is_known_frame_type_def max_payload_size_def string_to_bytes_def)
  have init: "ws_state s2 = WS_Starting" "ws_events s2 = []" "ws_queued_bytes s2 = 0" "\<not> ws_overflowed s2"
    "ws_options s2 = ws_options sample_session" "ws_parser s2 = new_parser" "ws_has_transport s2"
    by (simp_all add: s2_def log_call_def begin_start_def idle_session_def new_session_def
        parser_clear_def new_parser_def)
  obtain t where t: "handle_frame_locked started_parse started_frame s2 =
      (False, t\<lparr>ws_ready_message := started_ready, ws_state := WS_Ready\<rparr>)" "\<not> ws_overflowed t"
    using started_frame_handled [OF init(1-5)] by blast
  have "untouched s2 (t\<lparr>ws_ready_message := started_ready, ws_state := WS_Ready\<rparr>)"
    using untouched_handle_frame [of s2 started_parse started_frame] t(1) by simp
  then have tt: "ws_has_transport t" using init(7) by (simp add: untouched_def)
  have hb: "\<exists>p. handle_bytes started_parse (frame_bytes started_frame) s2 =
      t\<lparr>ws_ready_message := started_ready, ws_state := WS_Ready, ws_parser := p\<rparr>"
    using handle_bytes_frames [of s2 "[]" "frame_bytes started_frame" "[started_frame]" "[]" started_parse]
      frames_of_frame_bytes [of "[started_frame]"] tf init(6) t(1) by auto
  have enc: "encode_control_message (\<lambda>j. Inr ''{}'') (HelloM \<lparr>client_name = ''c'', client_version = ''1''\<rparr>) =
      \<lparr>je_payload = string_to_bytes ''{}'', je_error = CCE_None, je_diagnostic = ''''\<rparr>"
    by (rule encode_control_message_ok) (simp_all add: validate_non_empty_string_def)
  have okf: "encode_ok (encode_frame ControlJson 0 (string_to_bytes ''{}''))"
    by (simp add: encode_ok_def encode_frame_outcome is_known_frame_type_def max_payload_size_def limit_defs
        string_to_bytes_def)
  show ?thesis
    using hb t(2) tt init(1)
    by (auto simp: session_start_def start_allowed_def started_env_def run_actions_def send_control_frame_def
        enc okf is_client_to_worker_control_def mark_outbound_control_locked_def Let_def s2_def
        idle_session_def sample_session_def new_session_def begin_start_def log_call_def)
qed

theorem session_start_success_witness:
  "ws_state (snd (session_start (\<lambda>j. Inr ''{}'') started_parse started_env idle_session)) = WS_Ready"
  using session_start_success [OF sample_start_succeeds] by blast

section \<open>Where the session departs from the protocol\<close>

lemma fail_with_event_not_live:
  "\<not> live_state s \<Longrightarrow> fail_with_event_locked ev True s = (False, push_event ev s)"
  by (simp add: fail_with_event_locked_def fail_if_live_def enqueue_event_locked_def)

lemma refused_control:
  assumes "frame_type (header fr) = ControlJson"
    and "decode_control_message jp (payload fr) WorkerToClient = make_control_message m"
    and "\<not> is_control_message_allowed_locked (request_id (header fr)) (control_message_type m) s"
  shows "handle_frame_locked jp fr s = fail_with_event_locked
     (make_protocol_error ''control message is invalid in the current session state'') True s"
proof -
  have "cd_error (make_control_message m) = CCE_None" "cd_message (make_control_message m) = m"
    by (simp_all add: make_control_message_def default_control_result_def)
  then show ?thesis
    using assms by (simp add: handle_frame_locked_def handle_control_frame_locked_def)
qed

text \<open>\<open>stop\<close> enters \<open>Stopping\<close> before it sends \<open>shutdown\<close>, and control messages are allowed in
  \<open>Ready\<close> only. The worker's answer to that \<open>shutdown\<close>, a correct \<open>shutdown_ack\<close>, is therefore always
  reported as a protocol error, although the session recorded that it asked for it.\<close>

theorem shutdown_ack_reported_as_error:
  assumes "ws_state s = WS_Ready" and "frame_type (header fr) = ControlJson"
    and "request_id (header fr) = 0"
    and "decode_control_message jp (payload fr) WorkerToClient = make_control_message ShutdownAckM"
  defines "t \<equiv> mark_outbound_control_locked 0 CMT_Shutdown (begin_stop s)"
  shows "ws_shutdown_requested t \<and>
     handle_frame_locked jp fr t =
       (False, push_event (make_protocol_error ''control message is invalid in the current session state'') t)"
proof -
  have st: "ws_state t = WS_Stopping" "ws_shutdown_requested t"
    using assms(1) by (simp_all add: t_def mark_outbound_control_locked_def begin_stop_def)
  then have "\<not> is_control_message_allowed_locked (request_id (header fr)) (control_message_type ShutdownAckM) t"
    by (simp add: is_control_message_allowed_locked_def)
  then show ?thesis
    using refused_control [OF assms(2,4)] st by (simp add: fail_with_event_not_live live_state_def)
qed

definition ack_frame :: Frame where
  "ack_frame = \<lparr>header = default_header\<lparr>payload_size := 2\<rparr>, payload = string_to_bytes ''{}''\<rparr>"

definition ack_parse :: json_parse where
  "ack_parse s = Inr (control_message_to_json ShutdownAckM)"

lemma ack_decoded:
  "decode_control_message ack_parse (payload ack_frame) WorkerToClient = make_control_message ShutdownAckM"
  using decode_known_encoded [of ShutdownAckM] decode_control_object_encoded [of ShutdownAckM WorkerToClient]
  by (simp add: ack_frame_def decode_control_payload_text ack_parse_def)

theorem shutdown_ack_reported_as_error_witness:
  "\<exists>t. ws_shutdown_requested t \<and> handle_frame_locked ack_parse ack_frame t =
     (False, push_event (make_protocol_error ''control message is invalid in the current session state'') t)"
  using shutdown_ack_reported_as_error [of sample_session ack_frame ack_parse] ack_decoded
  by (auto simp: sample_session_def ack_frame_def default_header_def)

text \<open>During startup every control message but \<open>ready\<close> fails the session, also the \<open>pong\<close> and the
  \<open>shutdown_ack\<close> that the protocol lets a worker send before \<open>ready\<close>.\<close>

theorem early_control_fails_session:
  assumes "ws_state s = WS_Starting" and "frame_type (header fr) = ControlJson"
    and "decode_control_message jp (payload fr) WorkerToClient = make_control_message m"
    and "m = PongM sq \<or> m = ShutdownAckM"
  shows "handle_frame_locked jp fr s =
     (False, push_event (make_protocol_error ''control message is invalid in the current session state'')
       (s\<lparr>ws_state := WS_Failed\<rparr>))"
proof -
  have "\<not> is_control_message_allowed_locked (request_id (header fr)) (control_message_type m) s"
    using assms(1,4) by (auto simp: is_control_message_allowed_locked_def)
  then show ?thesis
    using refused_control [OF assms(2,3)] assms(1)
    by (simp add: fail_with_event_locked_def fail_if_live_def live_state_def enqueue_event_locked_def)
qed

theorem early_control_fails_session_witness:
  "ws_state (snd (handle_frame_locked ack_parse ack_frame (idle_session\<lparr>ws_state := WS_Starting\<rparr>))) = WS_Failed"
  using early_control_fails_session [of "idle_session\<lparr>ws_state := WS_Starting\<rparr>" ack_frame ack_parse ShutdownAckM]
    ack_decoded
  by (simp add: ack_frame_def default_header_def push_event_def)

lemma audio_after_failure:
  assumes "ws_state s = WS_Failed" and "frame_type (header f) = AudioPcm"
  shows "handle_frame_locked jp f s =
     (False, push_event (make_protocol_error ''audio frame is invalid in the current session state'') s)"
  using assms by (simp add: handle_frame_locked_def handle_audio_frame_locked_def fail_with_event_not_live
      live_state_def)

text \<open>Error events are not bounded: the session exempts them from both limits and does not stop
  the transport, so a worker that keeps sending audio after a failure grows the queue by one event
  per frame, beyond any configured maximum.\<close>

theorem failed_session_queue_unbounded:
  assumes "ws_state s = WS_Failed" and "\<forall>f\<in>set fs. frame_type (header f) = AudioPcm"
  shows "\<not> fst (handle_frames jp fs s) \<and>
     length (ws_events (snd (handle_frames jp fs s))) = length (ws_events s) + length fs"
  using assms
proof (induction fs arbitrary: s)
  case (Cons f fs)
  let ?t = "push_event (make_protocol_error ''audio frame is invalid in the current session state'') s"
  have "ws_state ?t = WS_Failed" "length (ws_events ?t) = Suc (length (ws_events s))"
    using Cons.prems(1) by (simp_all add: push_event_def)
  then show ?case using Cons.IH [of ?t] Cons.prems audio_after_failure [of s f jp] by simp
qed simp

theorem failed_session_queue_unbounded_witness:
  "length (ws_events (snd (handle_frames ack_parse (replicate 9 sample_audio)
     (sample_session\<lparr>ws_state := WS_Failed\<rparr>)))) = 9 \<and> max_event_queue_events (ws_options sample_session) = 4"
  using failed_session_queue_unbounded [of "sample_session\<lparr>ws_state := WS_Failed\<rparr>"
      "replicate 9 sample_audio" ack_parse]
  by (simp add: sample_session_def new_session_def sample_audio_def default_header_def)

end
