(* ===== verification/Client_Properties.thy ===== *)
theory Client_Properties
  imports Client_Protocol Session_Properties
begin

text \<open>
  What users of the client rely on, over every interleaving of API calls, writer, dispatcher,
  session and stop: one terminal callback per accepted request, a gapless sample timeline, the
  prepared text before the audio, identifiers that are never reused, a bounded outbound queue.
  The proofs are invariants of the request machine of \<open>Client_Protocol\<close>, carried to the client by
  its refinement lemma.
\<close>

section \<open>From steps to runs\<close>

lemma client_run_Nil [simp]: "client_run jd jp [] c = c"
  by (simp add: client_run_def)

lemma client_run_Cons [simp]: "client_run jd jp (a # acts) c = client_run jd jp acts (client_action jd jp a c)"
  by (simp add: client_run_def)

lemma client_run_ids: "ids_ok c \<Longrightarrow> ids_ok (client_run jd jp acts c)"
  by (induction acts arbitrary: c) (simp_all add: client_action_keeps_ids)

text \<open>An invariant of the request machine is an invariant of every run.\<close>

lemma client_run_invariant:
  assumes "\<And>v v'. request_step rid v v' \<Longrightarrow> P v \<Longrightarrow> P v'"
    and "ids_ok c" "rid \<noteq> 0" "P (request_view rid c)"
  shows "P (request_view rid (client_run jd jp acts c))"
  using assms(2,4)
proof (induction acts arbitrary: c)
  case (Cons a acts)
  then show ?case
    using client_action_keeps_ids assms(1) [OF client_action_request_step [OF Cons.prems(1) assms(3)]]
    by simp
qed simp

lemma client_start_fresh:
  assumes "client_start jd jp True env True options c = (True, c')"
  shows "cl_active c' = []" "all_calls c' = []" "cl_next_request_id c' = 1" "cl_outbound c' = []"
    "cl_outbound_bytes c' = 0" "cl_options c' = options"
  using assms by (auto simp: client_start_def Let_def clear_outbound_queue_locked_def all_calls_def
      split: if_splits prod.splits)

lemma reachable_ids: "client_reachable jd jp c \<Longrightarrow> ids_ok c"
  by (induction rule: client_reachable.induct)
    (simp add: ids_ok_def client_start_fresh, rule client_action_keeps_ids)

lemma reachable_invariant:
  assumes step: "\<And>v v'. request_step rid v v' \<Longrightarrow> P v \<Longrightarrow> P v'" and init: "P (None, [])"
    and "client_reachable jd jp c" "rid \<noteq> 0"
  shows "P (request_view rid c)"
  using assms(3)
proof (induction rule: client_reachable.induct)
  case (started env options c c')
  then show ?case using init client_start_fresh [OF started] by (simp add: request_view_def calls_for_def)
next
  case (action c a)
  then show ?case using step client_action_request_step [OF reachable_ids assms(4)] by blast
qed

section \<open>Terminal callbacks\<close>

fun is_terminal :: "CallbackCall \<Rightarrow> bool" where
  "is_terminal CompletedCall = True"
| "is_terminal CancelledCall = True"
| "is_terminal (ErrorCall e) = True"
| "is_terminal _ = False"

definition terminals :: "CallbackCall list \<Rightarrow> nat" where
  "terminals cs = length (filter is_terminal cs)"

lemma terminals_append [simp]: "terminals (xs @ ys) = terminals xs + terminals ys"
  by (simp add: terminals_def)

lemma terminals_Nil [simp]: "terminals [] = 0" "calls_for rid [] = []"
  by (simp_all add: terminals_def calls_for_def)

lemma terminals_text [simp]: "terminals (text_calls ar) = 0"
  by (simp add: terminals_def text_calls_def split: option.split)

lemma terminals_audio [simp]: "terminals (audio_calls ar chunk) = 0"
  by (simp add: terminals_def audio_calls_def)

lemma terminals_ends: "ends_with cbs ts \<Longrightarrow> terminals ts \<le> Suc 0"
  by (induction rule: ends_with.induct) (simp_all add: terminals_def)

definition all_terminals_set :: "TtsCallbacks \<Rightarrow> bool" where
  "all_terminals_set cbs \<longleftrightarrow> on_completed cbs \<and> on_cancelled cbs \<and> on_error cbs"

lemma terminals_ends_set: "ends_with cbs ts \<Longrightarrow> all_terminals_set cbs \<Longrightarrow> terminals ts = Suc 0"
  by (induction rule: ends_with.induct) (simp_all add: terminals_def all_terminals_set_def)

definition once :: "RequestView \<Rightarrow> bool" where
  "once v \<longleftrightarrow> (case fst v of Some ar \<Rightarrow> terminals (snd v) = 0 | None \<Rightarrow> terminals (snd v) \<le> 1)"

lemma once_step: "request_step rid v v' \<Longrightarrow> once v \<Longrightarrow> once v'"
  by (induction rule: request_step.induct) (auto simp: once_def terminals_ends)

definition owed :: "TtsCallbacks \<Rightarrow> RequestView \<Rightarrow> bool" where
  "owed cbs v \<longleftrightarrow>
     (case fst v of
        Some ar \<Rightarrow> ar_callbacks ar = cbs \<and> terminals (snd v) = 0
      | None \<Rightarrow> terminals (snd v) = 1)"

lemma mark_delivered_fields [simp]:
  "ar_callbacks (mark_delivered ar) = ar_callbacks ar" "ar_next_sample (mark_delivered ar) = ar_next_sample ar"
  "ar_prepared_text (mark_delivered ar) = ar_prepared_text ar"
  by (simp_all add: mark_delivered_def)

lemma owed_step:
  assumes "all_terminals_set cbs" "request_step rid v v'" "owed cbs v"
  shows "owed cbs v'"
  using assms(2,3)
  by (induction rule: request_step.induct)
    (use assms(1) terminals_ends_set in \<open>auto simp: owed_def\<close>)

section \<open>The audio timeline\<close>

fun contiguous :: "u64 \<Rightarrow> CallbackCall list \<Rightarrow> bool" where
  "contiguous n [] = True"
| "contiguous n (AudioCall chunk # cs) =
     (first_sample chunk = n \<and> pcm_bytes chunk \<noteq> [] \<and>
      sample_count_for_audio (pcm_format chunk) (length (pcm_bytes chunk)) = Some (sample_count chunk) \<and>
      contiguous (n + ucast (sample_count chunk)) cs)"
| "contiguous n (_ # cs) = contiguous n cs"

fun samples_of :: "CallbackCall list \<Rightarrow> u64" where
  "samples_of [] = 0"
| "samples_of (AudioCall chunk # cs) = ucast (sample_count chunk) + samples_of cs"
| "samples_of (_ # cs) = samples_of cs"

fun is_audio :: "CallbackCall \<Rightarrow> bool" where
  "is_audio (AudioCall chunk) = True"
| "is_audio _ = False"

lemma samples_of_append [simp]: "samples_of (xs @ ys) = samples_of xs + samples_of ys"
  by (induction xs rule: samples_of.induct) simp_all

lemma contiguous_append [simp]:
  "contiguous n (xs @ ys) \<longleftrightarrow> contiguous n xs \<and> contiguous (n + samples_of xs) ys"
  by (induction n xs rule: contiguous.induct) (simp_all add: add.assoc)

lemma no_audio:
  "list_all (\<lambda>c. \<not> is_audio c) cs \<Longrightarrow> samples_of cs = 0 \<and> contiguous n cs"
  by (induction n cs rule: contiguous.induct) simp_all

lemma no_audio_text: "list_all (\<lambda>c. \<not> is_audio c) (text_calls ar)"
  by (simp add: text_calls_def split: option.split)

lemma no_audio_ends: "ends_with cbs ts \<Longrightarrow> list_all (\<lambda>c. \<not> is_audio c) ts"
  by (induction rule: ends_with.induct) simp_all

lemma audio_calls_contiguous:
  assumes "bytes \<noteq> [] \<longrightarrow> sample_count_for_audio (ar_audio_format ar) (length bytes) = Some n"
  shows "contiguous (ar_next_sample ar) (audio_calls ar (audio_chunk rid ar bytes n))"
  using assms by (auto simp: audio_calls_def audio_chunk_def)

lemma samples_of_audio_calls:
  "samples_of (audio_calls ar chunk) = (if pcm_bytes chunk \<noteq> [] \<and> on_audio (ar_callbacks ar) then ucast (sample_count chunk) else 0)"
  by (simp add: audio_calls_def)

lemma sample_count_empty: "sample_count_for_audio f 0 = Some n \<Longrightarrow> n = 0"
  by (auto simp: sample_count_for_audio_def Let_def split: option.splits if_splits)

definition on_timeline :: "RequestView \<Rightarrow> bool" where
  "on_timeline v \<longleftrightarrow> contiguous 0 (snd v) \<and>
     (case fst v of
        None \<Rightarrow> True
      | Some ar \<Rightarrow>
          if on_audio (ar_callbacks ar) then samples_of (snd v) = ar_next_sample ar
          else list_all (\<lambda>c. \<not> is_audio c) (snd v))"

lemma on_timeline_step: "request_step rid v v' \<Longrightarrow> on_timeline v \<Longrightarrow> on_timeline v'"
proof (induction rule: request_step.induct)
  case (started ar cs f)
  then show ?case
    using no_audio [OF no_audio_text [of ar]] no_audio_text [of ar]
    by (cases "on_audio (ar_callbacks ar)") (simp_all add: on_timeline_def)
next
  case (audio count ar bytes samples cs)
  have cs: "on_timeline (Some ar, cs)" by (rule audio)
  show ?case
  proof (cases "on_audio (ar_callbacks ar)")
    case True
    have "bytes \<noteq> [] \<longrightarrow> sample_count_for_audio (ar_audio_format ar) (length bytes) = Some samples"
      "bytes = [] \<longrightarrow> samples = 0"
      using audio sample_count_empty by (auto split: option.splits)
    with True cs show ?thesis
      using no_audio [OF no_audio_text [of ar]] audio_calls_contiguous [of bytes ar samples rid]
      by (auto simp: on_timeline_def samples_of_audio_calls audio_chunk_def)
  next
    case False
    then have quiet: "list_all (\<lambda>c. \<not> is_audio c) (audio_calls ar (audio_chunk rid ar bytes samples))"
      by (simp add: audio_calls_def)
    from False cs show ?thesis
      using no_audio_text [of ar] quiet no_audio [OF quiet] no_audio [OF no_audio_text [of ar]] by (simp add: on_timeline_def)
  qed
next
  case (finish ar ts xs ys)
  then show ?case using no_audio [OF no_audio_ends [OF finish(1)]] by (simp add: on_timeline_def)
qed (simp_all add: on_timeline_def new_active_def)

section \<open>The prepared text\<close>

fun is_stream :: "CallbackCall \<Rightarrow> bool" where
  "is_stream (TextPreparedCall p) = True"
| "is_stream (AudioCall chunk) = True"
| "is_stream (TimingCall t) = True"
| "is_stream _ = False"

fun is_text_call :: "CallbackCall \<Rightarrow> bool" where
  "is_text_call (TextPreparedCall p) = True"
| "is_text_call _ = False"

text \<open>The text context is delivered at most once, before anything else the request streams.\<close>

definition text_first :: "CallbackCall list \<Rightarrow> bool" where
  "text_first cs \<longleftrightarrow> list_all (\<lambda>c. \<not> is_text_call c) (tl (filter is_stream cs))"

definition text_view :: "RequestView \<Rightarrow> bool" where
  "text_view v \<longleftrightarrow> text_first (snd v) \<and>
     (case fst v of
        None \<Rightarrow> True
      | Some ar \<Rightarrow> ar_prepared_text ar \<noteq> None \<and> (\<not> ar_text_context_delivered ar \<longrightarrow> filter is_stream (snd v) = []))"

lemma stream_ends: "ends_with cbs ts \<Longrightarrow> filter is_stream ts = []"
  by (induction rule: ends_with.induct) simp_all

lemma tl_append_all: "list_all P (tl xs) \<Longrightarrow> list_all P ys \<Longrightarrow> list_all P (tl (xs @ ys))"
  by (cases xs) (simp_all, cases ys, simp_all)

lemma text_calls_delivered: "ar_text_context_delivered ar \<Longrightarrow> text_calls ar = []"
  by (simp add: text_calls_def split: option.split)

lemma text_first_calls:
  "list_all (\<lambda>c. \<not> is_text_call c) (tl (filter is_stream (text_calls ar)))"
  "list_all (\<lambda>c. \<not> is_text_call c) (filter is_stream (audio_calls ar chunk))"
  by (simp_all add: text_calls_def audio_calls_def split: option.split)

lemma text_view_step: "request_step rid v v' \<Longrightarrow> text_view v \<Longrightarrow> text_view v'"
proof (induction rule: request_step.induct)
  case (started ar cs f)
  then show ?case
    using text_first_calls(1) [of ar] text_calls_delivered [of ar]
    by (cases "ar_text_context_delivered ar") (auto simp: text_view_def text_first_def mark_delivered_def)
next
  case (audio count ar bytes samples cs)
  then show ?case
    using text_first_calls [of ar] text_calls_delivered [of ar]
    by (cases "ar_text_context_delivered ar")
      (auto simp: text_view_def text_first_def mark_delivered_def tl_append_all)
next
  case (finish ar ts xs ys)
  then show ?case using stream_ends [OF finish(1)] by (simp add: text_view_def text_first_def)
qed (simp_all add: text_view_def text_first_def new_active_def)

section \<open>The outbound queue\<close>

definition outbound_ok :: "QwenTtsClient \<Rightarrow> bool" where
  "outbound_ok c \<longleftrightarrow> outbound_queue.accounted c \<and>
     length (cl_outbound c) \<le> max_outbound_commands (cl_options c) \<and>
     cl_outbound_bytes c \<le> max_outbound_command_bytes (cl_options c)"

definition same_outbound :: "QwenTtsClient \<Rightarrow> QwenTtsClient \<Rightarrow> bool" where
  "same_outbound c c' \<longleftrightarrow> cl_outbound c' = cl_outbound c \<and> cl_outbound_bytes c' = cl_outbound_bytes c \<and>
     cl_options c' = cl_options c"

lemma outbound_ok_same: "same_outbound c c' \<Longrightarrow> outbound_ok c \<Longrightarrow> outbound_ok c'"
  by (simp add: outbound_ok_def outbound_queue.accounted_def same_outbound_def)

lemma outbound_ok_clear [simp]: "outbound_ok (clear_outbound_queue_locked c)"
  by (simp add: clear_outbound_queue_locked_def outbound_ok_def outbound_queue.accounted_def)

lemma outbound_ok_enqueue:
  assumes "outbound_ok c"
  shows "outbound_ok (snd (enqueue_outbound_locked rid m c))"
proof -
  have "outbound_queue.accounted (push_command cmd c)" for cmd
    using assms outbound_queue.accounted_push by (simp add: outbound_ok_def)
  then show ?thesis
    using assms by (auto simp: enqueue_outbound_locked_def outbound_ok_def Let_def) (simp_all add: push_command_def)
qed

lemma outbound_ok_pop:
  assumes "outbound_ok c" "pop_command c = Some (cmd, c')"
  shows "outbound_ok c'"
proof -
  have "cl_options c' = cl_options c"
    using assms(2) by (auto simp: pop_command_def split: list.splits)
  then show ?thesis
    using assms outbound_queue.accounted_pop [of c cmd c'] outbound_queue.pop_exact [of c cmd c']
    by (auto simp: outbound_ok_def)
qed

lemma same_outbound_plain [simp]:
  "same_outbound c (c\<lparr>cl_session := s\<rparr>)" "same_outbound c (defer_calls calls (c\<lparr>cl_active := as\<rparr>))"
  "same_outbound c (invoke_calls calls c)" "same_outbound c (invoke_calls calls (c\<lparr>cl_active := as\<rparr>))"
  "same_outbound c (count_duplicate c)" "same_outbound c (c\<lparr>cl_late_audio := n\<rparr>)" "same_outbound c c"
  "same_outbound c (stop_session jd jp env c)" "same_outbound c (join_threads d c)"
  "same_outbound c (c\<lparr>cl_active := as\<rparr>)" "same_outbound c (invoke_user_callback c)"
  by (simp_all add: same_outbound_def defer_calls_def invoke_calls_def count_duplicate_def stop_session_def
      join_threads_def invoke_user_callback_def split: option.split list.split)

lemma same_outbound_allocate: "allocate_request_id_locked q c = (r, c1) \<Longrightarrow> same_outbound c c1"
  by (auto simp: allocate_request_id_locked_def same_outbound_def Let_def split: if_splits)

lemma outbound_ok_synthesize_prepared:
  assumes "outbound_ok c"
  shows "outbound_ok (snd (synthesize_prepared jd pr cbs c))"
proof -
  have reject: "outbound_ok (reject_call cbs e c)" for e
    using assms outbound_ok_same [OF same_outbound_plain(3) assms] by (simp add: reject_call_def)
  have active: "outbound_ok (d\<lparr>cl_active := as\<rparr>)" if "outbound_ok d" for d as
    using outbound_ok_same [OF same_outbound_plain(10) that] .
  have alloc: "outbound_ok (snd (allocate_request_id_locked q c))" for q
    using outbound_ok_same [OF same_outbound_allocate assms] by (metis prod.collapse)
  note enq = outbound_ok_enqueue [OF active [OF alloc]]
  show ?thesis
    using assms
    by (simp add: synthesize_prepared_def Let_def split_beta reject alloc enq active [OF enq]
        del: outbound_command_size.simps)
qed

lemma outbound_ok_handle_event:
  assumes "outbound_ok c"
  shows "outbound_ok (handle_event jd jp env ev c)"
proof -
  note keep = outbound_ok_same [OF _ assms]
  have finish: "outbound_ok (finish_request r calls c)" for r calls
    by (simp add: finish_request_def keep split: option.split)
  have "outbound_ok (fail_all_deferred e d)" if "outbound_ok d" for e d
    using outbound_ok_same [OF same_outbound_plain(2) that] by (simp add: fail_all_deferred_def)
  moreover have "outbound_ok (stop_session jd jp env (clear_outbound_queue_locked d))" for d
    by (rule outbound_ok_same [OF same_outbound_plain(8) outbound_ok_clear])
  moreover have "outbound_ok (handle_started r m c)" "outbound_ok (handle_audio_event r bytes c)" for r m bytes
    by (simp_all add: handle_started_def handle_audio_event_def fail_request_def finish assms keep Let_def
        split: option.split)
  moreover have "outbound_ok (handle_control_event r m c)" for r m
    using calculation finish assms
    by (cases m) (simp_all add: handle_control_event_def complete_request_def cancel_request_locally_def)
  ultimately show ?thesis
    using assms finish
    by (cases "ev_type ev")
      (simp_all add: handle_event_def handle_worker_error_def handle_local_error_def fail_request_def Let_def)
qed

lemma outbound_ok_action:
  assumes "outbound_ok c"
  shows "outbound_ok (client_action jd jp a c)"
proof -
  note keep = outbound_ok_same [OF _ assms]
  note session = outbound_ok_same [OF same_outbound_plain(1)]
  show ?thesis
  proof (cases a)
    case (Submit r cbs)
    then show ?thesis
      using assms by (simp add: synthesize_async_def outbound_ok_synthesize_prepared reject_call_def keep
          split: sum.split)
  next
    case (WriterStep b env)
    then show ?thesis
      using assms by (auto simp: writer_step_def split: option.split intro: outbound_ok_pop [OF assms] session)
  next
    case (StopFinish d)
    have "outbound_ok (fail_all_now e (join_threads b c))" for e b
      using outbound_ok_same [OF same_outbound_plain(4) keep [OF same_outbound_plain(9)]]
      by (simp add: fail_all_now_def)
    with StopFinish show ?thesis
      using assms by (simp add: finish_client_stop_def Let_def)
  qed (use assms in \<open>simp_all add: outbound_ok_synthesize_prepared cancel_def outbound_ok_enqueue
      dispatcher_step_def outbound_ok_handle_event session keep begin_client_stop_def
      split: option.split\<close>)
qed

lemma reachable_outbound_ok: "client_reachable jd jp c \<Longrightarrow> outbound_ok c"
  by (induction rule: client_reachable.induct)
    (simp add: outbound_ok_def outbound_queue.accounted_def client_start_fresh, rule outbound_ok_action)

section \<open>A client to evaluate\<close>

definition sample_options :: QwenTtsClientOptions where
  "sample_options = \<lparr>co_session = ws_options sample_session, max_outbound_commands = 2,
     max_outbound_command_bytes = 300, text_preparer = None, text_preprocessor = None\<rparr>"

definition sample_json :: json_dump where
  "sample_json j = Inr ''{}''"

definition sample_client :: QwenTtsClient where
  "sample_client = snd (client_start sample_json started_parse True started_env True sample_options
     (new_client sample_options))"

definition all_callbacks :: TtsCallbacks where
  "all_callbacks = \<lparr>on_text_prepared = True, on_audio = True, on_timing = True, on_completed = True,
     on_completion_metadata = True, on_cancelled = True, on_error = True\<rparr>"

definition sample_request :: TtsRequest where
  "sample_request = default_request\<lparr>rq_id := 5, rq_text := ''hi''\<rparr>"

text \<open>A history: the request, a frame of audio for it, its dispatch and its callbacks, and a stop.\<close>

definition sample_history :: "ClientAction list" where
  "sample_history = [Submit sample_request all_callbacks, DispatcherStep (startup_stop started_env),
     SessionStep (Receive (frame_bytes sample_audio)), DispatcherStep (startup_stop started_env),
     InvokeCallback, InvokeCallback, InvokeCallback, StopBegin, StopFinish False]"

lemma sample_client_started:
  "client_start sample_json started_parse True started_env True sample_options (new_client sample_options) =
     (True, sample_client)"
  "accepting sample_client"
proof -
  have "sample_json = (\<lambda>j. Inr ''{}'')" by (simp add: sample_json_def fun_eq_iff)
  moreover have "co_session sample_options = ws_options sample_session" by (simp add: sample_options_def)
  ultimately obtain s where "session_start sample_json started_parse started_env
      (new_session True (co_session sample_options)) = (True, s)"
    using sample_start_succeeds by (metis (full_types) idle_session_def prod.collapse)
  then show "client_start sample_json started_parse True started_env True sample_options
      (new_client sample_options) = (True, sample_client)" "accepting sample_client"
    by (simp_all add: sample_client_def client_start_def sample_options_def new_client_def
        reap_finished_threads_def join_threads_def clear_outbound_queue_locked_def Let_def accepting_def)
qed

lemma sample_client_reachable: "client_reachable sample_json started_parse sample_client"
  by (rule client_reachable.started [OF sample_client_started(1)])

definition sample_prepared :: PreparedTtsRequest where
  "sample_prepared = \<lparr>pr_request = sample_request\<lparr>rq_id := 0\<rparr>,
     pr_text = default_prepared_text\<lparr>pt_original_text := ''hi'', pt_effective_text := ''hi''\<rparr>\<rparr>"

lemma sample_text_valid: "is_valid_utf8 ''hi''"
  by code_simp

lemma sample_encodes:
  "je_error (encode_control_message sample_json
     (SynthesizeM (to_control_message (sample_request\<lparr>rq_id := n\<rparr>)))) = CCE_None"
proof -
  have "validate_control_message (SynthesizeM (to_control_message (sample_request\<lparr>rq_id := n\<rparr>))) = Inr ()"
    by (simp add: to_control_message_def sample_request_def default_request_def and_then_Inr_conv
        default_sampling_def validate_synthesis_sampling_def outside_def default_audio_format_def)
  then show ?thesis
    by (simp add: encode_control_message_ok [where s = "''{}''"] sample_json_def del: validate_control_message.simps)
qed

lemma sample_prepared_accepted:
  assumes "accepting c" "cl_options c = sample_options" "length (cl_outbound c) \<le> 1"
    "cl_outbound_bytes c \<le> 100" "cl_next_request_id c \<noteq> 0"
  shows "fst (synthesize_prepared sample_json sample_prepared cbs c) = cl_next_request_id c"
  using assms sample_text_valid sample_encodes [of 0]
  by (simp add: synthesize_prepared_def sample_prepared_def sample_request_def sample_options_def
      default_request_def default_prepared_text_def allocate_request_id_locked_def
      enqueue_outbound_locked_def to_control_message_def Let_def outbound_command_fixed_overhead_def
      default_audio_format_def)

lemma sample_submission: "fst (synthesize_async sample_json sample_request all_callbacks sample_client) = 5"
  using client_start_fresh [OF sample_client_started(1)] sample_client_started(2) sample_text_valid
    sample_encodes [of 5]
  by (simp add: synthesize_async_def prepare_text_def sample_request_def sample_options_def default_request_def
      synthesize_prepared_def allocate_request_id_locked_def enqueue_outbound_locked_def
      to_control_message_def Let_def outbound_command_fixed_overhead_def default_audio_format_def)


lemma reachable_run: "client_reachable jd jp c \<Longrightarrow> client_reachable jd jp (client_run jd jp acts c)"
  by (induction acts arbitrary: c) (simp_all add: client_reachable.action)

section \<open>Properties\<close>

lemma accepted_view:
  assumes "ids_ok c" "synthesize_async jd r cbs c = (rid, c1)" "rid \<noteq> 0"
  shows "ids_ok c1 \<and> owed cbs (request_view rid c1)"
proof -
  obtain p where p: "synthesize_prepared jd \<lparr>pr_request = r, pr_text = p\<rparr> cbs c = (rid, c1)"
    using assms(2,3) by (auto simp: synthesize_async_def split: sum.splits)
  from assms(1) p have "owed cbs (request_view rid c1)"
  proof (cases rule: synthesize_prepared_cases)
    case (accepted d rq q m)
    have "calls_for rid (all_calls c) = []"
      using allocate_request_id [OF accepted(1)] accepted(2) assms(1)
      by (auto simp: ids_ok_def calls_for_def filter_empty_conv)
    then show ?thesis
      using accepted_requests [OF accepted(8)] allocate_request_id [OF accepted(1)] assms(3)
      by (simp add: request_view_def owed_def new_active_def terminals_def)
  qed (use assms(3) in simp_all)
  moreover have "ids_ok c1" using ids_ok_synthesize_prepared [OF assms(1)] p by (metis snd_conv)
  ultimately show ?thesis by simp
qed

text \<open>C1. Take any running client, submit a request whose completion, cancellation and error
  callbacks are set, and let API calls, writer, dispatcher, session and stop interleave in any way
  afterwards: as long as the request is active it has had no terminal callback, and once it is no
  longer active it has exactly one, invoked or about to be.\<close>

theorem request_exactly_one_terminal:
  assumes "client_reachable jd jp c" and "synthesize_async jd r cbs c = (rid, c1)" and "rid \<noteq> 0"
    and "all_terminals_set cbs"
  shows "terminals (calls_for rid (all_calls (client_run jd jp acts c1))) =
     (if map_of (cl_active (client_run jd jp acts c1)) rid = None then 1 else 0)"
proof -
  have "owed cbs (request_view rid (client_run jd jp acts c1))"
    using accepted_view [OF reachable_ids [OF assms(1)] assms(2,3)] owed_step [OF assms(4)] assms(3)
    by (intro client_run_invariant [where P = "owed cbs"]) simp_all
  then show ?thesis by (auto simp: owed_def request_view_def split: option.splits)
qed

theorem request_exactly_one_terminal_witness:
  "terminals (calls_for 5 (all_calls (client_run sample_json started_parse [StopBegin, StopFinish False]
     (snd (synthesize_async sample_json sample_request all_callbacks sample_client))))) \<le> 1"
  using request_exactly_one_terminal [OF sample_client_reachable, of sample_request all_callbacks 5
      "snd (synthesize_async sample_json sample_request all_callbacks sample_client)" "[StopBegin, StopFinish False]"]
    sample_submission
  by (simp add: prod_eq_iff all_terminals_set_def all_callbacks_def)



text \<open>Whatever callbacks a request sets: it never has more than one terminal callback, and none
  while it is active. Errors reported for a rejected submission carry no identifier and are not
  counted here.\<close>

theorem terminal_at_most_once:
  assumes "client_reachable jd jp c" and "rid \<noteq> 0"
  shows "terminals (calls_for rid (all_calls c)) \<le> (if map_of (cl_active c) rid = None then 1 else 0)"
proof -
  have "once (request_view rid c)"
    using assms by (intro reachable_invariant [where P = once]) (simp_all add: once_step, simp add: once_def)
  then show ?thesis by (auto simp: once_def request_view_def split: option.splits)
qed

theorem terminal_at_most_once_witness:
  "terminals (calls_for 5 (all_calls (client_run sample_json started_parse sample_history sample_client))) \<le> 1"
  using terminal_at_most_once [OF reachable_run [OF sample_client_reachable], of 5 sample_history]
  by (simp split: if_splits)

text \<open>C7. The chunks handed to the audio callback of a request form one gapless timeline: the first
  starts at sample 0, each starts where its predecessor ended (in the 64-bit arithmetic of the
  counter), none is empty, and the sample count of each is exactly its bytes divided by the frame
  size of its format.\<close>

theorem audio_timeline_contiguous:
  assumes "client_reachable jd jp c" and "rid \<noteq> 0"
  shows "contiguous 0 (calls_for rid (cl_log c))"
proof -
  have "on_timeline (request_view rid c)"
    using assms by (intro reachable_invariant [where P = on_timeline])
      (simp_all add: on_timeline_step, simp add: on_timeline_def)
  then show ?thesis by (simp add: on_timeline_def request_view_def all_calls_def)
qed

theorem audio_timeline_contiguous_witness:
  "contiguous 0 (calls_for 5 (cl_log (client_run sample_json started_parse sample_history sample_client)))"
  using audio_timeline_contiguous [OF reachable_run [OF sample_client_reachable], of 5] by simp

text \<open>The prepared text of a request is delivered at most once, before any audio or timing of
  that request.\<close>

theorem text_prepared_before_audio:
  assumes "client_reachable jd jp c" and "rid \<noteq> 0"
  shows "text_first (calls_for rid (cl_log c))"
proof -
  have "text_view (request_view rid c)"
    using assms by (intro reachable_invariant [where P = text_view])
      (simp_all add: text_view_step, simp add: text_view_def text_first_def)
  then have "list_all (\<lambda>c. \<not> is_text_call c) (tl (filter is_stream (calls_for rid (cl_log c)) @
      filter is_stream (calls_for rid (cl_pending c))))"
    by (simp add: text_view_def text_first_def request_view_def all_calls_def)
  then show ?thesis
    unfolding text_first_def by (cases "filter is_stream (calls_for rid (cl_log c))") simp_all
qed

theorem text_prepared_before_audio_witness:
  "text_first (calls_for 5 (cl_log (client_run sample_json started_parse sample_history sample_client)))"
  using text_prepared_before_audio [OF reachable_run [OF sample_client_reachable], of 5] by simp

text \<open>C19. Each request follows the request machine: nothing is seen of it before its submission is
  accepted, and from then on it goes through started, audio and finish steps only.\<close>

theorem requests_follow_machine:
  assumes "client_reachable jd jp c" and "rid \<noteq> 0"
  shows "(request_step rid)\<^sup>*\<^sup>* (None, []) (request_view rid c)"
  using assms by (intro reachable_invariant [where P = "(request_step rid)\<^sup>*\<^sup>* (None, [])"])
    (blast intro: rtranclp.rtrancl_into_rtrancl, simp_all)

theorem requests_follow_machine_witness:
  "(request_step 5)\<^sup>*\<^sup>* (None, [])
     (request_view 5 (client_run sample_json started_parse sample_history sample_client))"
  using requests_follow_machine [OF reachable_run [OF sample_client_reachable], of 5] by simp

lemma next_id_kept:
  "cl_next_request_id (client_action jd jp a c) = cl_next_request_id c \<or>
   (\<exists>r cbs. a = Submit r cbs) \<or> (\<exists>pr cbs. a = SubmitPrepared pr cbs)"
  by (cases a)
    (simp_all add: cancel_def enqueue_outbound_locked_def push_command_def writer_step_def pop_command_def
      dispatcher_step_def handle_event_def handle_control_event_def handle_started_def handle_audio_event_def
      handle_worker_error_def handle_local_error_def complete_request_def cancel_request_locally_def
      fail_request_def finish_request_def count_duplicate_def defer_calls_def invoke_user_callback_def
      invoke_calls_def begin_client_stop_def stop_session_def clear_outbound_queue_locked_def
      finish_client_stop_def fail_all_now_def fail_all_deferred_def join_threads_def Let_def
      split: option.split list.split WorkerSessionEventType.split ControlMessage.split, auto)

lemma id_used_synthesize_prepared:
  assumes "ids_ok c" "id_used c rid"
  shows "id_used (snd (synthesize_prepared jd pr cbs c)) rid"
proof -
  obtain r c' where sp: "synthesize_prepared jd pr cbs c = (r, c')" by fastforce
  from assms(1) sp have "id_used c' rid"
  proof (cases rule: synthesize_prepared_cases)
    case refused
    then show ?thesis
      using assms(2) by (auto simp: id_used_def reject_call_def invoke_calls_def split: if_splits)
  next
    case dropped
    then show ?thesis using id_used_mono assms(2) by blast
  next
    case (accepted c1 rq p m)
    then show ?thesis
      using id_used_mono [OF accepted(1) assms(2)] by (simp add: id_used_def push_command_def)
  qed
  with sp show ?thesis by simp
qed

lemma id_used_action:
  assumes "ids_ok c" "id_used c rid"
  shows "id_used (client_action jd jp a c) rid"
  using next_id_kept [of jd jp a c]
proof (elim disjE exE)
  fix r cbs assume "a = Submit r cbs"
  then show ?thesis
    using assms id_used_synthesize_prepared [OF assms]
    by (auto simp: synthesize_async_def reject_call_def invoke_calls_def id_used_def split: sum.split)
qed (use assms id_used_synthesize_prepared [OF assms] in \<open>simp_all add: id_used_def\<close>)

lemma id_used_run: "ids_ok c \<Longrightarrow> id_used c rid \<Longrightarrow> id_used (client_run jd jp acts c) rid"
  by (induction acts arbitrary: c) (simp_all add: client_action_keeps_ids id_used_action)

lemma synthesize_prepared_id:
  assumes "ids_ok c" "synthesize_prepared jd pr cbs c = (rid, c')" "rid \<noteq> 0"
  shows "cl_next_request_id c \<noteq> 0 \<and> cl_next_request_id c \<le> rid \<and> id_used c' rid"
  using assms(1,2)
proof (cases rule: synthesize_prepared_cases)
  case (accepted c1 rq p m)
  then show ?thesis
    using allocate_request_id [OF accepted(1)] by (auto simp: id_used_def push_command_def)
qed (use assms(3) in simp_all)

text \<open>C25. Request identifiers are strictly increasing in the order of acceptance and never wrap:
  whatever happens between two accepted submissions, the later one has the larger identifier.\<close>

theorem request_ids_strictly_increase:
  assumes "client_reachable jd jp c"
    and "synthesize_prepared jd pr1 cbs1 c = (rid1, c1)" and "rid1 \<noteq> 0"
    and "synthesize_prepared jd pr2 cbs2 (client_run jd jp acts c1) = (rid2, c2)" and "rid2 \<noteq> 0"
  shows "rid1 < rid2"
proof -
  have ids: "ids_ok c1" "ids_ok (client_run jd jp acts c1)"
    using ids_ok_synthesize_prepared [OF reachable_ids [OF assms(1)]] assms(2) client_run_ids
    by (metis snd_conv)+
  have "id_used (client_run jd jp acts c1) rid1"
    using synthesize_prepared_id [OF reachable_ids [OF assms(1)] assms(2,3)] id_used_run [OF ids(1)] by blast
  then show ?thesis
    using synthesize_prepared_id [OF ids(2) assms(4,5)] by (auto simp: id_used_def)
qed

theorem request_ids_strictly_increase_witness:
  "\<exists>c1 c2 rid. synthesize_prepared sample_json sample_prepared all_callbacks sample_client = (1, c1) \<and>
     synthesize_prepared sample_json sample_prepared all_callbacks c1 = (rid, c2) \<and> 1 < rid"
proof -
  note fresh = client_start_fresh [OF sample_client_started(1)]
  obtain c1 where c1: "synthesize_prepared sample_json sample_prepared all_callbacks sample_client = (1, c1)"
    using sample_prepared_accepted [OF sample_client_started(2), of all_callbacks] fresh by (metis (no_types)
        One_nat_def le_numeral_extra(3) length_0_conv less_eq_nat.simps(1) prod.collapse zero_neq_one)
  from reachable_ids [OF sample_client_reachable] c1
  have "accepting c1 \<and> cl_options c1 = sample_options \<and> length (cl_outbound c1) \<le> 1 \<and>
    cl_outbound_bytes c1 \<le> 100 \<and> cl_next_request_id c1 \<noteq> 0"
  proof (cases rule: synthesize_prepared_cases)
    case (accepted d rq p m)
    have d: "d = sample_client\<lparr>cl_next_request_id := 2\<rparr>"
      using accepted(1) fresh by (simp add: sample_prepared_def allocate_request_id_locked_def Let_def)
    show ?thesis
      using fresh accepted(3,5,7,8)
      by (simp add: d push_command_def accepting_def sample_prepared_def sample_request_def
          default_request_def default_prepared_text_def to_control_message_def
          outbound_command_fixed_overhead_def default_audio_format_def)
  qed simp_all
  then have facts: "accepting c1" "cl_options c1 = sample_options" "length (cl_outbound c1) \<le> 1"
    "cl_outbound_bytes c1 \<le> 100" "cl_next_request_id c1 \<noteq> 0" by simp_all
  obtain rid c2 where c2: "synthesize_prepared sample_json sample_prepared all_callbacks c1 = (rid, c2)" by fastforce
  then have "rid \<noteq> 0" using sample_prepared_accepted [OF facts, of all_callbacks] facts(5) by simp
  then have "1 < rid"
    using request_ids_strictly_increase [OF sample_client_reachable c1, where acts = "[]"] c2 by simp
  with c1 c2 show ?thesis by blast
qed

text \<open>The outbound queue stays within its configured number of commands and bytes, and its byte
  counter is always the sum over the queued commands, so that it never runs below zero.\<close>

theorem outbound_queue_bounded:
  assumes "client_reachable jd jp c"
  shows "length (cl_outbound c) \<le> max_outbound_commands (cl_options c) \<and>
     cl_outbound_bytes c \<le> max_outbound_command_bytes (cl_options c) \<and>
     cl_outbound_bytes c = sum_list (map oc_queued_bytes (cl_outbound c))"
  using reachable_outbound_ok [OF assms] by (simp add: outbound_ok_def outbound_queue.accounted_def)

theorem outbound_queue_bounded_witness:
  "length (cl_outbound (client_run sample_json started_parse sample_history sample_client)) \<le>
     max_outbound_commands (cl_options (client_run sample_json started_parse sample_history sample_client))"
  using outbound_queue_bounded [OF reachable_run [OF sample_client_reachable]] by blast

text \<open>An accepted submission does what it promises: the client was running, the message it
  queued is the valid synthesize message of the prepared text, it stands at the end of the
  outbound queue under the request's identifier, and the request is active with nothing delivered.\<close>

theorem accepted_submission_recorded:
  assumes "client_reachable jd jp c" and "synthesize_prepared jd pr cbs c = (rid, c')" and "rid \<noteq> 0"
  shows "is_running c \<and>
     (let m = SynthesizeM (to_control_message ((pr_request pr)\<lparr>rq_text := pt_effective_text (pr_text pr)\<rparr>)) in
      je_error (encode_control_message jd m) = CCE_None \<and>
      cl_outbound c' = cl_outbound c @
        [\<lparr>oc_request_id = rid, oc_message = m, oc_queued_bytes = outbound_command_size m\<rparr>] \<and>
      map_of (cl_active c) rid = None \<and>
      map_of (cl_active c') rid = Some (new_active cbs (pr_request pr) (refresh_prepared_text_metrics (pr_text pr))) \<and>
      all_calls c' = all_calls c)"
  using reachable_ids [OF assms(1)] assms(2)
proof (cases rule: synthesize_prepared_cases)
  case (accepted c1 rq p m)
  have fresh: "map_of (cl_active c) rid = None"
    using allocate_request_id [OF accepted(1)] assms(1,3) reachable_ids
    by (auto simp: ids_ok_def map_of_eq_None_iff)
  have "cl_outbound c1 = cl_outbound c" "all_calls c1 = all_calls c"
    using same_outbound_allocate [OF accepted(1)] allocate_request_id [OF accepted(1)] assms(3)
    by (auto simp: same_outbound_def)
  moreover have "new_active cbs rq p = new_active cbs (pr_request pr) p"
    using accepted(3) by (simp add: new_active_def)
  ultimately show ?thesis
    using accepted fresh accepted_requests [OF accepted(8)]
    by (simp add: Let_def is_running_def push_command_def del: outbound_command_size.simps)
qed (use assms(3) in simp_all)

theorem accepted_submission_recorded_witness:
  "\<exists>c'. synthesize_prepared sample_json sample_prepared all_callbacks sample_client = (1, c') \<and>
     length (cl_outbound c') = 1 \<and> map_of (cl_active c') 1 \<noteq> None"
proof -
  note fresh = client_start_fresh [OF sample_client_started(1)]
  obtain c1 where c1: "synthesize_prepared sample_json sample_prepared all_callbacks sample_client = (1, c1)"
    using sample_prepared_accepted [OF sample_client_started(2), of all_callbacks] fresh
    by (simp add: prod_eq_iff)
  with accepted_submission_recorded [OF sample_client_reachable c1] fresh show ?thesis
    by (simp add: Let_def)
qed

text \<open>A submission that returns no identifier leaves no trace but its rejection: the active
  requests, the outbound queue and every callback owed to a request are as before.\<close>

theorem refused_submission_no_effect:
  assumes "client_reachable jd jp c" and "synthesize_prepared jd pr cbs c = (0, c')"
  shows "cl_active c' = cl_active c \<and> cl_outbound c' = cl_outbound c \<and> cl_pending c' = cl_pending c \<and>
     (\<forall>rid. rid \<noteq> 0 \<longrightarrow> request_view rid c' = request_view rid c)"
  using reachable_ids [OF assms(1)] assms(2)
proof (cases rule: synthesize_prepared_cases)
  case (refused e)
  then show ?thesis
    by (auto simp: step_reject) (auto simp: reject_call_def invoke_calls_def split: if_splits)
next
  case (dropped r)
  have "c' = c\<lparr>cl_next_request_id := cl_next_request_id c'\<rparr>" and same: "cl_active c' = cl_active c" "all_calls c' = all_calls c"
    using allocate_request_id [OF dropped(2)] dropped(3) by auto
  then have "cl_pending c' = cl_pending c \<and> cl_outbound c' = cl_outbound c"
    by (metis (no_types) QwenTtsClient.select_convs(14,4) QwenTtsClient.surjective QwenTtsClient.update_convs(8))
  with same show ?thesis by (simp add: request_view_def)
qed simp

theorem refused_submission_no_effect_witness:
  "cl_outbound (snd (synthesize_prepared sample_json (sample_prepared\<lparr>pr_text := default_prepared_text\<rparr>)
     all_callbacks sample_client)) = cl_outbound sample_client"
proof -
  let ?s = "synthesize_prepared sample_json (sample_prepared\<lparr>pr_text := default_prepared_text\<rparr>) all_callbacks sample_client"
  have "fst ?s = 0"
    by (simp add: synthesize_prepared_def sample_prepared_def default_prepared_text_def sample_request_def
        default_request_def)
  then show ?thesis
    using refused_submission_no_effect [OF sample_client_reachable, of _ all_callbacks "snd ?s"]
    by (metis prod.collapse)
qed

text \<open>Text preparation returns valid, non-empty UTF-8 that belongs to the request, with metrics
  that describe it, whatever the installed hooks do: everything else is an error.\<close>

theorem prepared_text_is_valid:
  assumes "prepare_text options r = Inr p"
  shows "pt_original_text p = rq_text r \<and> is_valid_utf8 (pt_effective_text p) \<and> pt_effective_text p \<noteq> [] \<and>
     pt_utf8_bytes p = length (pt_effective_text p) \<and>
     count_non_space_utf8_bytes (pt_effective_text p) = Some (pt_non_space_utf8_bytes p)"
proof -
  obtain q where p: "p = refresh_prepared_text_metrics q" and q: "pt_original_text q = rq_text r"
      "is_valid_utf8 (pt_effective_text q)" "pt_effective_text q \<noteq> []"
    using assms
    by (auto simp: prepare_text_def check_prepared_def split: option.splits PreparerOutcome.splits
        sum.splits if_splits)
  obtain n where "count_non_space_utf8_bytes (pt_effective_text q) = Some n"
    using q(2) valid_utf8_is_encoding count_bytes_concat
    by (auto simp: is_valid_utf8_def count_non_space_utf8_bytes_def) metis
  then show ?thesis using p q by (simp add: refresh_prepared_text_metrics_def)
qed

theorem prepared_text_is_valid_witness:
  "\<exists>p. prepare_text sample_options sample_request = Inr p \<and> pt_utf8_bytes p = 2"
  using prepared_text_is_valid [of sample_options sample_request] sample_text_valid
  by (simp add: prepare_text_def sample_options_def sample_request_def)

section \<open>Where the client departs from its documentation\<close>

text \<open>A request callback may call \<open>stop\<close>. Called from the text callback of the first audio event,
  \<open>stop\<close> reports the request as failed, and the audio callback of the event is invoked after that:
  the request's terminal callback is not its last.\<close>

theorem audio_follows_error_on_nested_stop:
  assumes "cl_active c = [(rid, ar)]" and "cl_pending c = []" and "cl_session c = Some s"
    and "pop_event s = Some (ev, s')" and "ev_type ev = Ev_Audio" and "ev_request_id ev = rid"
    and "ev_audio ev \<noteq> []" and "sample_count_for_audio (ar_audio_format ar) (length (ev_audio ev)) = Some n"
    and "ar_prepared_text ar = Some p" and "\<not> ar_text_context_delivered ar"
    and "on_text_prepared (ar_callbacks ar)" and "on_audio (ar_callbacks ar)" and "on_error (ar_callbacks ar)"
  shows "cl_log (client_run jd jp
       [DispatcherStep env, InvokeCallback, StopBegin, StopSession env, StopFinish True, InvokeCallback] c) =
     cl_log c @ [(rid, TextPreparedCall p), (rid, ErrorCall (client_stopped_error\<lparr>te_request_id := rid\<rparr>)),
       (rid, AudioCall (audio_chunk rid ar (ev_audio ev) n))]"
proof -
  let ?ar = "(mark_delivered ar)\<lparr>ar_next_sample := ar_next_sample ar + ucast n\<rparr>"
  let ?calls = "map (\<lambda>call. (rid, call)) (audio_calls ar (audio_chunk rid ar (ev_audio ev) n))"
  obtain rest where calls: "?calls = (rid, AudioCall (audio_chunk rid ar (ev_audio ev) n)) # rest"
    using assms(7,12) by (auto simp: audio_calls_def audio_chunk_def)
  have "dispatcher_step jd jp env c = c\<lparr>cl_session := Some s', cl_active := [(rid, ?ar)],
      cl_pending := (rid, TextPreparedCall p) # ?calls\<rparr>"
    using assms(1-11)
    by (simp add: dispatcher_step_def handle_event_def handle_audio_event_def Let_def deliver_text_def
        defer_calls_def assoc_modify_def)
  with calls assms(13) show ?thesis
    by (simp add: invoke_user_callback_def invoke_calls_def begin_client_stop_def
        clear_outbound_queue_locked_def stop_session_def finish_client_stop_def join_threads_def Let_def
        fail_all_now_def failure_calls_def client_stopped_error_def make_local_error_def)
qed

definition nested_client :: QwenTtsClient where
  "nested_client = (new_client sample_options)\<lparr>cl_running := True,
     cl_session := Some (push_event (default_event\<lparr>ev_type := Ev_Audio, ev_request_id := 5, ev_audio := [1, 2]\<rparr>)
       sample_session),
     cl_active := [(5, new_active all_callbacks sample_request default_prepared_text)]\<rparr>"

theorem audio_follows_error_on_nested_stop_witness:
  "\<exists>e chunk. map snd (drop 1 (cl_log (client_run sample_json sample_parse
      [DispatcherStep (startup_stop started_env), InvokeCallback, StopBegin,
       StopSession (startup_stop started_env), StopFinish True, InvokeCallback] nested_client))) =
     [ErrorCall e, AudioCall chunk]"
  using audio_follows_error_on_nested_stop [of nested_client 5
      "new_active all_callbacks sample_request default_prepared_text"
      "push_event (default_event\<lparr>ev_type := Ev_Audio, ev_request_id := 5, ev_audio := [1, 2]\<rparr>) sample_session"
      "default_event\<lparr>ev_type := Ev_Audio, ev_request_id := 5, ev_audio := [1, 2]\<rparr>" sample_session
      1 default_prepared_text sample_json sample_parse "startup_stop started_env"]
  by (simp add: nested_client_def new_client_def pop_event_def push_event_def sample_session_def
      new_session_def saturating_sub_def default_event_def new_active_def all_callbacks_def
      sample_request_def default_request_def default_audio_format_def sample_count_for_audio_def
      bytes_per_sample_def del: client_run_Cons)

text \<open>The protocol makes an empty audio payload a violation that fails its request; the client takes it
  as zero samples whatever the audio format: the request stays active, its timeline does not move,
  and neither an error nor an audio callback follows.\<close>

theorem empty_audio_tolerated:
  assumes "map_of (cl_active c) rid = Some ar"
  shows "map_of (cl_active (handle_audio_event rid [] c)) rid = Some (mark_delivered ar) \<and>
     cl_pending (handle_audio_event rid [] c) = cl_pending c @ deliver_text rid ar"
proof -
  have "(case sample_count_for_audio (ar_audio_format ar) 0 of Some n \<Rightarrow> n | None \<Rightarrow> 0) = 0"
    using sample_count_empty by (auto split: option.split)
  moreover have "(mark_delivered ar)\<lparr>ar_next_sample := ar_next_sample ar\<rparr> = mark_delivered ar"
    by (simp add: mark_delivered_def)
  ultimately show ?thesis
    using assms by (simp add: handle_audio_event_def Let_def defer_calls_def map_of_assoc_modify
        audio_calls_def audio_chunk_def)
qed

theorem empty_audio_tolerated_witness:
  "map_of (cl_active (handle_audio_event 5 [] nested_client)) 5 \<noteq> None"
  using empty_audio_tolerated [of nested_client 5] by (simp add: nested_client_def)

end
