(* ===== verification/Playback_Receipt.thy ===== *)
theory Playback_Receipt
  imports Protocol_Types Json_Values
begin

text \<open>
  \<open>src/qwen_tts_bridge/playback/playback_receipt.cpp\<close> and its headers: the probe that records which
  samples of a request were handed to playback and which cues were published for them, and selects
  the cue under a measured cursor. A \<open>float\<close> is the value it stands for.
\<close>

section \<open>Structures\<close>

datatype PlaybackReceiptStatus =
  Accepted_Item | StaleEpoch | StaleRequest | InvalidRange | InvalidSampleRate | SampleRateMismatch |
  DiscontinuousPcm | DiscontinuousCue | CueHistoryFull | AlreadyTerminal

fun playback_receipt_status_name :: "PlaybackReceiptStatus \<Rightarrow> string" where
  "playback_receipt_status_name Accepted_Item = ''accepted''"
| "playback_receipt_status_name StaleEpoch = ''stale_epoch''"
| "playback_receipt_status_name StaleRequest = ''stale_request''"
| "playback_receipt_status_name InvalidRange = ''invalid_range''"
| "playback_receipt_status_name InvalidSampleRate = ''invalid_sample_rate''"
| "playback_receipt_status_name SampleRateMismatch = ''sample_rate_mismatch''"
| "playback_receipt_status_name DiscontinuousPcm = ''discontinuous_pcm''"
| "playback_receipt_status_name DiscontinuousCue = ''discontinuous_cue''"
| "playback_receipt_status_name CueHistoryFull = ''cue_history_full''"
| "playback_receipt_status_name AlreadyTerminal = ''already_terminal''"

record PlaybackCue =
  cue_epoch :: u64
  cue_request_id :: RequestId
  cue_first_sample :: u64
  cue_samples :: u32
  mouth_open :: dbl
  activity :: dbl

record PlaybackCursorSnapshot =
  sn_epoch :: u64
  sn_request_id :: RequestId
  utterance_sample :: u64
  sn_sample_rate :: u32
  position_available :: bool

datatype SelectionStatus =
  Selected | CursorUnavailable | SelStaleEpoch | SelStaleRequest | SelSampleRateMismatch | OutsideCueTimeline

fun selection_status_name :: "SelectionStatus \<Rightarrow> string" where
  "selection_status_name Selected = ''selected''"
| "selection_status_name CursorUnavailable = ''cursor_unavailable''"
| "selection_status_name SelStaleEpoch = ''stale_epoch''"
| "selection_status_name SelStaleRequest = ''stale_request''"
| "selection_status_name SelSampleRateMismatch = ''sample_rate_mismatch''"
| "selection_status_name OutsideCueTimeline = ''outside_cue_timeline''"

definition default_cue :: PlaybackCue where
  "default_cue = \<lparr>cue_epoch = 0, cue_request_id = 0, cue_first_sample = 0, cue_samples = 0,
     mouth_open = Finite 0, activity = Finite 0\<rparr>"

record PlaybackCueSelection =
  sel_status :: SelectionStatus
  sel_epoch :: u64
  sel_request_id :: RequestId
  cursor_sample :: u64
  sel_cue :: PlaybackCue

record PlaybackReceipt =
  rc_epoch :: u64
  rc_request_id :: RequestId
  pcm_chunk_count :: nat
  pcm_sample_count :: u64
  cue_count :: nat
  cue_sample_count :: u64
  rc_sample_rate :: u32
  pcm_contiguous :: bool
  cue_contiguous :: bool
  cue_history_overflow :: bool
  rc_terminal :: bool

definition default_receipt :: PlaybackReceipt where
  "default_receipt = \<lparr>rc_epoch = 0, rc_request_id = 0, pcm_chunk_count = 0, pcm_sample_count = 0, cue_count = 0,
     cue_sample_count = 0, rc_sample_rate = 0, pcm_contiguous = True, cue_contiguous = True,
     cue_history_overflow = False, rc_terminal = False\<rparr>"

datatype LifecycleState = Uninitialized | Active | Invalidated

record PlaybackReceiptProbe =
  max_cues :: nat
  lifecycle_state :: LifecycleState
  pb_epoch :: u64
  pb_request_id :: RequestId
  next_pcm_sample :: u64
  next_cue_sample :: u64
  pcm_started :: bool
  cue_started :: bool
  pb_receipt :: PlaybackReceipt
  pb_cues :: "PlaybackCue list"

section \<open>Operations\<close>

definition new_probe :: "nat \<Rightarrow> string + PlaybackReceiptProbe" where
  "new_probe n =
     (if n = 0 then Inl ''playback receipt cue history must be bounded''
      else Inr \<lparr>max_cues = n, lifecycle_state = Uninitialized, pb_epoch = 0, pb_request_id = 0,
        next_pcm_sample = 0, next_cue_sample = 0, pcm_started = False, cue_started = False,
        pb_receipt = default_receipt, pb_cues = []\<rparr>)"

definition range_end :: "u64 \<Rightarrow> u32 \<Rightarrow> u64 option" where
  "range_end first count =
     (if count = 0 \<or> first > - 1 - ucast count then None else Some (first + ucast count))"

definition probe_begin :: "u64 \<Rightarrow> RequestId \<Rightarrow> PlaybackReceiptProbe \<Rightarrow> string + PlaybackReceiptProbe" where
  "probe_begin epoch rid p =
     (if epoch = 0 \<or> rid = 0 then Inl ''playback receipt requires non-zero epoch and request id''
      else
        (let claim = (lifecycle_state p = Invalidated \<and> epoch = pb_epoch p) in
         if \<not> claim \<and> epoch \<le> pb_epoch p then Inl ''playback receipt epoch must increase monotonically''
         else
           Inr (p\<lparr>lifecycle_state := (if claim \<or> epoch > pb_epoch p then Active else lifecycle_state p),
                  pb_epoch := epoch, pb_request_id := rid, next_pcm_sample := 0, next_cue_sample := 0,
                  pcm_started := False, cue_started := False, pb_cues := [],
                  pb_receipt := default_receipt\<lparr>rc_epoch := epoch, rc_request_id := rid\<rparr>\<rparr>)))"

definition probe_invalidate :: "u64 \<Rightarrow> PlaybackReceiptProbe \<Rightarrow> string + PlaybackReceiptProbe" where
  "probe_invalidate epoch p =
     (if epoch = 0 then Inl ''playback receipt epoch must be non-zero''
      else if epoch \<le> pb_epoch p then Inl ''playback receipt epoch must increase monotonically''
      else
        Inr (p\<lparr>pb_epoch := epoch, lifecycle_state := Invalidated, pb_request_id := 0, next_pcm_sample := 0,
               next_cue_sample := 0, pcm_started := False, cue_started := False, pb_cues := [],
               pb_receipt := default_receipt\<lparr>rc_epoch := epoch\<rparr>\<rparr>))"

definition observe_pcm ::
  "u64 \<Rightarrow> PcmChunk \<Rightarrow> PlaybackReceiptProbe \<Rightarrow> PlaybackReceiptStatus \<times> PlaybackReceiptProbe" where
  "observe_pcm epoch chunk p =
     (let rc = pb_receipt p; rate = sample_rate (pcm_format chunk) in
      if epoch \<noteq> pb_epoch p then (StaleEpoch, p)
      else if pb_request_id p = 0 \<or> pcm_request_id chunk \<noteq> pb_request_id p then (StaleRequest, p)
      else if rc_terminal rc then (AlreadyTerminal, p)
      else if sample_count chunk = 0 then (InvalidRange, p)
      else if rate = 0 then (InvalidSampleRate, p)
      else if rc_sample_rate rc \<noteq> 0 \<and> rc_sample_rate rc \<noteq> rate then (SampleRateMismatch, p)
      else
        (case range_end (first_sample chunk) (sample_count chunk) of
           None \<Rightarrow> (InvalidRange, p)
         | Some end_sample \<Rightarrow>
             (let rc = (if rc_sample_rate rc = 0 then rc\<lparr>rc_sample_rate := rate\<rparr> else rc) in
              if pcm_started p \<and> first_sample chunk \<noteq> next_pcm_sample p then
                (DiscontinuousPcm, p\<lparr>pb_receipt := rc\<lparr>pcm_contiguous := False\<rparr>\<rparr>)
              else if \<not> pcm_started p \<and> first_sample chunk \<noteq> 0 then
                (DiscontinuousPcm, p\<lparr>pb_receipt := rc\<lparr>pcm_contiguous := False\<rparr>\<rparr>)
              else
                (Accepted_Item, p\<lparr>pcm_started := True, next_pcm_sample := end_sample,
                   pb_receipt := rc\<lparr>pcm_chunk_count := pcm_chunk_count rc + 1, pcm_sample_count := end_sample\<rparr>\<rparr>))))"

definition append_cue ::
  "PlaybackCue \<Rightarrow> PlaybackReceiptProbe \<Rightarrow> PlaybackReceiptStatus \<times> PlaybackReceiptProbe" where
  "append_cue cue p =
     (let rc = pb_receipt p in
      if cue_epoch cue \<noteq> pb_epoch p then (StaleEpoch, p)
      else if pb_request_id p = 0 \<or> cue_request_id cue \<noteq> pb_request_id p then (StaleRequest, p)
      else if rc_terminal rc then (AlreadyTerminal, p)
      else if cue_samples cue = 0 then (InvalidRange, p)
      else if \<not> isfinite (mouth_open cue) \<or> \<not> isfinite (activity cue) then (InvalidRange, p)
      else
        (case range_end (cue_first_sample cue) (cue_samples cue) of
           None \<Rightarrow> (InvalidRange, p)
         | Some end_sample \<Rightarrow>
             if cue_started p \<and> cue_first_sample cue \<noteq> next_cue_sample p then
               (DiscontinuousCue, p\<lparr>pb_receipt := rc\<lparr>cue_contiguous := False\<rparr>\<rparr>)
             else if length (pb_cues p) \<ge> max_cues p then
               (CueHistoryFull, p\<lparr>pb_receipt := rc\<lparr>cue_history_overflow := True\<rparr>\<rparr>)
             else if cue_sample_count rc > - 1 - ucast (cue_samples cue) then (InvalidRange, p)
             else
               (Accepted_Item, p\<lparr>cue_started := True, next_cue_sample := end_sample, pb_cues := pb_cues p @ [cue],
                  pb_receipt := rc\<lparr>cue_count := cue_count rc + 1,
                    cue_sample_count := cue_sample_count rc + ucast (cue_samples cue)\<rparr>\<rparr>)))"

definition cue_at :: "u64 \<Rightarrow> PlaybackCue \<Rightarrow> bool" where
  "cue_at s cue \<longleftrightarrow>
     (case range_end (cue_first_sample cue) (cue_samples cue) of
        None \<Rightarrow> False
      | Some end_sample \<Rightarrow> cue_first_sample cue \<le> s \<and> s < end_sample)"

definition probe_select :: "PlaybackCursorSnapshot \<Rightarrow> PlaybackReceiptProbe \<Rightarrow> PlaybackCueSelection" where
  "probe_select sn p =
     (let sel = \<lparr>sel_status = OutsideCueTimeline, sel_epoch = sn_epoch sn, sel_request_id = sn_request_id sn,
                 cursor_sample = utterance_sample sn, sel_cue = default_cue\<rparr>
      in
      if sn_epoch sn \<noteq> pb_epoch p then sel\<lparr>sel_status := SelStaleEpoch\<rparr>
      else if pb_request_id p = 0 \<or> sn_request_id sn \<noteq> pb_request_id p then sel\<lparr>sel_status := SelStaleRequest\<rparr>
      else if \<not> position_available sn then sel\<lparr>sel_status := CursorUnavailable\<rparr>
      else if rc_sample_rate (pb_receipt p) = 0 \<or> sn_sample_rate sn \<noteq> rc_sample_rate (pb_receipt p) then
        sel\<lparr>sel_status := SelSampleRateMismatch\<rparr>
      else
        (case find (cue_at (utterance_sample sn)) (pb_cues p) of
           Some cue \<Rightarrow> sel\<lparr>sel_status := Selected, sel_cue := cue\<rparr>
         | None \<Rightarrow> sel\<lparr>sel_status := OutsideCueTimeline\<rparr>))"

definition mark_terminal :: "u64 \<Rightarrow> RequestId \<Rightarrow> PlaybackReceiptProbe \<Rightarrow> bool \<times> PlaybackReceiptProbe" where
  "mark_terminal epoch rid p =
     (if epoch \<noteq> pb_epoch p \<or> pb_request_id p = 0 \<or> rid \<noteq> pb_request_id p \<or> rc_terminal (pb_receipt p)
      then (False, p)
      else (True, p\<lparr>pb_receipt := (pb_receipt p)\<lparr>rc_terminal := True\<rparr>\<rparr>))"

section \<open>Reachable probes\<close>

inductive probe_step :: "PlaybackReceiptProbe \<Rightarrow> PlaybackReceiptProbe \<Rightarrow> bool" where
  begun: "probe_begin epoch rid p = Inr p' \<Longrightarrow> probe_step p p'"
| invalidated: "probe_invalidate epoch p = Inr p' \<Longrightarrow> probe_step p p'"
| pcm: "observe_pcm epoch chunk p = (st, p') \<Longrightarrow> probe_step p p'"
| cue: "append_cue c p = (st, p') \<Longrightarrow> probe_step p p'"
| terminal: "mark_terminal epoch rid p = (ok, p') \<Longrightarrow> probe_step p p'"

inductive probe_reachable :: "PlaybackReceiptProbe \<Rightarrow> bool" where
  fresh: "new_probe n = Inr p \<Longrightarrow> probe_reachable p"
| step: "probe_reachable p \<Longrightarrow> probe_step p p' \<Longrightarrow> probe_reachable p'"

abbreviation cue_end :: "PlaybackCue \<Rightarrow> u64 option" where
  "cue_end c \<equiv> range_end (cue_first_sample c) (cue_samples c)"

text \<open>A sequence of cues without gaps and without wrap-around.\<close>

fun cue_chain :: "PlaybackCue list \<Rightarrow> bool" where
  "cue_chain [] = True"
| "cue_chain [c] = (cue_end c \<noteq> None)"
| "cue_chain (c # d # cs) = (cue_end c = Some (cue_first_sample d) \<and> cue_chain (d # cs))"

lemma cue_chain_snoc:
  "cue_chain (cs @ [c]) \<longleftrightarrow>
     cue_chain cs \<and> cue_end c \<noteq> None \<and> (cs = [] \<or> cue_end (last cs) = Some (cue_first_sample c))"
  by (induction cs rule: cue_chain.induct) auto

definition cues_inv :: "PlaybackReceiptProbe \<Rightarrow> bool" where
  "cues_inv p \<longleftrightarrow>
     length (pb_cues p) \<le> max_cues p \<and> cue_chain (pb_cues p) \<and>
     cue_count (pb_receipt p) = length (pb_cues p) \<and>
     unat (cue_sample_count (pb_receipt p)) = (\<Sum>c\<leftarrow>pb_cues p. unat (cue_samples c)) \<and>
     (cue_started p \<longleftrightarrow> pb_cues p \<noteq> []) \<and>
     (pb_cues p \<noteq> [] \<longrightarrow> cue_end (last (pb_cues p)) = Some (next_cue_sample p)) \<and>
     (\<forall>c\<in>set (pb_cues p). cue_epoch c = pb_epoch p \<and> cue_request_id c = pb_request_id p)"

definition pcm_inv :: "PlaybackReceiptProbe \<Rightarrow> bool" where
  "pcm_inv p \<longleftrightarrow>
     rc_epoch (pb_receipt p) = pb_epoch p \<and> rc_request_id (pb_receipt p) = pb_request_id p \<and>
     pcm_sample_count (pb_receipt p) = (if pcm_started p then next_pcm_sample p else 0) \<and>
     (pcm_started p \<longleftrightarrow> pcm_chunk_count (pb_receipt p) \<noteq> 0)"

lemma unat_ucast_u32 [simp]: "unat (ucast (n :: u32) :: u64) = unat n"
proof -
  have "unat n < 2 ^ 64" using unat_u32_less [of n] by simp
  then show ?thesis by (simp add: unsigned_ucast_eq take_bit_nat_eq_self)
qed

lemma no_wrap:
  assumes "\<not> a > - 1 - (b :: u64)"
  shows "unat (a + b) = unat a + unat b"
proof -
  have "unat b \<le> 18446744073709551615" using unsigned_less [of b, where ?'a = nat] by simp
  moreover have "unat (- 1 - b) = 18446744073709551615 - unat b"
    by (simp add: unat_sub unsigned_minus_1_eq_mask mask_eq_exp_minus_1)
  ultimately have "unat a + unat b < 2 ^ 64"
    using assms by (simp add: word_less_nat_alt)
  then show ?thesis by (simp add: unat_word_ariths)
qed

lemma range_end_unat:
  assumes "range_end a n = Some e"
  shows "unat e = unat a + unat n" "0 < unat n"
  using assms no_wrap [where a = a and b = "ucast n"]
  by (auto simp: range_end_def unat_gt_0 split: if_splits)

lemma append_cue_inv:
  assumes "cues_inv p" "pcm_inv p"
  shows "cues_inv (snd (append_cue c p)) \<and> pcm_inv (snd (append_cue c p))"
proof -
  let ?rc = "pb_receipt p"
  have flags: "cues_inv (p\<lparr>pb_receipt := ?rc\<lparr>cue_contiguous := x\<rparr>\<rparr>)"
    "pcm_inv (p\<lparr>pb_receipt := ?rc\<lparr>cue_contiguous := x\<rparr>\<rparr>)"
    "cues_inv (p\<lparr>pb_receipt := ?rc\<lparr>cue_history_overflow := x\<rparr>\<rparr>)"
    "pcm_inv (p\<lparr>pb_receipt := ?rc\<lparr>cue_history_overflow := x\<rparr>\<rparr>)" for x
    using assms by (simp_all add: cues_inv_def pcm_inv_def)
  have accepted: "cues_inv p' \<and> pcm_inv p'"
    if "cue_end c = Some e" "cue_started p \<longrightarrow> cue_first_sample c = next_cue_sample p"
      "length (pb_cues p) < max_cues p" "\<not> cue_sample_count ?rc > - 1 - ucast (cue_samples c)"
      "cue_epoch c = pb_epoch p" "cue_request_id c = pb_request_id p"
      "p' = p\<lparr>cue_started := True, next_cue_sample := e, pb_cues := pb_cues p @ [c],
         pb_receipt := ?rc\<lparr>cue_count := cue_count ?rc + 1,
           cue_sample_count := cue_sample_count ?rc + ucast (cue_samples c)\<rparr>\<rparr>" for e p'
    using that assms no_wrap [OF that(4)] by (auto simp: cues_inv_def pcm_inv_def cue_chain_snoc)
  show ?thesis
    unfolding append_cue_def Let_def
    by (simp only: if_distrib [of snd] snd_conv option.case_distrib [of snd])
      (use assms flags accepted in \<open>simp split: option.split\<close>)
qed

lemma fresh_timeline:
  "probe_begin epoch rid p = Inr p' \<Longrightarrow> cues_inv p' \<and> pcm_inv p'"
  "probe_invalidate epoch p = Inr p' \<Longrightarrow> cues_inv p' \<and> pcm_inv p'"
  "new_probe n = Inr p' \<Longrightarrow> cues_inv p' \<and> pcm_inv p'"
  by (auto simp: probe_begin_def probe_invalidate_def new_probe_def Let_def cues_inv_def pcm_inv_def
      default_receipt_def split: if_splits)

lemma observe_pcm_inv:
  assumes "cues_inv p" "pcm_inv p"
  shows "cues_inv (snd (observe_pcm epoch chunk p)) \<and> pcm_inv (snd (observe_pcm epoch chunk p))"
proof -
  let ?rc = "pb_receipt p"
  have "cues_inv (p\<lparr>pb_receipt := rc\<lparr>pcm_contiguous := x\<rparr>\<rparr>) \<and> pcm_inv (p\<lparr>pb_receipt := rc\<lparr>pcm_contiguous := x\<rparr>\<rparr>) \<and>
     cues_inv (p\<lparr>pcm_started := True, next_pcm_sample := e,
       pb_receipt := rc\<lparr>pcm_chunk_count := pcm_chunk_count rc + 1, pcm_sample_count := e\<rparr>\<rparr>) \<and>
     pcm_inv (p\<lparr>pcm_started := True, next_pcm_sample := e,
       pb_receipt := rc\<lparr>pcm_chunk_count := pcm_chunk_count rc + 1, pcm_sample_count := e\<rparr>\<rparr>)"
    if "rc = ?rc \<or> rc = ?rc\<lparr>rc_sample_rate := r\<rparr>" for rc r x e
    using assms that by (auto simp: cues_inv_def pcm_inv_def)
  from this [OF disjI1 [OF refl]] this [OF disjI2 [OF refl]] show ?thesis
    using assms unfolding observe_pcm_def Let_def
    by (simp only: if_distrib [of snd] snd_conv option.case_distrib [of snd]) (simp split: option.split)
qed

lemma probe_step_inv: "probe_step p p' \<Longrightarrow> cues_inv p \<and> pcm_inv p \<Longrightarrow> cues_inv p' \<and> pcm_inv p'"
proof (induction rule: probe_step.induct)
  case (pcm epoch chunk p st p')
  then show ?case using observe_pcm_inv [of p epoch chunk] by simp
next
  case (cue c p st p')
  then show ?case using append_cue_inv [of p c] by simp
next
  case (terminal epoch rid p ok p')
  then show ?case by (auto simp: mark_terminal_def cues_inv_def pcm_inv_def split: if_splits)
qed (use fresh_timeline in blast)+

lemma probe_reachable_inv: "probe_reachable p \<Longrightarrow> cues_inv p \<and> pcm_inv p"
  by (induction rule: probe_reachable.induct) (use fresh_timeline(3) probe_step_inv in blast)+

section \<open>Properties of the probe\<close>

lemma range_end_greater: "range_end a n = Some e \<Longrightarrow> a < e"
  using range_end_unat [of a n e] by (simp add: word_less_nat_alt)

lemma cue_chain_Cons: "cue_chain (c # cs) \<Longrightarrow> cue_chain cs \<and> cue_end c \<noteq> None"
  by (cases cs) auto

text \<open>Along a chain, every cue ends no later than each of its successors begins.\<close>

lemma cue_chain_sorted:
  "cue_chain cs \<Longrightarrow> i < j \<Longrightarrow> j < length cs \<Longrightarrow> \<exists>e. cue_end (cs ! i) = Some e \<and> e \<le> cue_first_sample (cs ! j)"
proof (induction cs arbitrary: i j rule: cue_chain.induct)
  case (3 c d cs)
  obtain k where j: "j = Suc k" using 3 by (cases j) auto
  show ?case
  proof (cases i)
    case 0
    show ?thesis
    proof (cases k)
      case 0
      then show ?thesis using 3 \<open>i = 0\<close> j by simp
    next
      case (Suc m)
      obtain e where "cue_end d = Some e" "e \<le> cue_first_sample ((d # cs) ! k)"
        using "3.IH" [of 0 k] 3 j Suc by auto
      then show ?thesis
        using 3 \<open>i = 0\<close> j range_end_greater by fastforce
    qed
  next
    case (Suc m)
    then show ?thesis using "3.IH" [of m k] 3 j by auto
  qed
qed simp_all

lemma cue_at_unique:
  assumes "cue_chain cs" "i < length cs" "j < length cs" "cue_at s (cs ! i)" "cue_at s (cs ! j)"
  shows "i = j"
proof -
  have "\<not> (i < j)" if "i < length cs" "j < length cs" "cue_at s (cs ! i)" "cue_at s (cs ! j)" for i j
    using cue_chain_sorted [OF assms(1), of i j] that by (auto simp: cue_at_def split: option.splits)
  with assms show ?thesis by (meson linorder_neqE_nat)
qed

text \<open>The cue history of every reachable probe is one gapless, non-wrapping sequence of cues of the
  current epoch and request, within its bound, and the receipt's counters are exactly what the
  history says.\<close>

theorem receipt_matches_history:
  assumes "probe_reachable p"
  shows "cue_chain (pb_cues p) \<and> length (pb_cues p) \<le> max_cues p \<and>
     (\<forall>c\<in>set (pb_cues p). cue_epoch c = pb_epoch p \<and> cue_request_id c = pb_request_id p) \<and>
     cue_count (pb_receipt p) = length (pb_cues p) \<and>
     unat (cue_sample_count (pb_receipt p)) = (\<Sum>c\<leftarrow>pb_cues p. unat (cue_samples c)) \<and>
     rc_epoch (pb_receipt p) = pb_epoch p \<and> rc_request_id (pb_receipt p) = pb_request_id p"
  using probe_reachable_inv [OF assms] by (simp add: cues_inv_def pcm_inv_def)

definition sample_cue :: PlaybackCue where
  "sample_cue = \<lparr>cue_epoch = 3, cue_request_id = 7, cue_first_sample = 10, cue_samples = 5,
     mouth_open = Finite 1, activity = Finite 0\<rparr>"

definition sample_probe :: PlaybackReceiptProbe where
  "sample_probe =
     (case and_then (new_probe 8) (probe_begin 3 7) of
        Inr p \<Rightarrow> snd (append_cue (sample_cue\<lparr>cue_first_sample := 15\<rparr>) (snd (append_cue sample_cue
          (snd (observe_pcm 3 \<lparr>pcm_request_id = 7, pcm_format = default_audio_format, pcm_bytes = [0, 0],
             first_sample = 0, sample_count = 1\<rparr> p)))))
      | Inl e \<Rightarrow> undefined)"

lemma sample_probe_reachable: "probe_reachable sample_probe"
proof -
  obtain p0 where p0: "new_probe 8 = Inr p0" by (simp add: new_probe_def)
  then obtain p where p: "probe_begin 3 7 p0 = Inr p" by (auto simp: new_probe_def probe_begin_def)
  have "probe_reachable p" using probe_reachable.intros p0 p probe_step.begun by blast
  then show ?thesis
    using p0 p by (simp add: sample_probe_def)
      (metis probe_reachable.step probe_step.cue probe_step.pcm prod.collapse)
qed

theorem receipt_matches_history_witness: "cue_chain (pb_cues sample_probe)"
  using receipt_matches_history [OF sample_probe_reachable] by blast

text \<open>C22. Selection is exact: for a cursor of the current epoch, request and sample rate, the probe
  returns the cue whose range contains the cursor, there is at most one, and it reports a cursor
  outside the timeline exactly when there is none.\<close>

theorem cue_selection_exact:
  assumes "probe_reachable p" and "sn_epoch sn = pb_epoch p" and "sn_request_id sn = pb_request_id p"
    and "pb_request_id p \<noteq> 0" and "position_available sn" and "sn_sample_rate sn = rc_sample_rate (pb_receipt p)"
    and "rc_sample_rate (pb_receipt p) \<noteq> 0"
  shows "(sel_status (probe_select sn p) = OutsideCueTimeline \<longleftrightarrow>
       (\<forall>c\<in>set (pb_cues p). \<not> cue_at (utterance_sample sn) c)) \<and>
     (\<forall>i < length (pb_cues p). cue_at (utterance_sample sn) (pb_cues p ! i) \<longrightarrow>
       sel_status (probe_select sn p) = Selected \<and> sel_cue (probe_select sn p) = pb_cues p ! i)"
proof (cases "find (cue_at (utterance_sample sn)) (pb_cues p)")
  case None
  then have "\<forall>c\<in>set (pb_cues p). \<not> cue_at (utterance_sample sn) c" by (auto simp: find_None_iff)
  with None assms show ?thesis by (simp add: probe_select_def Let_def)
next
  case (Some c)
  then obtain k where k: "k < length (pb_cues p)" "c = pb_cues p ! k" "cue_at (utterance_sample sn) c"
    by (auto simp: find_Some_iff)
  have chain: "cue_chain (pb_cues p)" using probe_reachable_inv [OF assms(1)] by (simp add: cues_inv_def)
  have "pb_cues p ! i = c" if "i < length (pb_cues p)" "cue_at (utterance_sample sn) (pb_cues p ! i)" for i
    using cue_at_unique [OF chain that(1) k(1) that(2)] k by simp
  moreover have "sel_status (probe_select sn p) = Selected" "sel_cue (probe_select sn p) = c"
    using Some assms by (simp_all add: probe_select_def Let_def)
  moreover have "c \<in> set (pb_cues p)" using k by simp
  ultimately show ?thesis using k(3) by auto
qed

theorem cue_selection_exact_witness:
  "sel_status (probe_select \<lparr>sn_epoch = 3, sn_request_id = 7, utterance_sample = 16,
     sn_sample_rate = 24000, position_available = True\<rparr> sample_probe) = Selected"
proof -
  have sp: "pb_cues sample_probe = [sample_cue, sample_cue\<lparr>cue_first_sample := 15\<rparr>]" "pb_epoch sample_probe = 3"
    "pb_request_id sample_probe = 7" "rc_sample_rate (pb_receipt sample_probe) = 24000"
    by (simp_all add: sample_probe_def new_probe_def probe_begin_def observe_pcm_def append_cue_def range_end_def
        sample_cue_def default_receipt_def default_audio_format_def Let_def)
  then show ?thesis
    using cue_selection_exact [OF sample_probe_reachable, of "\<lparr>sn_epoch = 3, sn_request_id = 7,
        utterance_sample = 16, sn_sample_rate = 24000, position_available = True\<rparr>"]
    by (auto simp: cue_at_def range_end_def sample_cue_def less_Suc_eq)
qed

end
