(* ===== verification/Wav_Writer.thy ===== *)
theory Wav_Writer
  imports Frame_Parser Json_Values
begin

text \<open>
  \<open>src/qwen_tts_bridge/audio/wav_writer.cpp\<close>: a PCM WAV file that is written while audio arrives.
  The header goes out first with an empty data size; closing patches the two sizes in place. The
  output stream is a byte list with a write position and its state; how much of a write reaches the
  file before the stream fails is an argument of each operation.
\<close>

section \<open>The output stream\<close>

record OutFile =
  of_bytes :: "byte list"
  of_pos :: nat
  of_good :: bool

text \<open>\<open>None\<close>: the write succeeds. \<open>Some n\<close>: the stream fails after \<open>n\<close> bytes. A failed stream ignores
  further operations.\<close>

type_synonym WriteEnv = "nat option"

definition overwrite :: "nat \<Rightarrow> byte list \<Rightarrow> byte list \<Rightarrow> byte list" where
  "overwrite pos new old = take pos old @ new @ drop (pos + length new) old"

definition stream_write :: "WriteEnv \<Rightarrow> byte list \<Rightarrow> OutFile \<Rightarrow> OutFile" where
  "stream_write env bytes f =
     (if \<not> of_good f then f
      else case env of
        None \<Rightarrow> f\<lparr>of_bytes := overwrite (of_pos f) bytes (of_bytes f), of_pos := of_pos f + length bytes\<rparr>
      | Some n \<Rightarrow> f\<lparr>of_bytes := overwrite (of_pos f) (take n bytes) (of_bytes f), of_good := False\<rparr>)"

definition stream_seek :: "nat \<Rightarrow> OutFile \<Rightarrow> OutFile" where
  "stream_seek pos f = (if of_good f then f\<lparr>of_pos := pos\<rparr> else f)"

section \<open>State and helpers\<close>

record WavWriter =
  ww_path :: string
  ww_sample_rate :: u32
  ww_channels :: u16
  ww_bits_per_sample :: u16
  ww_block_align :: u16
  ww_data_size :: u64
  ww_closed :: bool
  ww_file :: OutFile

definition kRiffSizeWithoutData :: u32 where
  "kRiffSizeWithoutData = 36"

definition is_supported_bits_per_sample :: "u16 \<Rightarrow> bool" where
  "is_supported_bits_per_sample v \<longleftrightarrow> v = 8 \<or> v = 16 \<or> v = 24 \<or> v = 32"

definition put_u16_le :: "u16 \<Rightarrow> byte list" where
  "put_u16_le v = [ucast (v AND 0xff), ucast (drop_bit 8 v AND 0xff)]"

definition put_u32_le :: "u32 \<Rightarrow> byte list" where
  "put_u32_le v = [ucast (v AND 0xff), ucast (drop_bit 8 v AND 0xff), ucast (drop_bit 16 v AND 0xff),
     ucast (drop_bit 24 v AND 0xff)]"

definition checked_u32 :: "u64 \<Rightarrow> string \<Rightarrow> string + u32" where
  "checked_u32 v name =
     (if v > ucast (- 1 :: u32) then Inl (name @ '' exceeds uint32 range'') else Inr (ucast v))"

definition ascii :: "string \<Rightarrow> byte list" where
  "ascii s = map char_byte s"

definition wav_header :: "WavWriter \<Rightarrow> u32 \<Rightarrow> u32 \<Rightarrow> u32 \<Rightarrow> byte list" where
  "wav_header w byte_rate riff_size data_size =
     ascii ''RIFF'' @ put_u32_le riff_size @ ascii ''WAVE'' @ ascii ''fmt '' @ put_u32_le 16 @ put_u16_le 1 @
     put_u16_le (ww_channels w) @ put_u32_le (ww_sample_rate w) @ put_u32_le byte_rate @
     put_u16_le (ww_block_align w) @ put_u16_le (ww_bits_per_sample w) @ ascii ''data'' @ put_u32_le data_size"

section \<open>Operations\<close>

text \<open>An operation that throws returns the text of the exception and the state it leaves behind.\<close>

type_synonym WavResult = "(string + unit) \<times> WavWriter"

definition ensure_stream_ok :: "string \<Rightarrow> WavWriter \<Rightarrow> string + unit" where
  "ensure_stream_ok action w =
     (if of_good (ww_file w) then Inr () else Inl (''failed to '' @ action @ '': '' @ ww_path w))"

definition write_header :: "WriteEnv \<Rightarrow> u32 \<Rightarrow> WavWriter \<Rightarrow> WavResult" where
  "write_header env data_size w =
     (case checked_u32 (ucast (ww_sample_rate w) * ucast (ww_block_align w)) ''byte rate'' of
        Inl e \<Rightarrow> (Inl e, w)
      | Inr byte_rate \<Rightarrow>
          (case checked_u32 (ucast kRiffSizeWithoutData + ucast data_size) ''RIFF chunk size'' of
             Inl e \<Rightarrow> (Inl e, w)
           | Inr riff_size \<Rightarrow>
               (Inr (), w\<lparr>ww_file := stream_write env (wav_header w byte_rate riff_size data_size) (ww_file w)\<rparr>)))"

text \<open>The constructor: the checks, opening the file (which may fail), and the first header.\<close>

definition new_wav_writer ::
  "bool \<Rightarrow> WriteEnv \<Rightarrow> string \<Rightarrow> u32 \<Rightarrow> u16 \<Rightarrow> u16 \<Rightarrow> string + WavWriter" where
  "new_wav_writer can_open env path rate chans bits =
     (if path = [] then Inl ''output WAV path is empty''
      else if rate = 0 then Inl ''sample rate must be greater than zero''
      else if chans = 0 then Inl ''channel count must be greater than zero''
      else if \<not> is_supported_bits_per_sample bits then Inl ''bits per sample must be 8, 16, 24, or 32''
      else
        (let block_align = (ucast chans :: u32) * (ucast bits div 8) in
         if block_align = 0 \<or> block_align > ucast (- 1 :: u16) then
           Inl ''WAV block alignment exceeds uint16 range''
         else if \<not> can_open then Inl (''failed to open WAV file: '' @ path)
         else
           (let (r, w) = write_header env 0
                  \<lparr>ww_path = path, ww_sample_rate = rate, ww_channels = chans, ww_bits_per_sample = bits,
                   ww_block_align = ucast block_align, ww_data_size = 0, ww_closed = False,
                   ww_file = \<lparr>of_bytes = [], of_pos = 0, of_good = True\<rparr>\<rparr>
            in and_then r (\<lambda>_. and_then (ensure_stream_ok ''write WAV header'' w) (\<lambda>_. Inr w)))))"

text \<open>\<open>write_pcm\<close> with a pointer (null or to bytes) and a size.\<close>

definition write_pcm :: "WriteEnv \<Rightarrow> byte list option \<Rightarrow> nat \<Rightarrow> WavWriter \<Rightarrow> WavResult" where
  "write_pcm env data n w =
     (if ww_closed w then (Inl ''cannot write PCM to a closed WAV file'', w)
      else if data = None \<and> n \<noteq> 0 then (Inl ''PCM data pointer is null'', w)
      else if n = 0 then (Inr (), w)
      else if n mod unat (ww_block_align w) \<noteq> 0 then
        (Inl ''PCM chunk does not contain complete sample frames'', w)
      else
        (let max_data_size = (ucast ((- 1 :: u32) - kRiffSizeWithoutData) :: u64) in
         if ww_data_size w > max_data_size \<or> n > unat (max_data_size - ww_data_size w) then
           (Inl ''WAV file would exceed the RIFF 4 GiB limit'', w)
         else
           (let w = w\<lparr>ww_file := stream_write env (take n (the data)) (ww_file w)\<rparr> in
            case ensure_stream_ok ''write PCM data'' w of
              Inl e \<Rightarrow> (Inl e, w)
            | Inr _ \<Rightarrow> (Inr (), w\<lparr>ww_data_size := ww_data_size w + of_nat n\<rparr>))))"

definition patch_header :: "WriteEnv \<Rightarrow> WriteEnv \<Rightarrow> WavWriter \<Rightarrow> WavResult" where
  "patch_header env1 env2 w =
     (case checked_u32 (ww_data_size w) ''WAV data size'' of
        Inl e \<Rightarrow> (Inl e, w)
      | Inr data_size \<Rightarrow>
          (let f = stream_seek 4 (ww_file w) in
           case checked_u32 (ucast kRiffSizeWithoutData + ucast data_size) ''RIFF chunk size'' of
             Inl e \<Rightarrow> (Inl e, w\<lparr>ww_file := f\<rparr>)
           | Inr riff_size \<Rightarrow>
               (let f = stream_write env1 (put_u32_le riff_size) f;
                    f = stream_seek 40 f;
                    f = stream_write env2 (put_u32_le data_size) f;
                    w = w\<lparr>ww_file := stream_seek (length (of_bytes f)) f\<rparr>
                in (ensure_stream_ok ''patch WAV header'' w, w))))"

text \<open>\<open>close\<close>, with the two writes of the patch and whether the final flush succeeds.\<close>

definition wav_close :: "WriteEnv \<Rightarrow> WriteEnv \<Rightarrow> bool \<Rightarrow> WavWriter \<Rightarrow> WavResult" where
  "wav_close env1 env2 flushed w =
     (if ww_closed w then (Inr (), w)
      else
        (case patch_header env1 env2 w of
           (Inl e, w) \<Rightarrow> (Inl e, w)
         | (Inr _, w) \<Rightarrow>
             (let w = w\<lparr>ww_file := (ww_file w)\<lparr>of_good := flushed\<rparr>\<rparr> in
              case ensure_stream_ok ''flush WAV file'' w of
                Inl e \<Rightarrow> (Inl e, w)
              | Inr _ \<Rightarrow> (Inr (), w\<lparr>ww_closed := True\<rparr>))))"

section \<open>The file a writer produces\<close>

lemma length_put [simp]: "length (put_u16_le v) = 2" "length (put_u32_le x) = 4"
  by (simp_all add: put_u16_le_def put_u32_le_def)

lemma ascii_Nil [simp]: "ascii s = [] \<longleftrightarrow> s = []"
  by (simp add: ascii_def)

lemma ucast_max [simp]: "(ucast (- 1 :: u32) :: u64) = 4294967295" "(ucast (- 1 :: u16) :: u32) = 65535"
  by code_simp+

lemma length_ascii [simp]: "length (ascii s) = length s"
  by (simp add: ascii_def)

lemma length_wav_header [simp]: "length (wav_header w br rs ds) = 44"
  by (simp add: wav_header_def)

lemma wav_header_cong:
  "ww_channels w = ww_channels v \<Longrightarrow> ww_sample_rate w = ww_sample_rate v \<Longrightarrow>
   ww_block_align w = ww_block_align v \<Longrightarrow> ww_bits_per_sample w = ww_bits_per_sample v \<Longrightarrow>
   wav_header w = wav_header v"
  by (simp add: wav_header_def fun_eq_iff)

lemma overwrite_end: "pos = length old \<Longrightarrow> overwrite pos new old = old @ new"
  by (simp add: overwrite_def)

text \<open>Patching the sizes of a header that stands at the beginning of the file gives the header with
  the new sizes.\<close>

lemma patched_header:
  "overwrite 40 (put_u32_le ds') (overwrite 4 (put_u32_le rs') (wav_header w br rs ds @ pcm)) =
     wav_header w br rs' ds' @ pcm"
  by (simp add: overwrite_def wav_header_def ascii_def put_u32_le_def put_u16_le_def numeral_eq_Suc)

text \<open>The state of a writer that has written \<open>pcm\<close>: the provisional header, the data, the position at
  the end and an exact size counter.\<close>

definition byte_rate_of :: "WavWriter \<Rightarrow> u32" where
  "byte_rate_of w = ucast ((ucast (ww_sample_rate w) :: u64) * ucast (ww_block_align w))"

definition wav_open :: "WavWriter \<Rightarrow> byte list \<Rightarrow> bool" where
  "wav_open w pcm \<longleftrightarrow> \<not> ww_closed w \<and> of_good (ww_file w) \<and>
     of_bytes (ww_file w) = wav_header w (byte_rate_of w) 36 0 @ pcm \<and>
     of_pos (ww_file w) = 44 + length pcm \<and> unat (ww_data_size w) = length pcm \<and>
     length pcm \<le> 4294967259"

definition same_format :: "WavWriter \<Rightarrow> WavWriter \<Rightarrow> bool" where
  "same_format w v \<longleftrightarrow> ww_channels w = ww_channels v \<and> ww_sample_rate w = ww_sample_rate v \<and>
     ww_block_align w = ww_block_align v \<and> ww_bits_per_sample w = ww_bits_per_sample v"

lemma same_format_header: "same_format w v \<Longrightarrow> wav_header w = wav_header v \<and> byte_rate_of w = byte_rate_of v"
  using wav_header_cong [of w v] by (simp add: same_format_def byte_rate_of_def)

lemma new_wav_writer_open:
  assumes "new_wav_writer can_open env path rate chans bits = Inr w"
  shows "wav_open w [] \<and> ww_channels w = chans \<and> ww_sample_rate w = rate \<and> ww_bits_per_sample w = bits \<and>
     ww_block_align w = ucast ((ucast chans :: u32) * (ucast bits div 8))"
  using assms
  by (auto simp: new_wav_writer_def write_header_def ensure_stream_ok_def and_then_Inr_conv Let_def
      stream_write_def wav_open_def overwrite_def byte_rate_of_def checked_u32_def kRiffSizeWithoutData_def
      wav_header_def split: if_splits option.splits)

lemma u64_add_exact:
  "unat (a :: u64) + n \<le> 4294967295 \<Longrightarrow> unat (a + of_nat n) = unat a + n"
  by (simp add: unat_word_ariths unat_of_nat)

lemma write_pcm_open:
  assumes w: "wav_open w pcm" and "length data mod unat (ww_block_align w) = 0"
    and "length pcm + length data \<le> 4294967259"
  shows "\<exists>w'. write_pcm None (Some data) (length data) w = (Inr (), w') \<and> wav_open w' (pcm @ data) \<and>
     same_format w' w"
proof (cases "data = []")
  case True
  with w show ?thesis
    by (intro exI [of _ w]) (simp add: write_pcm_def wav_open_def same_format_def)
next
  case False
  let ?w = "w\<lparr>ww_file := stream_write None data (ww_file w)\<rparr>"
  let ?w' = "?w\<lparr>ww_data_size := ww_data_size w + of_nat (length data)\<rparr>"
  have max: "(ucast ((- 1 :: u32) - kRiffSizeWithoutData) :: u64) = 4294967259"
    by (simp add: kRiffSizeWithoutData_def)
  have le: "unat (ww_data_size w) \<le> 4294967259"
    using w by (simp add: wav_open_def)
  then have small: "ww_data_size w \<le> 4294967259"
    by (simp add: word_le_nat_alt)
  then have "unat (4294967259 - ww_data_size w) = 4294967259 - unat (ww_data_size w)"
    by (simp add: unat_sub)
  then have room: "\<not> length data > unat (4294967259 - ww_data_size w)"
    using assms(3) w by (simp add: wav_open_def)
  have good: "of_good (ww_file ?w)" using w by (simp add: wav_open_def stream_write_def)
  have "write_pcm None (Some data) (length data) w = (Inr (), ?w')"
    using w False assms(2) room small good
    by (simp add: write_pcm_def wav_open_def Let_def max ensure_stream_ok_def not_less)
  moreover have "same_format ?w' w" by (simp add: same_format_def)
  moreover have "wav_open ?w' (pcm @ data)"
    using w assms(3) same_format_header [OF \<open>same_format ?w' w\<close>] u64_add_exact [of "ww_data_size w" "length data"]
    by (simp add: wav_open_def stream_write_def overwrite_end)
  ultimately show ?thesis by blast
qed

lemma wav_close_open:
  assumes w: "wav_open w pcm"
  shows "\<exists>w'. wav_close None None True w = (Inr (), w') \<and> ww_closed w' \<and>
     of_bytes (ww_file w') =
       wav_header w (byte_rate_of w) (of_nat (36 + length pcm)) (of_nat (length pcm)) @ pcm"
proof -
  have n: "unat (ww_data_size w) = length pcm" and bound: "length pcm \<le> 4294967259"
    using w by (simp_all add: wav_open_def)
  have le: "\<not> ww_data_size w > ucast (- 1 :: u32)"
    using n bound by (simp add: word_less_nat_alt)
  have data: "(ucast (ww_data_size w) :: u32) = of_nat (length pcm)"
    by (simp add: n [symmetric])
  have size: "unat (ucast kRiffSizeWithoutData + ucast (of_nat (length pcm) :: u32) :: u64) = 36 + length pcm"
    using bound by (simp add: kRiffSizeWithoutData_def unat_word_ariths unsigned_ucast_eq unat_of_nat take_bit_nat_eq_self)
  have riff: "\<not> (ucast kRiffSizeWithoutData + ucast (of_nat (length pcm) :: u32) :: u64) > ucast (- 1 :: u32)"
    using bound size by (simp add: word_less_nat_alt)
  have riff_eq: "(ucast (ucast kRiffSizeWithoutData + ucast (of_nat (length pcm) :: u32) :: u64) :: u32) =
      of_nat (36 + length pcm)"
    unfolding size [symmetric] by simp
  show ?thesis
    using w le riff
    by (simp add: wav_close_def patch_header_def checked_u32_def Let_def data riff_eq wav_open_def
        ensure_stream_ok_def stream_seek_def stream_write_def patched_header)
qed

fun write_chunks :: "byte list list \<Rightarrow> WavWriter \<Rightarrow> WavResult" where
  "write_chunks [] w = (Inr (), w)"
| "write_chunks (d # ds) w =
     (case write_pcm None (Some d) (length d) w of
        (Inl e, w') \<Rightarrow> (Inl e, w')
      | (Inr _, w') \<Rightarrow> write_chunks ds w')"

lemma write_chunks_open:
  "wav_open w pcm \<Longrightarrow> \<forall>d\<in>set ds. length d mod unat (ww_block_align w) = 0 \<Longrightarrow>
   length pcm + length (concat ds) \<le> 4294967259 \<Longrightarrow>
   \<exists>w'. write_chunks ds w = (Inr (), w') \<and> wav_open w' (pcm @ concat ds) \<and> same_format w' w"
proof (induction ds arbitrary: w pcm)
  case Nil
  then show ?case by (simp add: same_format_def)
next
  case (Cons d ds)
  obtain w1 where w1: "write_pcm None (Some d) (length d) w = (Inr (), w1)" "wav_open w1 (pcm @ d)" "same_format w1 w"
    using write_pcm_open [OF Cons.prems(1), of d] Cons.prems by auto
  then have "\<forall>d\<in>set ds. length d mod unat (ww_block_align w1) = 0"
    using Cons.prems(2) by (simp add: same_format_def)
  from Cons.IH [OF w1(2) this] Cons.prems(3) w1 show ?case
    by (auto simp: same_format_def add.assoc)
qed

lemma wav_file_complete:
  assumes "new_wav_writer True None path rate chans bits = Inr w"
    and "\<forall>d\<in>set ds. length d mod unat (ww_block_align w) = 0" and "length (concat ds) \<le> 4294967259"
  shows "\<exists>w1 w2. write_chunks ds w = (Inr (), w1) \<and> wav_close None None True w1 = (Inr (), w2) \<and> ww_closed w2 \<and>
     of_bytes (ww_file w2) = wav_header w (byte_rate_of w) (of_nat (36 + length (concat ds)))
       (of_nat (length (concat ds))) @ concat ds"
proof -
  obtain w1 where w1: "write_chunks ds w = (Inr (), w1)" "wav_open w1 (concat ds)" "same_format w1 w"
    using write_chunks_open [of w "[]" ds] new_wav_writer_open [OF assms(1)] assms(2,3) by auto
  with wav_close_open [OF w1(2)] same_format_header [OF w1(3)] show ?thesis by auto
qed

end
