(* ===== verification/Wav_Reader.thy ===== *)
theory Wav_Reader
  imports Wav_Writer
begin

text \<open>
  \<open>worker/native/qwentts/wav_reader.cpp\<close>: the native worker's reader of reference recordings. The input
  stream is the list of the bytes that are still to come; seeking past the end of the file leaves
  nothing to read. Samples are the rational values of the \<open>float\<close>s, which are exact for 16-bit
  data. At the end, the round trip between this reader and the bridge's own \<open>WavWriter\<close>.
\<close>

definition read_u16 :: "byte list \<Rightarrow> u16" where
  "read_u16 d = ucast (d ! 0) OR push_bit 8 (ucast (d ! 1))"

definition read_u32 :: "byte list \<Rightarrow> u32" where
  "read_u32 d = ucast (d ! 0) OR push_bit 8 (ucast (d ! 1)) OR push_bit 16 (ucast (d ! 2)) OR
     push_bit 24 (ucast (d ! 3))"

definition read_exact :: "nat \<Rightarrow> string \<Rightarrow> byte list \<Rightarrow> string + byte list \<times> byte list" where
  "read_exact n what bs =
     (if length bs < n then Inl (''truncated WAV '' @ what) else Inr (take n bs, drop n bs))"

record WavFormat =
  wf_format :: u16
  wf_channels :: u16
  wf_sample_rate :: u32
  wf_bits_per_sample :: u16

definition read_fmt :: "byte list \<Rightarrow> WavFormat" where
  "read_fmt d = \<lparr>wf_format = read_u16 d, wf_channels = read_u16 (drop 2 d), wf_sample_rate = read_u32 (drop 4 d),
     wf_bits_per_sample = read_u16 (drop 14 d)\<rparr>"

definition skip_pad :: "u32 \<Rightarrow> byte list \<Rightarrow> byte list" where
  "skip_pad chunk_size bs = (if chunk_size AND 1 \<noteq> 0 then drop 1 bs else bs)"

lemma length_skip_pad: "length (skip_pad n bs) \<le> length bs"
  by (simp add: skip_pad_def)

text \<open>The loop over the chunks, until a format and some data have been seen or the file ends.\<close>

function wav_chunks :: "byte list \<Rightarrow> WavFormat option \<Rightarrow> byte list \<Rightarrow> string + WavFormat option \<times> byte list" where
  "wav_chunks bs fmt data =
     (if fmt \<noteq> None \<and> data \<noteq> [] \<or> bs = [] then Inr (fmt, data)
      else if length bs < 8 then Inl ''truncated WAV chunk header''
      else
        (let chunk_size = read_u32 (drop 4 bs); rest = drop 8 bs in
         if chunk_size > 1024 * 1024 * 1024 then Inl ''reference WAV chunk is too large''
         else if take 4 bs = ascii ''fmt '' then
           (if chunk_size < 16 then Inl ''reference WAV fmt chunk is too small''
            else and_then (read_exact (unat chunk_size) ''fmt chunk'' rest) (\<lambda>r.
              wav_chunks (skip_pad chunk_size (drop (unat chunk_size) rest)) (Some (read_fmt (fst r))) data))
         else if take 4 bs = ascii ''data'' then
           and_then (read_exact (unat chunk_size) ''data chunk'' rest) (\<lambda>r.
             wav_chunks (skip_pad chunk_size (drop (unat chunk_size) rest)) fmt (fst r))
         else wav_chunks (skip_pad chunk_size (drop (unat chunk_size) rest)) fmt data))"
  by pat_completeness auto

termination
  by (relation "measure (\<lambda>(bs, _, _). length bs)")
    (auto simp: skip_pad_def Let_def split: if_splits)

declare wav_chunks.simps [simp del]

text \<open>A binary32 value from its bits.\<close>

definition f32_value :: "u32 \<Rightarrow> dbl" where
  "f32_value w =
     (let e = unat (drop_bit 23 w AND 0xff); m = unat (w AND 0x7fffff); neg = bit w 31 in
      if e = 255 then (if m = 0 then Infinity neg else NaN)
      else
        (let v = (if e = 0 then of_nat m else of_nat (2 ^ 23 + m) * 2 ^ (e - 1)) / 2 ^ 149 :: rat in
         Finite (if neg then - v else v)))"

fun pcm16_samples :: "byte list \<Rightarrow> rat list" where
  "pcm16_samples (a # b # bs) = of_int (sint (read_u16 [a, b])) / 32768 # pcm16_samples bs"
| "pcm16_samples _ = []"

definition clamp_sample :: "rat \<Rightarrow> rat" where
  "clamp_sample v = (if v < - 1 then - 1 else if v > 1 then 1 else v)"

fun f32_samples :: "byte list \<Rightarrow> string + rat list" where
  "f32_samples (a # b # c # d # bs) =
     (case f32_value (read_u32 [a, b, c, d]) of
        Finite v \<Rightarrow> and_then (f32_samples bs) (\<lambda>vs. Inr (clamp_sample v # vs))
      | _ \<Rightarrow> Inl ''reference WAV contains a non-finite sample'')"
| "f32_samples _ = Inr []"

text \<open>\<open>read_mono_24k_wav\<close> on the contents of the file.\<close>

definition read_mono_24k_wav :: "byte list \<Rightarrow> string + rat list" where
  "read_mono_24k_wav input =
     and_then (read_exact 12 ''header'' input) (\<lambda>(riff, rest).
     if take 4 riff \<noteq> ascii ''RIFF'' \<or> drop 8 riff \<noteq> ascii ''WAVE'' then
       Inl ''reference audio must be a RIFF/WAVE file''
     else
       and_then (wav_chunks rest None []) (\<lambda>(fmt, data).
       case fmt of
         None \<Rightarrow> Inl ''reference WAV is missing fmt or data''
       | Some f \<Rightarrow>
           if data = [] then Inl ''reference WAV is missing fmt or data''
           else if wf_channels f \<noteq> 1 \<or> wf_sample_rate f \<noteq> 24000 then
             Inl ''reference WAV must be mono 24000 Hz''
           else if wf_format f = 1 \<and> wf_bits_per_sample f = 16 then
             (if length data mod 2 \<noteq> 0 then Inl ''reference WAV contains a partial PCM16 sample''
              else Inr (pcm16_samples data))
           else if wf_format f = 3 \<and> wf_bits_per_sample f = 32 then
             (if length data mod 4 \<noteq> 0 then Inl ''reference WAV contains a partial float32 sample''
              else f32_samples data)
           else Inl ''reference WAV must use PCM16 or IEEE float32 samples''))"

section \<open>Reading what was written\<close>

interpretation wav_u16: le_codec 2 "\<lambda>out v. out @ put_u16_le v" read_u16
proof -
  have "(\<lambda>out v. out @ put_u16_le v) = write_u16_le" "read_u16 = read_u16_le"
    by (simp_all add: fun_eq_iff put_u16_le_def write_u16_le_def read_u16_def read_u16_le_def)
  then show "le_codec 2 (\<lambda>out v. out @ put_u16_le v) read_u16"
    using u16_wire.le_codec_axioms by simp
qed

interpretation wav_u32: le_codec 4 "\<lambda>out v. out @ put_u32_le v" read_u32
proof -
  have "(\<lambda>out v. out @ put_u32_le v) = write_u32_le" "read_u32 = read_u32_le"
    by (simp_all add: fun_eq_iff put_u32_le_def write_u32_le_def read_u32_def read_u32_le_def)
  then show "le_codec 4 (\<lambda>out v. out @ put_u32_le v) read_u32"
    using u32_wire.le_codec_axioms by simp
qed

lemmas read_put [simp] = wav_u16.read_write [simplified] wav_u32.read_write [simplified]

lemma read_fmt_written:
  "read_fmt (put_u16_le f @ put_u16_le c @ put_u32_le r @ put_u32_le br @ put_u16_le ba @ put_u16_le b) =
     \<lparr>wf_format = f, wf_channels = c, wf_sample_rate = r, wf_bits_per_sample = b\<rparr>"
  using wav_u16.read_written by (simp add: read_fmt_def)

lemma wav_chunks_written:
  assumes "n = of_nat (length pcm)" "length pcm \<le> 1073741824" "pcm \<noteq> []"
  shows "wav_chunks (ascii ''fmt '' @ put_u32_le 16 @ put_u16_le 1 @ put_u16_le c @ put_u32_le r @ put_u32_le br @
       put_u16_le ba @ put_u16_le b @ ascii ''data'' @ put_u32_le n @ pcm) None [] =
     Inr (Some \<lparr>wf_format = 1, wf_channels = c, wf_sample_rate = r, wf_bits_per_sample = b\<rparr>, pcm)"
proof -
  let ?fmt = "put_u16_le 1 @ put_u16_le c @ put_u32_le r @ put_u32_le br @ put_u16_le ba @ put_u16_le b"
  let ?rest = "ascii ''data'' @ put_u32_le n @ pcm"
  have fmt: "length ?fmt = 16" by simp
  have n: "unat n = length pcm" using assms by (simp add: unat_of_nat)
  have data: "wav_chunks ?rest (Some x) [] = Inr (Some x, pcm)" for x
  proof -
    have "wav_chunks [] (Some x) pcm = Inr (Some x, pcm)" by (simp add: wav_chunks.simps)
    moreover have "\<not> n > 1073741824" using n assms(2) by (simp add: word_less_nat_alt)
    ultimately show ?thesis
      using n by (subst wav_chunks.simps) (simp add: read_exact_def skip_pad_def ascii_def char_byte_def Let_def)
  qed
  have "wav_chunks (ascii ''fmt '' @ put_u32_le 16 @ ?fmt @ ?rest) None [] =
      wav_chunks ?rest (Some (read_fmt ?fmt)) []"
    using fmt by (subst wav_chunks.simps) (simp add: read_exact_def skip_pad_def Let_def)
  then show ?thesis using data by (simp add: read_fmt_written)
qed

text \<open>C21. A recording that the bridge writes can be used as a reference recording: whatever chunks of
  mono 24 kHz 16-bit audio are written, up to the reader's limit of 1 GiB, writing and closing
  succeed, and the worker reads back exactly the written samples.\<close>

theorem written_wav_is_read_back:
  assumes "new_wav_writer True None path 24000 1 16 = Inr w" and "\<forall>d\<in>set ds. even (length d)"
    and "concat ds \<noteq> []" and "length (concat ds) \<le> 1073741824"
  shows "\<exists>w1 w2. write_chunks ds w = (Inr (), w1) \<and> wav_close None None True w1 = (Inr (), w2) \<and> ww_closed w2 \<and>
     read_mono_24k_wav (of_bytes (ww_file w2)) = Inr (pcm16_samples (concat ds))"
proof -
  note w = new_wav_writer_open [OF assms(1)]
  have align: "ww_block_align w = 2" using w by simp
  then have "\<forall>d\<in>set ds. length d mod unat (ww_block_align w) = 0"
    using assms(2) by (auto simp: even_iff_mod_2_eq_zero)
  then obtain w1 w2 where fin: "write_chunks ds w = (Inr (), w1)" "wav_close None None True w1 = (Inr (), w2)"
      "ww_closed w2" "of_bytes (ww_file w2) = wav_header w (byte_rate_of w) (of_nat (36 + length (concat ds)))
         (of_nat (length (concat ds))) @ concat ds"
    using wav_file_complete [OF assms(1)] assms(4) by fastforce
  have "even (length (concat ds))"
    using assms(2) by (induction ds) auto
  then have "read_mono_24k_wav (of_bytes (ww_file w2)) = Inr (pcm16_samples (concat ds))"
    using wav_chunks_written [OF refl assms(4,3), of 1 24000 "byte_rate_of w" "ww_block_align w" 16] w assms(3)
    unfolding fin(4) by (simp add: read_mono_24k_wav_def read_exact_def wav_header_def even_iff_mod_2_eq_zero)
  with fin show ?thesis by blast
qed

theorem written_wav_is_read_back_witness:
  "\<exists>w w1 w2. new_wav_writer True None ''a.wav'' 24000 1 16 = Inr w \<and>
     write_chunks [[0, 64], [0, 128, 1, 0]] w = (Inr (), w1) \<and> wav_close None None True w1 = (Inr (), w2) \<and>
     read_mono_24k_wav (of_bytes (ww_file w2)) = Inr [1 / 2, - 1, 1 / 32768]"
proof -
  obtain w where w: "new_wav_writer True None ''a.wav'' 24000 1 16 = Inr w"
    by (simp add: new_wav_writer_def is_supported_bits_per_sample_def write_header_def checked_u32_def
        kRiffSizeWithoutData_def ensure_stream_ok_def stream_write_def Let_def)
  have "pcm16_samples [0, 64, 0, 128, 1, 0] = [1 / 2, - 1, 1 / 32768]"
    by code_simp
  then show ?thesis
    using written_wav_is_read_back [OF w, of "[[0, 64], [0, 128, 1, 0]]"] w by auto
qed

end
