(* ===== verification/Native_Engine.thy ===== *)
theory Native_Engine
  imports Control_Codec
begin

text \<open>
  The parts of \<open>worker/native/qwentts/native_engine.cpp\<close> that decide by themselves: which requests the
  engine accepts, what it announces in \<open>ready\<close>, and how the status of the external synthesis library
  becomes the outcome of a request. The library itself, the reference-audio cache and the profile
  files are outside; what the engine learns from them are arguments.
\<close>

record NativeEngine =
  en_loaded :: bool
  en_voice_profiles :: "string list"
  en_version :: string
  en_warmed_up :: bool
  en_max_text_bytes :: int
  en_precompute_voice_refs :: bool

datatype EngineException = InvalidArgument string | RuntimeError string

definition validate_request :: "NativeEngine \<Rightarrow> SynthesizeMessage \<Rightarrow> EngineException + unit" where
  "validate_request en r =
     (if \<not> en_loaded en then Inl (RuntimeError ''native engine is not loaded'')
      else if sy_text r = [] then Inl (InvalidArgument ''text must not be empty'')
      else if sample_format (sy_output r) \<noteq> ''s16le'' \<or> sample_rate (sy_output r) \<noteq> 24000 \<or>
              channels (sy_output r) \<noteq> 1 then
        Inl (InvalidArgument ''native qwentts worker supports only mono 24000 Hz s16le output'')
      else if sy_voice_id r \<noteq> [] \<and> sy_voice_id r \<notin> set (en_voice_profiles en) then
        Inl (InvalidArgument (''unknown native voice_id profile: '' @ sy_voice_id r))
      else if sy_voice_id r \<noteq> [] \<and> (sy_reference_audio_path r \<noteq> [] \<or> sy_reference_text r \<noteq> [] \<or>
              sy_x_vector_only r \<or> sy_speaker r \<noteq> []) then
        Inl (InvalidArgument ''voice_id cannot be combined with direct reference or speaker fields'')
      else if sy_x_vector_only r \<and> sy_reference_audio_path r = [] then
        Inl (InvalidArgument ''x_vector_only requires reference_audio_path'')
      else if sy_reference_text r \<noteq> [] \<and> sy_reference_audio_path r = [] then
        Inl (InvalidArgument ''reference_text requires reference_audio_path'')
      else if sy_reference_audio_path r \<noteq> [] \<and> sy_speaker r \<noteq> [] then
        Inl (InvalidArgument ''reference_audio_path and speaker are mutually exclusive'')
      else if sy_has_seed r \<and> unat (sy_seed r) > 2 ^ 63 - 1 then
        Inl (InvalidArgument ''seed exceeds the qwentts signed 64-bit range'')
      else Inr ())"

definition engine_capabilities :: "NativeEngine \<Rightarrow> WorkerCapabilities" where
  "engine_capabilities en =
     \<lparr>streaming = True, cancellation = True, instructions = True, voice_clone = True,
      sampling_overrides = True, deterministic_seed = True, voice_clone_streaming = True,
      voice_profiles = (en_voice_profiles en \<noteq> [])\<rparr>"

text \<open>The identifiers are the keys of a map, sorted as \<open>std::string\<close>s.\<close>

definition engine_voice_ids :: "NativeEngine \<Rightarrow> string list" where
  "engine_voice_ids en = sort (en_voice_profiles en)"

section \<open>Outcomes\<close>

datatype SynthesisOutcome = Outcome_Completed | Outcome_Cancelled | Outcome_Failed

text \<open>The measurements of the result go to the diagnostics only.\<close>

record SynthesisResult =
  res_outcome :: SynthesisOutcome
  res_category :: string
  res_code :: string
  res_message :: string
  res_execution_outcome :: string

text \<open>The status codes and finish reasons of the synthesis library that \<open>native_engine.cpp\<close> compares with;
  every other value is the last constructor.\<close>

datatype QtStatus =
  QT_STATUS_OK | QT_STATUS_CANCELLED | QT_STATUS_OOM | QT_STATUS_INVALID_PARAMS | QT_STATUS_MODE_INVALID |
  QT_STATUS_OTHER

datatype QtFinish = QT_FINISH_EOS | QT_FINISH_EOS_ASSISTED | QT_FINISH_EOS_FORCED | QT_FINISH_MAX_TOKENS |
  QT_FINISH_OTHER

definition failed_result :: "string \<Rightarrow> string \<Rightarrow> string \<Rightarrow> SynthesisResult" where
  "failed_result cat cd msg =
     \<lparr>res_outcome = Outcome_Failed, res_category = cat, res_code = cd, res_message = msg, res_execution_outcome = ''''\<rparr>"

definition completed_result :: "string \<Rightarrow> SynthesisResult" where
  "completed_result eo =
     \<lparr>res_outcome = Outcome_Completed, res_category = '''', res_code = '''', res_message = '''',
      res_execution_outcome = eo\<rparr>"

text \<open>The checks of \<open>synthesize\<close> before the library is called; \<open>None\<close> goes on.\<close>

definition synthesize_preflight :: "NativeEngine \<Rightarrow> SynthesizeMessage \<Rightarrow> SynthesisResult option" where
  "synthesize_preflight en r =
     (case validate_request en r of
        Inl (InvalidArgument msg) \<Rightarrow> Some (failed_result ''request_error'' ''invalid_native_request'' msg)
      | Inl (RuntimeError msg) \<Rightarrow> Some (failed_result ''worker_error'' ''worker_not_ready'' msg)
      | Inr _ \<Rightarrow>
          if en_max_text_bytes en > 0 \<and> int (length (sy_text r)) > en_max_text_bytes en then
            Some (failed_result ''resource_error'' ''sequence_capacity_exceeded''
              ''native text preflight exceeds configured max-text-bytes; route to the safe/Python backend'')
          else None)"

definition last_error :: "string option \<Rightarrow> string \<Rightarrow> string" where
  "last_error reported fallback =
     (case reported of Some m \<Rightarrow> if m \<noteq> [] then m else fallback | None \<Rightarrow> fallback)"

text \<open>The result of \<open>synthesize\<close> after the library has returned.\<close>

definition synthesis_outcome ::
  "QtStatus \<Rightarrow> QtFinish \<Rightarrow> bool \<Rightarrow> bool \<Rightarrow> string option \<Rightarrow> SynthesisResult" where
  "synthesis_outcome st fin emitted_audio was_cancelled reported =
     (if st = QT_STATUS_OK then
        (if fin = QT_FINISH_EOS \<or> fin = QT_FINISH_EOS_ASSISTED \<or> fin = QT_FINISH_EOS_FORCED then
           (if \<not> emitted_audio then
              failed_result ''model_error'' ''empty_audio'' ''qwentts reported EOS without emitting PCM''
            else completed_result
              (if fin = QT_FINISH_EOS_ASSISTED then ''eos_assisted''
               else if fin = QT_FINISH_EOS_FORCED then ''eos_forced'' else ''natural_eos''))
         else if fin = QT_FINISH_MAX_TOKENS then completed_result ''max_tokens''
         else failed_result ''model_error'' ''invalid_finish_reason''
           ''qwentts reported successful synthesis without EOS or MAX_TOKENS'')
      else if st = QT_STATUS_CANCELLED \<or> was_cancelled then
        \<lparr>res_outcome = Outcome_Cancelled, res_category = '''', res_code = '''', res_message = '''',
         res_execution_outcome = ''''\<rparr>
      else if st = QT_STATUS_OOM then
        failed_result ''resource_error'' ''resource_exhausted'' (last_error reported ''qwentts ran out of memory'')
      else if st = QT_STATUS_INVALID_PARAMS \<or> st = QT_STATUS_MODE_INVALID then
        failed_result ''request_error'' ''invalid_native_request''
          (last_error reported ''qwentts rejected the request'')
      else failed_result ''model_error'' ''synthesis_failed'' (last_error reported ''qwentts synthesis failed''))"

text \<open>What one call of \<open>synthesize\<close> learns from outside before it enters the library: whether the
  default parameters came back with the right ABI, whether the reference of the voice profile or of the
  direct path is cached, what reading the reference file gave (the text of the exception on the left),
  and the status and last error of extracting a reference from it.\<close>

record SynthEnv =
  se_params_ok :: bool
  se_profile_cached :: bool
  se_reference :: "string + unit"
  se_reference_cached :: bool
  se_extract :: QtStatus
  se_extract_error :: "string option"

text \<open>\<open>Some\<close>: the result of a call that never enters the library.\<close>

definition synthesize_early :: "NativeEngine \<Rightarrow> SynthEnv \<Rightarrow> SynthesizeMessage \<Rightarrow> SynthesisResult option" where
  "synthesize_early en env r =
     (case synthesize_preflight en r of
        Some res \<Rightarrow> Some res
      | None \<Rightarrow>
          if \<not> se_params_ok env then
            Some (failed_result ''worker_error'' ''abi_mismatch'' ''qwen.dll returned incompatible TTS params'')
          else if sy_voice_id r \<noteq> [] then
            (if \<not> se_profile_cached env then
               Some (failed_result ''worker_error'' ''voice_profile_not_ready''
                 ''native voice profile was not preloaded'')
             else None)
          else if sy_reference_audio_path r \<noteq> [] then
            (case se_reference env of
               Inl what \<Rightarrow> Some (failed_result ''request_error'' ''invalid_reference_audio'' what)
             | Inr _ \<Rightarrow>
                 if en_precompute_voice_refs en \<and> \<not> se_reference_cached env \<and> se_extract env \<noteq> QT_STATUS_OK then
                   Some (failed_result ''model_error'' ''voice_reference_extract_failed''
                     (last_error (se_extract_error env) ''qwentts voice reference extraction failed''))
                 else None)
          else None)"

text \<open>Every call of the audio callback first looks at the cancellation flag; a call with samples
  marks the request as having emitted audio.\<close>

definition audio_callback_emits :: "bool \<Rightarrow> 'a list option \<Rightarrow> bool" where
  "audio_callback_emits was_cancelled samples \<longleftrightarrow>
     \<not> was_cancelled \<and> (case samples of None \<Rightarrow> False | Some xs \<Rightarrow> xs \<noteq> [])"

text \<open>Every failure the engine reports can be sent as an error message, and every completion carries
  an execution outcome.\<close>

lemma synthesis_outcome_sendable:
  "res_outcome (synthesis_outcome st fin em ca rep) = Outcome_Failed \<Longrightarrow>
     validate_error_message \<lparr>category = res_category (synthesis_outcome st fin em ca rep),
       code = res_code (synthesis_outcome st fin em ca rep),
       err_message = res_message (synthesis_outcome st fin em ca rep)\<rparr> = Inr ()"
  "res_outcome (synthesis_outcome st fin em ca rep) = Outcome_Completed \<Longrightarrow>
     res_execution_outcome (synthesis_outcome st fin em ca rep) \<noteq> []"
  by (auto simp: synthesis_outcome_def failed_result_def completed_result_def last_error_def
      validate_error_message_def and_then_Inr_conv split: option.split if_splits)

text \<open>A request that the engine accepts satisfies the validator of the protocol, so that accepting is
  never more liberal than the codec.\<close>

lemma engine_accepts_valid:
  "validate_request en r = Inr () \<Longrightarrow> validate_synthesis_sampling (sy_sampling r) = Inr () \<Longrightarrow>
     validate_control_message (SynthesizeM r) = Inr ()"
  by (auto simp: validate_request_def and_then_Inr_conv split: if_splits)

end
