(* ===== verification/Floating_Point.thy ===== *)
theory Floating_Point
  imports Complex_Main "HOL-Library.Log_Nat"
begin

text \<open>
  The floating-point arithmetic the audio code relies on: \<open>double\<close> operations are the exact operation
  on rational numbers followed by rounding to the nearest number with a 53-bit significand, ties to
  even; \<open>std::lrint\<close> and \<open>std::lround\<close> turn a number into an integer. The values that occur are far
  from overflow and from the subnormal range, which are left out.
\<close>

section \<open>Rounding to integers\<close>

text \<open>\<open>std::lrint\<close> in the default rounding mode.\<close>

definition lrint :: "rat \<Rightarrow> int" where
  "lrint x =
     (let n = \<lfloor>x\<rfloor>; d = x - of_int n in
      if d < 1 / 2 then n else if d > 1 / 2 then n + 1 else if even n then n else n + 1)"

text \<open>\<open>std::lround\<close>: halves go away from zero.\<close>

definition lround :: "rat \<Rightarrow> int" where
  "lround x = (if 0 \<le> x then \<lfloor>x + 1 / 2\<rfloor> else - \<lfloor>- x + 1 / 2\<rfloor>)"

lemma lrint_between: "\<lfloor>x\<rfloor> \<le> lrint x \<and> lrint x \<le> \<lfloor>x\<rfloor> + 1"
  by (auto simp: lrint_def Let_def)

lemma lrint_error: "\<bar>of_int (lrint x) - x\<bar> \<le> 1 / 2"
proof -
  define n where "n = \<lfloor>x\<rfloor>"
  have "of_int n \<le> x" "x < of_int n + 1" by (simp_all add: n_def) linarith
  then show ?thesis unfolding lrint_def Let_def n_def [symmetric] by (auto simp: abs_if)
qed

lemma lrint_le_int: "x \<le> of_int n \<Longrightarrow> lrint x \<le> n"
proof -
  assume le: "x \<le> of_int n"
  show "lrint x \<le> n"
  proof (cases "\<lfloor>x\<rfloor> < n")
    case True
    then show ?thesis using lrint_between [of x] by linarith
  next
    case False
    then have "x = of_int n" using le by linarith
    then show ?thesis by (simp add: lrint_def)
  qed
qed

lemma lrint_ge_int: "of_int n \<le> x \<Longrightarrow> n \<le> lrint x"
  using lrint_between [of x] le_floor_iff [of n x] by linarith

lemma lround_bounds: "of_int a \<le> x \<Longrightarrow> x \<le> of_int b \<Longrightarrow> a \<le> lround x \<and> lround x \<le> b"
  by (auto simp: lround_def le_floor_iff floor_le_iff) linarith+

section \<open>Rounding to double\<close>

definition double_exponent :: "rat \<Rightarrow> int" where
  "double_exponent x =
     (let (p, q) = quotient_of \<bar>x\<bar>; e = bitlen p - bitlen q in
      if 2 powi e \<le> \<bar>x\<bar> then e else e - 1)"

definition round_double :: "rat \<Rightarrow> rat" where
  "round_double x =
     (if x = 0 then 0
      else (let ulp = 2 powi (double_exponent x - 52) in of_int (lrint (x / ulp)) * ulp))"

lemma powi_of_nat_diff: "(2 :: rat) powi (int m - int n) = 2 ^ m / 2 ^ n"
  by (simp add: power_int_diff)

lemma double_exponent_bounds:
  assumes "x \<noteq> 0"
  shows "2 powi double_exponent x \<le> \<bar>x\<bar>" and "\<bar>x\<bar> < 2 powi (double_exponent x + 1)"
proof -
  obtain p q where pq: "quotient_of \<bar>x\<bar> = (p, q)" by (cases "quotient_of \<bar>x\<bar>")
  have q: "0 < q" using quotient_of_denom_pos [OF pq] .
  have x: "\<bar>x\<bar> = of_int p / of_int q" using quotient_of_div [OF pq] .
  have "0 < \<bar>x\<bar>" using assms by simp
  then have p: "0 < p" using x q by (simp add: zero_less_divide_iff)
  define a where "a = nat (bitlen p)"
  define b where "b = nat (bitlen q)"
  have len: "bitlen p = int a" "bitlen q = int b" "0 < a" "0 < b"
    using p q bitlen_nonneg [of p] bitlen_nonneg [of q] bitlen_eq_zero_iff [of p] bitlen_eq_zero_iff [of q]
    by (auto simp: a_def b_def)
  have P: "2 ^ (a - 1) \<le> p" "p < 2 ^ a" and Q: "2 ^ (b - 1) \<le> q" "q < 2 ^ b"
    using bitlen_bounds [OF p] bitlen_bounds [OF q] by (simp_all add: len(1,2) nat_diff_distrib')
  have P': "(2 :: rat) ^ (a - 1) \<le> of_int p" "(of_int p :: rat) < 2 ^ a"
    and Q': "(2 :: rat) ^ (b - 1) \<le> of_int q" "(of_int q :: rat) < 2 ^ b"
    using P Q by (metis of_int_le_iff of_int_less_iff of_int_numeral of_int_power)+
  have half: "(2 :: rat) ^ a = 2 * 2 ^ (a - 1)" "(2 :: rat) ^ b = 2 * 2 ^ (b - 1)"
    using len(3,4) by (metis power_eq_if not_gr_zero)+
  have q': "(0 :: rat) < of_int q" using q by simp
  have up: "\<bar>x\<bar> < 2 powi (int a - int b + 1)"
  proof -
    have "of_int p * 2 ^ b < (2 :: rat) ^ a * (2 * of_int q)"
      using P'(2) Q'(1) half(2) q' p by (intro mult_less_le_imp_less) auto
    then have "\<bar>x\<bar> < 2 ^ a / 2 ^ b * 2" using q' by (simp add: x field_simps)
    then show ?thesis by (simp add: power_int_add powi_of_nat_diff)
  qed
  have low: "2 powi (int a - int b - 1) \<le> \<bar>x\<bar>"
  proof -
    have "(2 :: rat) ^ a * of_int q \<le> 2 * of_int p * 2 ^ b"
      using P'(1) Q'(2) half(1) q' p by (intro mult_mono) auto
    then have "2 ^ a / 2 ^ b / 2 \<le> \<bar>x\<bar>" using q' by (simp add: x field_simps)
    then show ?thesis by (simp add: power_int_diff)
  qed
  show "2 powi double_exponent x \<le> \<bar>x\<bar>" "\<bar>x\<bar> < 2 powi (double_exponent x + 1)"
    using up low by (auto simp: double_exponent_def pq len(1,2) Let_def)
qed

text \<open>The error is at most half a unit in the last place of 53 bits.\<close>

lemma round_double_error:
  assumes "x \<noteq> 0"
  shows "\<bar>round_double x - x\<bar> \<le> \<bar>x\<bar> / 2 ^ 53"
proof -
  define u :: rat where "u = 2 powi (double_exponent x - 52)"
  have u: "0 < u" by (simp add: u_def)
  have "u * 2 ^ 52 = 2 powi double_exponent x" by (simp add: u_def power_int_diff)
  then have ux: "u * 2 ^ 52 \<le> \<bar>x\<bar>" using double_exponent_bounds(1) [OF assms] by simp
  have "round_double x = of_int (lrint (x / u)) * u" using assms by (simp add: round_double_def Let_def u_def)
  then have "\<bar>round_double x - x\<bar> = \<bar>of_int (lrint (x / u)) - x / u\<bar> * u"
    using u by (simp add: abs_mult_pos left_diff_distrib)
  also have "\<dots> \<le> 1 / 2 * u" using lrint_error [of "x / u"] u by (intro mult_right_mono) auto
  finally have "\<bar>round_double x - x\<bar> \<le> u / 2" by simp
  also have "u / 2 \<le> \<bar>x\<bar> / 2 ^ 53" using ux by simp
  finally show ?thesis .
qed

text \<open>Integers of up to 53 bits are representable, so that rounding does not cross them.\<close>

lemma round_double_le_int:
  assumes "x \<le> of_int n" and "0 \<le> x" and "n < 2 ^ 53"
  shows "round_double x \<le> of_int n"
proof (cases "x = 0")
  case False
  define k where "k = double_exponent x - 52"
  have "2 powi double_exponent x \<le> x" using double_exponent_bounds(1) [OF False] assms(2) by simp
  also have "x < 2 powi 53"
    using assms by (metis le_less_trans of_int_less_iff of_int_numeral of_int_power power_int_numeral)
  finally have "(2 :: rat) powi double_exponent x < 2 powi 53" .
  then have "double_exponent x < 53" by (meson linorder_not_le power_int_increasing one_le_numeral)
  then have k: "k \<le> 0" by (simp add: k_def)
  define N where "N = n * 2 ^ nat (- k)"
  have pow: "(2 :: rat) powi k * 2 ^ nat (- k) = 1"
    using k by (simp add: power_int_def power_mult_distrib [symmetric])
  have "x / 2 powi k \<le> of_int N"
  proof -
    have "x \<le> of_int n * (2 powi k * 2 ^ nat (- k))" using assms(1) pow by simp
    then show ?thesis by (simp add: N_def divide_le_eq field_simps)
  qed
  then have "lrint (x / 2 powi k) \<le> N" by (rule lrint_le_int)
  then have "(of_int (lrint (x / 2 powi k)) :: rat) \<le> of_int N" by simp
  then have "of_int (lrint (x / 2 powi k)) * 2 powi k \<le> of_int N * (2 powi k :: rat)" by (rule mult_right_mono) simp
  also have "\<dots> = of_int n" using pow by (simp add: N_def mult.assoc mult.commute)
  finally show ?thesis using False by (simp add: round_double_def Let_def k_def)
qed (use assms in \<open>simp add: round_double_def\<close>)

lemma round_double_nonneg: "0 \<le> x \<Longrightarrow> 0 \<le> round_double x"
  using lrint_ge_int [of 0] by (auto simp: round_double_def Let_def intro!: mult_nonneg_nonneg)

lemma round_double_ge_int:
  assumes "of_int n \<le> x" and "0 \<le> x" and "n < 2 ^ 53"
  shows "of_int n \<le> round_double x"
proof (cases "x = 0")
  case False
  define k where "k = double_exponent x - 52"
  have rd: "round_double x = of_int (lrint (x / 2 powi k)) * 2 powi k"
    using False by (simp add: round_double_def Let_def k_def)
  have pos: "(0 :: rat) < 2 powi k" by simp
  show ?thesis
  proof (cases "k \<le> 0")
    case True
    have pow: "(2 :: rat) powi k * 2 ^ nat (- k) = 1"
      using True by (simp add: power_int_def power_mult_distrib [symmetric])
    have "of_int n * (2 powi k * 2 ^ nat (- k)) \<le> x" using assms(1) pow by simp
    then have "of_int (n * 2 ^ nat (- k)) \<le> x / 2 powi k" by (simp add: le_divide_eq field_simps)
    then have "n * 2 ^ nat (- k) \<le> lrint (x / 2 powi k)" by (rule lrint_ge_int)
    then have "(of_int (n * 2 ^ nat (- k)) :: rat) \<le> of_int (lrint (x / 2 powi k))" by (simp only: of_int_le_iff)
    then have "of_int (n * 2 ^ nat (- k)) * 2 powi k \<le> round_double x" unfolding rd using pos by (intro mult_right_mono) auto
    then have "of_int n * (2 powi k * 2 ^ nat (- k)) \<le> round_double x" by (simp add: ac_simps)
    then show ?thesis unfolding pow by simp
  next
    case False
    have "2 powi double_exponent x \<le> x" using double_exponent_bounds(1) [OF \<open>x \<noteq> 0\<close>] assms(2) by simp
    moreover have "(2 :: rat) powi double_exponent x = 2 ^ 52 * 2 powi k" by (simp add: k_def power_int_diff)
    ultimately have "of_int (2 ^ 52) \<le> x / 2 powi k" using pos by (simp add: le_divide_eq)
    then have "2 ^ 52 \<le> lrint (x / 2 powi k)" by (rule lrint_ge_int)
    then have big: "(2 ^ 52 :: rat) \<le> of_int (lrint (x / 2 powi k))"
      by (metis of_int_le_iff of_int_numeral of_int_power)
    have "(2 :: rat) powi 1 \<le> 2 powi k" using False by (intro power_int_increasing) auto
    then have "(2 :: rat) ^ 52 * 2 \<le> of_int (lrint (x / 2 powi k)) * 2 powi k"
      using big by (intro mult_mono) auto
    moreover have "(of_int n :: rat) < 2 ^ 53" using assms(3) by (metis of_int_less_iff of_int_numeral of_int_power)
    ultimately show ?thesis unfolding rd by simp
  qed
qed (use assms in \<open>simp add: round_double_def\<close>)

lemma round_double_int: "0 \<le> n \<Longrightarrow> n < 2 ^ 53 \<Longrightarrow> round_double (of_int n) = of_int n"
  using round_double_le_int [of "of_int n" n] round_double_ge_int [of n "of_int n"] by simp

lemma lrint_uminus: "lrint (- x) = - lrint x"
proof -
  define n where "n = \<lfloor>x\<rfloor>"
  have n: "of_int n \<le> x" "x < of_int n + 1" by (simp_all add: n_def) linarith
  show ?thesis
  proof (cases "x = of_int n")
    case True
    then show ?thesis by (simp add: lrint_def)
  next
    case False
    then have "\<lfloor>- x\<rfloor> = - n - 1" using n by (intro floor_unique) auto
    then show ?thesis unfolding lrint_def Let_def n_def [symmetric] by auto
  qed
qed

lemma double_exponent_uminus: "double_exponent (- x) = double_exponent x"
  by (simp add: double_exponent_def)

lemma round_double_uminus: "round_double (- x) = - round_double x"
  by (simp add: round_double_def double_exponent_uminus lrint_uminus Let_def)

end
