(* ===== verification/Stdio_Server.thy ===== *)
theory Stdio_Server
  imports Native_Engine Frame_Stream Wav_Reader Floating_Point
begin

text \<open>
  \<open>worker/native/qwentts/stdio_server.cpp\<close> and \<open>stdout_writer.cpp\<close>: the worker process between its
  standard input and output. Three threads run: the reader parses frames and handles them, the engine
  thread takes admitted requests one by one, the writer puts queued frames on the standard output.
  One section of code under the mutex, one atomic access and one blocking call are each one step.
  The messages a handler sends after its critical section are kept in a list per thread and sent one
  per step, because each of these sends may wait for room in the writer's queue.

  Slots are shared between the map of active requests, the queue and the running engine call, so they
  live in a store; an accepted identifier is never accepted again, so it names its slot. Metrics
  written to the standard error are left out.
\<close>

section \<open>State\<close>

datatype RequestState = RS_Queued | RS_Running

record RequestSlot =
  rs_request :: SynthesizeMessage
  rs_state :: RequestState
  rs_cancelled :: bool
  rs_terminal :: bool

text \<open>A pending action of a thread: \<open>SendFailure\<close> is the \<open>send_error\<close> that ends an accepted request,
  \<open>SendError\<close> every other one; \<open>TerminalsEnqueued\<close> is the last critical section of \<open>request_shutdown\<close>.\<close>

datatype ServerSend =
    SendControl RequestId ControlMessage
  | SendError RequestId ErrorMessage
  | SendFailure RequestId ErrorMessage
  | SendAudio RequestId "byte list"
  | TerminalsEnqueued

datatype ReaderPhase = R_Check | R_Reading | R_Parsing | R_Returned | R_Finished

datatype EnginePhase =
    E_Idle
  | E_Taken RequestId
  | E_Calling RequestId
  | E_Synth RequestId
  | E_Chunk RequestId "dbl list option"
  | E_Terminal RequestId SynthesisResult
  | E_Release RequestId SynthesisResult
  | E_Leaving
  | E_Exited

text \<open>\<open>sv_sent\<close> lists what reached the writer's queue; the other fields are the members of the two
  classes, the threads' positions, the bytes on the standard output, and whether an exception left
  the reader or ended the process.\<close>

record StdioServer =
  sv_engine :: NativeEngine
  sv_session_id :: string
  sv_parser :: FrameParser
  sv_slots :: "(RequestId \<times> RequestSlot) list"
  sv_pending :: "RequestId list"
  sv_active :: "RequestId list"
  sv_max_admitted :: nat
  sv_admitted :: nat
  sv_high_water :: RequestId
  sv_hello_seen :: bool
  sv_ready_sent :: bool
  sv_shutdown_requested :: bool
  sv_ack_needed :: bool
  sv_terminals_enqueued :: bool
  sv_fatal :: bool
  sv_reader :: ReaderPhase
  sv_reader_out :: "ServerSend list"
  sv_engine_phase :: EnginePhase
  sv_engine_out :: "ServerSend list"
  sv_emitted :: bool
  sv_sent :: "ServerSend list"
  sv_queue :: "byte list list"
  sv_stopping :: bool
  sv_failed :: bool
  sv_stdout :: "byte list"
  sv_threw :: bool
  sv_aborted :: bool

definition new_server :: "NativeEngine \<Rightarrow> string \<Rightarrow> nat \<Rightarrow> string + StdioServer" where
  "new_server en session n =
     (if n < 1 \<or> n > 65536 then Inl ''max_admitted_requests must be in [1, 65536]''
      else Inr \<lparr>sv_engine = en, sv_session_id = session, sv_parser = new_parser, sv_slots = [], sv_pending = [],
        sv_active = [], sv_max_admitted = n, sv_admitted = 0, sv_high_water = 0, sv_hello_seen = False,
        sv_ready_sent = False, sv_shutdown_requested = False, sv_ack_needed = False,
        sv_terminals_enqueued = False, sv_fatal = False, sv_reader = R_Check, sv_reader_out = [],
        sv_engine_phase = E_Idle, sv_engine_out = [], sv_emitted = False, sv_sent = [], sv_queue = [],
        sv_stopping = False, sv_failed = False, sv_stdout = [], sv_threw = False, sv_aborted = False\<rparr>)"

section \<open>Samples\<close>

definition s16_of_sample :: "dbl \<Rightarrow> u16" where
  "s16_of_sample s =
     (let v = (case s of Finite r \<Rightarrow> r | _ \<Rightarrow> 0);
          i = (if v \<le> - 1 then - 32768 else if v \<ge> 1 then 32767
               else max (- 32768) (min 32767 (lrint (v * 32768))))
      in word_of_int i)"

definition float_pcm_to_s16le :: "dbl list option \<Rightarrow> byte list" where
  "float_pcm_to_s16le samples =
     (case samples of
        None \<Rightarrow> []
      | Some xs \<Rightarrow> concat (map (\<lambda>x. [ucast (s16_of_sample x AND 0xff),
                                      ucast (drop_bit 8 (s16_of_sample x) AND 0xff)]) xs))"

section \<open>The writer\<close>

definition max_frames :: nat where
  "max_frames = 128"

definition make_frame :: "FrameType \<Rightarrow> RequestId \<Rightarrow> byte list \<Rightarrow> string + byte list" where
  "make_frame t rid pl =
     (let encoded = encode_frame t rid pl in
      if encode_ok encoded then Inr (er_bytes encoded)
      else Inl (''unable to encode QTB frame: '' @ er_message encoded))"

text \<open>\<open>OutputWriter::send\<close>; \<open>None\<close> while it waits for room.\<close>

definition writer_send :: "byte list \<Rightarrow> StdioServer \<Rightarrow> (bool \<times> StdioServer) option" where
  "writer_send fr st =
     (if sv_stopping st \<or> sv_failed st then Some (False, st)
      else if length (sv_queue st) < max_frames then Some (True, st\<lparr>sv_queue := sv_queue st @ [fr]\<rparr>)
      else None)"

text \<open>The calls of \<open>WriteFile\<close> for one frame: whether the call succeeded and how many bytes it took, at
  most as many as it was given. \<open>None\<close> while the last call has not returned.\<close>

record StdoutWriteResult =
  wr_success :: bool
  wr_bytes_written :: nat

fun write_stdout_frame :: "(bool \<times> nat) list \<Rightarrow> nat \<Rightarrow> byte list \<Rightarrow> StdoutWriteResult option" where
  "write_stdout_frame calls offset fr =
     (if offset \<ge> length fr then Some \<lparr>wr_success = True, wr_bytes_written = offset\<rparr>
      else
        (case calls of
           [] \<Rightarrow> None
         | (ok, n) # rest \<Rightarrow>
             (let written = min n (min (length fr - offset) (2 ^ 32 - 1)) in
              if \<not> ok then Some \<lparr>wr_success = False, wr_bytes_written = offset + written\<rparr>
              else if written = 0 then Some \<lparr>wr_success = False, wr_bytes_written = offset\<rparr>
              else write_stdout_frame rest (offset + written) fr)))"

declare write_stdout_frame.simps [simp del]

definition writer_round :: "(bool \<times> nat) list \<Rightarrow> StdioServer \<Rightarrow> StdioServer" where
  "writer_round calls st =
     (if sv_failed st then st
      else
        (case sv_queue st of
           [] \<Rightarrow> st
         | fr # rest \<Rightarrow>
             (case write_stdout_frame calls 0 fr of
                None \<Rightarrow> st
              | Some result \<Rightarrow>
                  (let st = st\<lparr>sv_queue := rest,
                       sv_stdout := sv_stdout st @ take (wr_bytes_written result) fr\<rparr> in
                   if wr_success result then st
                   else st\<lparr>sv_failed := True, sv_stopping := True, sv_queue := []\<rparr>))))"

section \<open>Slots and sending\<close>

definition slot_of :: "StdioServer \<Rightarrow> RequestId \<Rightarrow> RequestSlot option" where
  "slot_of st rid = map_of (sv_slots st) rid"

definition slot_cancelled :: "StdioServer \<Rightarrow> RequestId \<Rightarrow> bool" where
  "slot_cancelled st rid = (case slot_of st rid of None \<Rightarrow> False | Some s \<Rightarrow> rs_cancelled s)"

definition slot_terminal :: "StdioServer \<Rightarrow> RequestId \<Rightarrow> bool" where
  "slot_terminal st rid = (case slot_of st rid of None \<Rightarrow> False | Some s \<Rightarrow> rs_terminal s)"

definition cancel_slots :: "RequestId set \<Rightarrow> StdioServer \<Rightarrow> StdioServer" where
  "cancel_slots ids st =
     st\<lparr>sv_slots := map (\<lambda>(i, s). (i, if i \<in> ids then s\<lparr>rs_cancelled := True\<rparr> else s)) (sv_slots st)\<rparr>"

definition fail_fatal :: "StdioServer \<Rightarrow> StdioServer" where
  "fail_fatal st = cancel_slots (set (sv_active st)) (st\<lparr>sv_fatal := True\<rparr>)"

text \<open>The first component tells whether \<open>make_frame\<close> threw.\<close>

definition send_frame ::
  "FrameType \<Rightarrow> RequestId \<Rightarrow> byte list \<Rightarrow> ServerSend \<Rightarrow> StdioServer \<Rightarrow> (bool \<times> StdioServer) option" where
  "send_frame t rid pl item st =
     (case make_frame t rid pl of
        Inl _ \<Rightarrow> Some (True, st)
      | Inr fr \<Rightarrow>
          (case writer_send fr st of
             None \<Rightarrow> None
           | Some (sent, st) \<Rightarrow>
               Some (False, if sent then st\<lparr>sv_sent := sv_sent st @ [item]\<rparr> else fail_fatal st)))"

definition server_send_control ::
  "json_dump \<Rightarrow> RequestId \<Rightarrow> ControlMessage \<Rightarrow> StdioServer \<Rightarrow> (bool \<times> StdioServer) option" where
  "server_send_control jd rid m st =
     (let encoded = encode_control_message jd m in
      if je_error encoded \<noteq> CCE_None then Some (False, fail_fatal st)
      else send_frame ControlJson rid (je_payload encoded) (SendControl rid m) st)"

definition server_send_error ::
  "json_dump \<Rightarrow> RequestId \<Rightarrow> ErrorMessage \<Rightarrow> ServerSend \<Rightarrow> StdioServer \<Rightarrow> (bool \<times> StdioServer) option" where
  "server_send_error jd rid e item st =
     (let encoded = encode_error_message jd e in
      if je_error encoded \<noteq> CCE_None then Some (False, fail_fatal st)
      else send_frame ErrorJson rid (je_payload encoded) item st)"

fun perform_send :: "json_dump \<Rightarrow> ServerSend \<Rightarrow> StdioServer \<Rightarrow> (bool \<times> StdioServer) option" where
  "perform_send jd (SendControl rid m) st = server_send_control jd rid m st"
| "perform_send jd (SendError rid e) st = server_send_error jd rid e (SendError rid e) st"
| "perform_send jd (SendFailure rid e) st = server_send_error jd rid e (SendFailure rid e) st"
| "perform_send jd (SendAudio rid pcm) st = send_frame AudioPcm rid pcm (SendAudio rid pcm) st"
| "perform_send jd TerminalsEnqueued st = Some (False, st\<lparr>sv_terminals_enqueued := True\<rparr>)"

section \<open>The reader\<close>

definition reply :: "ServerSend list \<Rightarrow> StdioServer \<Rightarrow> StdioServer" where
  "reply items st = st\<lparr>sv_reader_out := items\<rparr>"

definition reply_error :: "RequestId \<Rightarrow> string \<Rightarrow> string \<Rightarrow> string \<Rightarrow> StdioServer \<Rightarrow> StdioServer" where
  "reply_error rid cat cd msg = reply [SendError rid \<lparr>category = cat, code = cd, err_message = msg\<rparr>]"

definition handle_hello :: "RequestId \<Rightarrow> StdioServer \<Rightarrow> StdioServer" where
  "handle_hello rid st =
     (if rid \<noteq> 0 \<or> sv_hello_seen st \<or> sv_shutdown_requested st then
        reply_error rid ''protocol_error'' ''invalid_session_state''
          ''hello is invalid in the current session state'' st
      else
        reply [SendControl 0 (ReadyM (default_ready\<lparr>
            worker_version := ''0.2.0-native-qwentts/'' @ en_version (sv_engine st),
            session_id := sv_session_id st, has_warmed_up := True, warmed_up := en_warmed_up (sv_engine st),
            capabilities := engine_capabilities (sv_engine st), voice_ids := engine_voice_ids (sv_engine st)\<rparr>))]
          (st\<lparr>sv_hello_seen := True, sv_ready_sent := True\<rparr>))"

definition handle_ping :: "RequestId \<Rightarrow> SequenceMessage \<Rightarrow> StdioServer \<Rightarrow> StdioServer" where
  "handle_ping rid m st =
     (if rid \<noteq> 0 then
        reply_error rid ''protocol_error'' ''invalid_session_state'' ''ping must use request_id = 0'' st
      else reply [SendControl 0 (PongM \<lparr>has_sequence = has_sequence m, sequence = sequence m\<rparr>)] st)"

fun has_infix :: "string \<Rightarrow> string \<Rightarrow> bool" where
  "has_infix p [] = (p = [])"
| "has_infix p (c # cs) = (take (length p) (c # cs) = p \<or> has_infix p cs)"

definition admit :: "RequestId \<Rightarrow> SynthesizeMessage \<Rightarrow> StdioServer \<Rightarrow> StdioServer" where
  "admit rid m st =
     st\<lparr>sv_high_water := rid, sv_admitted := sv_admitted st + 1, sv_active := rid # sv_active st,
        sv_pending := sv_pending st @ [rid],
        sv_slots := sv_slots st @ [(rid, \<lparr>rs_request = m, rs_state = RS_Queued, rs_cancelled = False,
          rs_terminal = False\<rparr>)]\<rparr>"

definition handle_synthesize :: "RequestId \<Rightarrow> SynthesizeMessage \<Rightarrow> StdioServer \<Rightarrow> StdioServer" where
  "handle_synthesize rid m st =
     (if rid = 0 then
        reply_error 0 ''request_error'' ''missing_required_field'' ''synthesize requires a non-zero request_id'' st
      else
        (case validate_request (sv_engine st) m of
           Inl (InvalidArgument what) \<Rightarrow>
             reply_error rid ''request_error''
               (if has_infix ''output'' what then ''unsupported_audio_format'' else ''invalid_native_request'')
               what st
         | Inl (RuntimeError what) \<Rightarrow> reply_error rid ''worker_error'' ''worker_not_ready'' what st
         | Inr _ \<Rightarrow>
             if sv_shutdown_requested st then
               reply_error rid ''protocol_error'' ''shutdown_in_progress'' ''native worker is shutting down'' st
             else if rid \<in> set (sv_active st) \<or> rid \<le> sv_high_water st then
               reply_error rid ''request_error'' ''duplicate_request_id''
                 ''request_id was already used in this session'' st
             else if sv_admitted st \<ge> sv_max_admitted st then
               reply_error rid ''resource_error'' ''resource_exhausted'' ''worker admission limit reached'' st
             else
               (let st = admit rid m st in
                reply [SendControl rid (QueuedM \<lparr>has_position = True,
                  position = of_nat (length (sv_pending st))\<rparr>)] st)))"

text \<open>\<open>--admitted_requests_\<close> on a \<open>size_t\<close>.\<close>

definition size_dec :: "nat \<Rightarrow> nat" where
  "size_dec n = (if n = 0 then 2 ^ 64 - 1 else n - 1)"

text \<open>Ending a request under the mutex: the exchange of the terminal flag, and the release of the
  slot when this call was the one that set it. \<open>cancelled_slot = slot\<close> in \<open>handle_cancel\<close> reads through a
  reference into the map entry just erased; the model takes the read to give the slot.\<close>

definition mark_terminal_slot :: "RequestId \<Rightarrow> StdioServer \<Rightarrow> StdioServer" where
  "mark_terminal_slot rid st =
     st\<lparr>sv_slots := assoc_modify rid (\<lambda>s. s\<lparr>rs_terminal := True\<rparr>) (sv_slots st)\<rparr>"

definition release_cancelled :: "RequestId \<Rightarrow> StdioServer \<Rightarrow> bool \<times> StdioServer" where
  "release_cancelled rid st =
     (let st = cancel_slots {rid} st; was_terminal = slot_terminal st rid; st = mark_terminal_slot rid st in
      if was_terminal then (False, st)
      else (True, st\<lparr>sv_active := removeAll rid (sv_active st), sv_admitted := size_dec (sv_admitted st)\<rparr>))"

definition handle_cancel :: "RequestId \<Rightarrow> StdioServer \<Rightarrow> StdioServer" where
  "handle_cancel rid st =
     (if rid = 0 then
        reply_error 0 ''request_error'' ''unknown_request_id'' ''cancel requires a non-zero request_id'' st
      else if rid \<notin> set (sv_active st) then
        (if rid > sv_high_water st then
           reply_error rid ''request_error'' ''unknown_request_id'' ''request_id is not active'' st
         else st)
      else
        (case slot_of st rid of
           None \<Rightarrow> st
         | Some s \<Rightarrow>
             if rs_state s = RS_Queued then
               (let (released, st') = release_cancelled rid (st\<lparr>sv_pending := removeAll rid (sv_pending st)\<rparr>) in
                if released then reply [SendControl rid CancelledM] st' else st')
             else cancel_slots {rid} st))"

fun drain_pending :: "RequestId list \<Rightarrow> StdioServer \<Rightarrow> RequestId list \<times> StdioServer" where
  "drain_pending [] st = ([], st)"
| "drain_pending (rid # rest) st =
     (let (released, st) = release_cancelled rid (st\<lparr>sv_pending := rest\<rparr>);
          (ids, st) = drain_pending rest st
      in (if released then rid # ids else ids, st))"

definition request_shutdown :: "bool \<Rightarrow> StdioServer \<Rightarrow> StdioServer" where
  "request_shutdown send_ack st =
     (let st = st\<lparr>sv_ack_needed := (sv_ack_needed st \<or> send_ack)\<rparr> in
      if sv_shutdown_requested st then st
      else
        (let (ids, st) = drain_pending (sv_pending st) (st\<lparr>sv_shutdown_requested := True\<rparr>) in
         reply (map (\<lambda>rid. SendControl rid CancelledM) ids @ [TerminalsEnqueued])
           (cancel_slots (set (sv_active st)) st)))"

definition handle_shutdown :: "RequestId \<Rightarrow> ShutdownMessage \<Rightarrow> StdioServer \<Rightarrow> bool \<times> StdioServer" where
  "handle_shutdown rid m st =
     (if rid \<noteq> 0 \<or> mode m \<noteq> ''cancel'' then
        (True, reply_error rid ''protocol_error'' ''invalid_session_state''
           ''shutdown must use request_id = 0 and mode = cancel'' st)
      else (False, request_shutdown True st))"

text \<open>The first component is the returned flag: whether the reader goes on.\<close>

definition handle_frame :: "json_parse \<Rightarrow> Frame \<Rightarrow> StdioServer \<Rightarrow> bool \<times> StdioServer" where
  "handle_frame jp fr st =
     (let rid = request_id (header fr) in
      if frame_type (header fr) \<noteq> ControlJson then
        (True, reply_error rid ''protocol_error'' ''invalid_message_direction''
           ''native worker accepts only client-to-worker control_json frames'' st)
      else
        (let decoded = decode_control_message jp (payload fr) ClientToWorker in
         if cd_error decoded \<noteq> CCE_None then
           (True, reply_error rid ''protocol_error'' (control_codec_error_code (cd_error decoded))
              (cd_diagnostic decoded) st)
         else
           (let t = control_message_type (cd_message decoded) in
            if \<not> sv_ready_sent st \<and> t \<noteq> CMT_Hello \<and> t \<noteq> CMT_Ping \<and> t \<noteq> CMT_Shutdown then
              (True, reply_error rid ''protocol_error'' ''invalid_session_state'' ''native worker is not ready'' st)
            else
              (case cd_message decoded of
                 HelloM _ \<Rightarrow> (True, handle_hello rid st)
               | SynthesizeM m \<Rightarrow> (True, handle_synthesize rid m st)
               | CancelM \<Rightarrow> (True, handle_cancel rid st)
               | PingM m \<Rightarrow> (True, handle_ping rid m st)
               | ShutdownM m \<Rightarrow> handle_shutdown rid m st
               | _ \<Rightarrow> (True, reply_error rid ''protocol_error'' ''invalid_message_direction''
                    ''message is not accepted by the native worker'' st)))))"

definition reader_check :: "StdioServer \<Rightarrow> StdioServer" where
  "reader_check st =
     (if sv_shutdown_requested st \<or> sv_fatal st then st\<lparr>sv_reader := R_Returned\<rparr>
      else st\<lparr>sv_reader := R_Reading\<rparr>)"

definition reader_read :: "byte list \<Rightarrow> StdioServer \<Rightarrow> StdioServer" where
  "reader_read bytes st =
     (if bytes = [] then st\<lparr>sv_reader := R_Returned\<rparr>
      else st\<lparr>sv_reader := R_Parsing, sv_parser := parser_append bytes (sv_parser st)\<rparr>)"

definition reader_parse :: "json_parse \<Rightarrow> StdioServer \<Rightarrow> StdioServer" where
  "reader_parse jp st =
     (let (result, p) = parse_next (sv_parser st); st = st\<lparr>sv_parser := p\<rparr> in
      if status result = NeedMoreData then st\<lparr>sv_reader := R_Check\<rparr>
      else if status result = FatalError then (fail_fatal st)\<lparr>sv_reader := R_Returned\<rparr>
      else
        (let (go_on, st) = handle_frame jp (frame result) st in
         if go_on then st else st\<lparr>sv_reader := R_Returned\<rparr>))"

text \<open>An exception that leaves the reader unwinds to \<open>main\<close> through the destructor, which shuts down and
  joins as \<open>run\<close> would have; a second one, out of the destructor, ends the process.\<close>

definition reader_throws :: "StdioServer \<Rightarrow> StdioServer" where
  "reader_throws st =
     (if sv_threw st then st\<lparr>sv_aborted := True\<rparr>
      else st\<lparr>sv_threw := True, sv_reader_out := [],
        sv_reader := (if sv_reader st = R_Finished then R_Finished else R_Returned)\<rparr>)"

definition reader_send :: "json_dump \<Rightarrow> StdioServer \<Rightarrow> StdioServer" where
  "reader_send jd st =
     (case sv_reader_out st of
        [] \<Rightarrow> st
      | item # rest \<Rightarrow>
          (case perform_send jd item st of
             None \<Rightarrow> st
           | Some (threw, st) \<Rightarrow> if threw then reader_throws st else st\<lparr>sv_reader_out := rest\<rparr>))"

text \<open>The end of \<open>run\<close>: \<open>request_shutdown(false)\<close> and, once the engine thread is joined, the stop of the
  writer.\<close>

definition reader_finish :: "StdioServer \<Rightarrow> StdioServer" where
  "reader_finish st = (request_shutdown False st)\<lparr>sv_reader := R_Finished\<rparr>"

definition run_end :: "StdioServer \<Rightarrow> StdioServer" where
  "run_end st = st\<lparr>sv_stopping := True\<rparr>"

definition run_status :: "StdioServer \<Rightarrow> nat" where
  "run_status st = (if sv_fatal st \<or> sv_failed st then 1 else 0)"

section \<open>The engine thread\<close>

definition take_next_request :: "StdioServer \<Rightarrow> StdioServer" where
  "take_next_request st =
     (case sv_pending st of
        rid # rest \<Rightarrow>
          st\<lparr>sv_pending := rest, sv_engine_phase := E_Taken rid,
             sv_slots := assoc_modify rid (\<lambda>s. s\<lparr>rs_state := RS_Running\<rparr>) (sv_slots st)\<rparr>
      | [] \<Rightarrow>
          if sv_shutdown_requested st \<and> sv_terminals_enqueued st \<or> sv_fatal st
          then st\<lparr>sv_engine_phase := E_Leaving\<rparr> else st)"

definition engine_leave :: "StdioServer \<Rightarrow> StdioServer" where
  "engine_leave st =
     st\<lparr>sv_engine_phase := E_Exited,
        sv_engine_out := (if sv_ack_needed st then [SendControl 0 ShutdownAckM] else [])\<rparr>"

definition cancelled_result :: SynthesisResult where
  "cancelled_result =
     \<lparr>res_outcome = Outcome_Cancelled, res_category = '''', res_code = '''', res_message = '''',
      res_execution_outcome = ''''\<rparr>"

definition run_request :: "RequestId \<Rightarrow> StdioServer \<Rightarrow> StdioServer" where
  "run_request rid st =
     (case slot_of st rid of
        None \<Rightarrow> st
      | Some s \<Rightarrow>
          if rs_cancelled s then st\<lparr>sv_engine_phase := E_Terminal rid cancelled_result\<rparr>
          else st\<lparr>sv_engine_phase := E_Calling rid,
                  sv_engine_out := [SendControl rid (StartedM \<lparr>started_format = sy_output (rs_request s)\<rparr>)]\<rparr>)"

definition call_engine :: "SynthEnv \<Rightarrow> RequestId \<Rightarrow> StdioServer \<Rightarrow> StdioServer" where
  "call_engine env rid st =
     (case slot_of st rid of
        None \<Rightarrow> st
      | Some s \<Rightarrow>
          (case synthesize_early (sv_engine st) env (rs_request s) of
             Some res \<Rightarrow> st\<lparr>sv_engine_phase := E_Terminal rid res\<rparr>
           | None \<Rightarrow> st\<lparr>sv_engine_phase := E_Synth rid, sv_emitted := False\<rparr>))"

text \<open>The library calls \<open>audio_callback\<close>, which after its own look at the flag calls the handler of
  \<open>run_request\<close>.\<close>

definition audio_callback :: "dbl list option \<Rightarrow> RequestId \<Rightarrow> StdioServer \<Rightarrow> StdioServer" where
  "audio_callback samples rid st =
     (if slot_cancelled st rid then st
      else st\<lparr>sv_emitted := (sv_emitted st \<or> audio_callback_emits False samples),
              sv_engine_phase := E_Chunk rid samples\<rparr>)"

definition on_chunk :: "RequestId \<Rightarrow> dbl list option \<Rightarrow> StdioServer \<Rightarrow> StdioServer" where
  "on_chunk rid samples st =
     (let st = st\<lparr>sv_engine_phase := E_Synth rid\<rparr> in
      if slot_cancelled st rid \<or> slot_terminal st rid then st
      else if samples = None \<or> samples = Some [] then fail_fatal st
      else st\<lparr>sv_engine_out := [SendAudio rid (float_pcm_to_s16le samples)]\<rparr>)"

definition engine_return ::
  "QtStatus \<Rightarrow> QtFinish \<Rightarrow> string option \<Rightarrow> RequestId \<Rightarrow> StdioServer \<Rightarrow> StdioServer" where
  "engine_return qs qf reported rid st =
     st\<lparr>sv_engine_phase :=
       E_Terminal rid (synthesis_outcome qs qf (sv_emitted st) (slot_cancelled st rid) reported)\<rparr>"

text \<open>\<open>terminalize\<close>: the exchange of the flag, then the critical section.\<close>

definition terminalize :: "RequestId \<Rightarrow> SynthesisResult \<Rightarrow> StdioServer \<Rightarrow> StdioServer" where
  "terminalize rid res st =
     (if slot_terminal st rid then st\<lparr>sv_engine_phase := E_Idle\<rparr>
      else (mark_terminal_slot rid st)\<lparr>sv_engine_phase := E_Release rid res\<rparr>)"

definition terminal_message :: "RequestId \<Rightarrow> SynthesisResult \<Rightarrow> ServerSend" where
  "terminal_message rid res =
     (case res_outcome res of
        Outcome_Completed \<Rightarrow>
          SendControl rid (CompletedM (default_completed\<lparr>has_execution_outcome := True,
            execution_outcome := (if res_execution_outcome res = [] then ''completed''
                                  else res_execution_outcome res)\<rparr>))
      | Outcome_Cancelled \<Rightarrow> SendControl rid CancelledM
      | Outcome_Failed \<Rightarrow>
          SendFailure rid \<lparr>category = res_category res, code = res_code res, err_message = res_message res\<rparr>)"

definition release_request :: "RequestId \<Rightarrow> SynthesisResult \<Rightarrow> StdioServer \<Rightarrow> StdioServer" where
  "release_request rid res st =
     st\<lparr>sv_active := removeAll rid (sv_active st),
        sv_admitted := (if sv_admitted st > 0 then sv_admitted st - 1 else sv_admitted st),
        sv_engine_out := [terminal_message rid res], sv_engine_phase := E_Idle\<rparr>"

definition engine_send :: "json_dump \<Rightarrow> StdioServer \<Rightarrow> StdioServer" where
  "engine_send jd st =
     (case sv_engine_out st of
        [] \<Rightarrow> st
      | item # rest \<Rightarrow>
          (case perform_send jd item st of
             None \<Rightarrow> st
           | Some (threw, st) \<Rightarrow>
               if threw then st\<lparr>sv_aborted := True\<rparr> else st\<lparr>sv_engine_out := rest\<rparr>))"

section \<open>Interleaving\<close>

text \<open>What happens next: which thread moves, and what the outside gives it. A thread with unsent
  messages sends; a step that is not enabled changes nothing.\<close>

datatype ServerStep =
    ReaderStep "byte list"
  | EngineStep SynthEnv "dbl list option"
  | EngineReturn QtStatus QtFinish "string option"
  | WriterStep "(bool \<times> nat) list"
  | RunEnd

definition reader_step :: "json_dump \<Rightarrow> json_parse \<Rightarrow> byte list \<Rightarrow> StdioServer \<Rightarrow> StdioServer" where
  "reader_step jd jp bytes st =
     (if sv_reader_out st \<noteq> [] then reader_send jd st
      else
        (case sv_reader st of
           R_Check \<Rightarrow> reader_check st
         | R_Reading \<Rightarrow> reader_read bytes st
         | R_Parsing \<Rightarrow> reader_parse jp st
         | R_Returned \<Rightarrow> reader_finish st
         | R_Finished \<Rightarrow> st))"

definition engine_step :: "json_dump \<Rightarrow> SynthEnv \<Rightarrow> dbl list option \<Rightarrow> StdioServer \<Rightarrow> StdioServer" where
  "engine_step jd env samples st =
     (if sv_engine_out st \<noteq> [] then engine_send jd st
      else
        (case sv_engine_phase st of
           E_Idle \<Rightarrow> take_next_request st
         | E_Taken rid \<Rightarrow> run_request rid st
         | E_Calling rid \<Rightarrow> call_engine env rid st
         | E_Synth rid \<Rightarrow> audio_callback samples rid st
         | E_Chunk rid xs \<Rightarrow> on_chunk rid xs st
         | E_Terminal rid res \<Rightarrow> terminalize rid res st
         | E_Release rid res \<Rightarrow> release_request rid res st
         | E_Leaving \<Rightarrow> engine_leave st
         | E_Exited \<Rightarrow> st))"

definition engine_returns :: "QtStatus \<Rightarrow> QtFinish \<Rightarrow> string option \<Rightarrow> StdioServer \<Rightarrow> StdioServer" where
  "engine_returns qs qf reported st =
     (case sv_engine_phase st of
        E_Synth rid \<Rightarrow> if sv_engine_out st = [] then engine_return qs qf reported rid st else st
      | _ \<Rightarrow> st)"

definition run_joined :: "StdioServer \<Rightarrow> bool" where
  "run_joined st \<longleftrightarrow> sv_reader st = R_Finished \<and> sv_reader_out st = [] \<and> sv_engine_phase st = E_Exited \<and>
     sv_engine_out st = []"

fun server_step :: "json_dump \<Rightarrow> json_parse \<Rightarrow> ServerStep \<Rightarrow> StdioServer \<Rightarrow> StdioServer" where
  "server_step jd jp step st =
     (if sv_aborted st then st
      else
        (case step of
           ReaderStep bytes \<Rightarrow> reader_step jd jp bytes st
         | EngineStep env samples \<Rightarrow> engine_step jd env samples st
         | EngineReturn qs qf reported \<Rightarrow> engine_returns qs qf reported st
         | WriterStep calls \<Rightarrow> writer_round calls st
         | RunEnd \<Rightarrow> if run_joined st then run_end st else st))"

declare server_step.simps [simp del]

inductive server_reachable :: "json_dump \<Rightarrow> json_parse \<Rightarrow> StdioServer \<Rightarrow> bool" for jd jp where
  start: "new_server en session n = Inr st \<Longrightarrow> server_reachable jd jp st"
| step: "server_reachable jd jp st \<Longrightarrow> server_reachable jd jp (server_step jd jp step st)"


end
