(* ===== verification/Server_Invariants.thy ===== *)
theory Server_Invariants
  imports Stdio_Server "HOL-Library.Sublist"
begin

text \<open>
  The bookkeeping of the native worker in every interleaving of its threads: where each accepted request
  stands between the map of active requests, the queue and the engine thread, which messages have been
  sent for it at that point, and the count of admitted requests.
\<close>

section \<open>Views of the state\<close>

text \<open>The request the engine thread holds, and the one whose terminal flag it has just set.\<close>

fun held :: "EnginePhase \<Rightarrow> RequestId option" where
  "held (E_Taken r) = Some r"
| "held (E_Calling r) = Some r"
| "held (E_Synth r) = Some r"
| "held (E_Chunk r xs) = Some r"
| "held (E_Terminal r res) = Some r"
| "held (E_Release r res) = Some r"
| "held ph = None"

fun releasing :: "EnginePhase \<Rightarrow> RequestId option" where
  "releasing (E_Release r res) = Some r"
| "releasing ph = None"

definition slot_fits :: "RequestId list \<Rightarrow> RequestId list \<Rightarrow> EnginePhase \<Rightarrow> RequestId \<Rightarrow> RequestSlot \<Rightarrow> bool" where
  "slot_fits active pending ph r s \<longleftrightarrow>
     rs_terminal s = (r \<notin> set active \<or> releasing ph = Some r) \<and>
     (r \<in> set active \<longrightarrow> (rs_state s = RS_Queued) = (r \<in> set pending))"

definition keys_ok :: "RequestId list \<Rightarrow> RequestId list \<Rightarrow> RequestId list \<Rightarrow> EnginePhase \<Rightarrow> RequestId \<Rightarrow> bool" where
  "keys_ok ids active pending ph hw \<longleftrightarrow>
     sorted_wrt (<) ids \<and> (\<forall>r \<in> set ids. 0 < r \<and> r \<le> hw) \<and> distinct active \<and> distinct pending \<and>
     set active = set pending \<union> set_option (held ph) \<and> set active \<subseteq> set ids \<and>
     set pending \<inter> set_option (held ph) = {}"

definition core_ok ::
  "(RequestId \<times> RequestSlot) list \<Rightarrow> RequestId list \<Rightarrow> RequestId list \<Rightarrow> EnginePhase \<Rightarrow> RequestId \<Rightarrow> bool" where
  "core_ok slots active pending ph hw \<longleftrightarrow>
     keys_ok (map fst slots) active pending ph hw \<and>
     (\<forall>r s. (r, s) \<in> set slots \<longrightarrow> slot_fits active pending ph r s)"

definition cancel_map :: "RequestId set \<Rightarrow> (RequestId \<times> RequestSlot) list \<Rightarrow> (RequestId \<times> RequestSlot) list" where
  "cancel_map ids = map (\<lambda>(i, s). (i, if i \<in> ids then s\<lparr>rs_cancelled := True\<rparr> else s))"

lemma cancel_slots_fold: "cancel_slots ids st = st\<lparr>sv_slots := cancel_map ids (sv_slots st)\<rparr>"
  by (simp add: cancel_slots_def cancel_map_def)

lemma keys_cancel_map [simp]: "map fst (cancel_map ids slots) = map fst slots"
  by (auto simp: cancel_map_def)

lemma all_cancel_map:
  "(\<forall>r s. (r, s) \<in> set (cancel_map ids slots) \<longrightarrow> P r s) \<longleftrightarrow>
     (\<forall>r s. (r, s) \<in> set slots \<longrightarrow> P r (if r \<in> ids then s\<lparr>rs_cancelled := True\<rparr> else s))"
  by (force simp: cancel_map_def)

lemma all_assoc_modify:
  "(\<forall>r s. (r, s) \<in> set (assoc_modify k f kvs) \<longrightarrow> P r s) \<longleftrightarrow>
     (\<forall>r s. (r, s) \<in> set kvs \<longrightarrow> P r (if r = k then f s else s))"
  by (induction kvs) (auto simp: assoc_modify_def split: if_splits)

lemma core_ok_cancel [simp]: "core_ok (cancel_map ids slots) a p ph hw = core_ok slots a p ph hw"
  by (simp add: core_ok_def all_cancel_map slot_fits_def if_distrib cong: if_cong)

lemma releasing_held: "releasing ph = Some r \<Longrightarrow> held ph = Some r"
  by (cases ph) auto

section \<open>Moves of a request\<close>

lemma core_ok_admit:
  assumes "core_ok slots a p ph hw" and "hw < r"
  shows "core_ok (slots @ [(r, \<lparr>rs_request = m, rs_state = RS_Queued, rs_cancelled = False, rs_terminal = False\<rparr>)])
     (r # a) (p @ [r]) ph r"
proof -
  have fresh: "r \<notin> fst ` set slots" using assms by (auto simp: core_ok_def keys_ok_def)
  then have new: "r \<notin> set a" "r \<notin> set p" "held ph \<noteq> Some r" using assms(1) by (auto simp: core_ok_def keys_ok_def)
  moreover have "0 < r" using assms(2) by (metis word_gt_0 word_not_simps(1))
  ultimately have "keys_ok (map fst slots @ [r]) (r # a) (p @ [r]) ph r"
    using assms by (auto simp: core_ok_def keys_ok_def sorted_wrt_append)
  moreover have "releasing ph \<noteq> Some r" using new(3) releasing_held by blast
  ultimately show ?thesis
    using assms(1) fresh new by (force simp: core_ok_def slot_fits_def image_iff)
qed

lemma core_ok_phase:
  "core_ok slots a p ph hw \<Longrightarrow> held ph' = held ph \<Longrightarrow> releasing ph' = releasing ph \<Longrightarrow> core_ok slots a p ph' hw"
  unfolding core_ok_def keys_ok_def slot_fits_def by metis

lemma core_ok_take:
  assumes "core_ok slots a (r # p) ph hw" and "held ph = None"
  shows "core_ok (assoc_modify r (\<lambda>s. s\<lparr>rs_state := RS_Running\<rparr>) slots) a p (E_Taken r) hw"
proof -
  have "releasing ph = None" using assms(2) by (cases ph) auto
  then show ?thesis
    using assms by (auto simp: core_ok_def keys_ok_def all_assoc_modify slot_fits_def)
qed

lemma core_ok_mark:
  assumes "core_ok slots a p ph hw" and "held ph = Some r" and "releasing ph = None"
  shows "core_ok (assoc_modify r (\<lambda>s. s\<lparr>rs_terminal := True\<rparr>) slots) a p (E_Release r res) hw"
  using assms by (auto simp: core_ok_def keys_ok_def all_assoc_modify slot_fits_def)

lemma core_ok_release:
  assumes "core_ok slots a p (E_Release r res) hw"
  shows "core_ok slots (removeAll r a) p E_Idle hw"
  using assms by (auto simp: core_ok_def keys_ok_def slot_fits_def distinct_removeAll)

lemma core_ok_cancel_pending:
  assumes "core_ok slots a p ph hw" and "r \<in> set p"
  shows "core_ok (assoc_modify r (\<lambda>s. s\<lparr>rs_terminal := True\<rparr>) slots) (removeAll r a) (removeAll r p) ph hw"
proof -
  have "held ph \<noteq> Some r" using assms by (auto simp: core_ok_def keys_ok_def)
  then have "releasing ph \<noteq> Some r" "keys_ok (map fst slots) (removeAll r a) (removeAll r p) ph hw"
    using assms releasing_held [of ph r] by (auto simp: core_ok_def keys_ok_def distinct_removeAll)
  then show ?thesis
    using assms by (auto simp: core_ok_def all_assoc_modify slot_fits_def)
qed

text \<open>The slot of an active request, as the code finds it.\<close>

lemma core_ok_slot:
  assumes "core_ok slots a p ph hw" and "r \<in> set a"
  shows "\<exists>s. map_of slots r = Some s \<and> rs_terminal s = (releasing ph = Some r) \<and>
    (rs_state s = RS_Queued) = (r \<in> set p)"
proof -
  have "r \<in> fst ` set slots" using assms by (auto simp: core_ok_def keys_ok_def)
  then obtain s where "map_of slots r = Some s" by (metis map_of_eq_None_iff not_None_eq)
  then show ?thesis using assms by (auto simp: core_ok_def slot_fits_def dest: map_of_SomeD)
qed

section \<open>The messages of a request\<close>

text \<open>The messages that make up the life of a request on the wire after it was queued. Answers of
  \<open>SendError\<close> refuse a frame and do not belong to it.\<close>

fun is_start :: "ServerSend \<Rightarrow> bool" where
  "is_start (SendControl r m) = (\<exists>f. m = StartedM f)"
| "is_start x = False"

fun is_pcm :: "ServerSend \<Rightarrow> bool" where
  "is_pcm (SendAudio r pcm) = True"
| "is_pcm x = False"

fun is_end :: "ServerSend \<Rightarrow> bool" where
  "is_end (SendControl r m) = (m = CancelledM \<or> (\<exists>c. m = CompletedM c))"
| "is_end (SendFailure r e) = True"
| "is_end x = False"

fun send_id :: "ServerSend \<Rightarrow> RequestId" where
  "send_id (SendControl r m) = r"
| "send_id (SendError r e) = r"
| "send_id (SendFailure r e) = r"
| "send_id (SendAudio r pcm) = r"
| "send_id TerminalsEnqueued = 0"

definition about :: "RequestId \<Rightarrow> ServerSend \<Rightarrow> bool" where
  "about r x \<longleftrightarrow> send_id x = r \<and> (is_start x \<or> is_pcm x \<or> is_end x)"

datatype Place = Absent | Waiting | Calling | Streaming | Closing | Ended

definition streamed :: "bool \<Rightarrow> ServerSend list \<Rightarrow> bool" where
  "streamed h tr \<longleftrightarrow>
     (\<exists>x xs. tr = x # xs \<and> is_start x \<and> list_all is_pcm xs) \<or> \<not> h \<and> list_all is_pcm tr"

text \<open>What has been sent for a request in each place; \<open>h\<close> says that no send has failed so far.\<close>

fun trace_ok :: "bool \<Rightarrow> Place \<Rightarrow> ServerSend list \<Rightarrow> bool" where
  "trace_ok h Absent tr = (tr = [])"
| "trace_ok h Waiting tr = (tr = [])"
| "trace_ok h Calling tr = ((\<exists>x. tr = [x] \<and> is_start x) \<or> \<not> h \<and> tr = [])"
| "trace_ok h Streaming tr = streamed h tr"
| "trace_ok h Closing tr = (tr = [] \<or> streamed h tr)"
| "trace_ok h Ended tr =
     ((\<exists>b x. tr = b @ [x] \<and> is_end x \<and> (b = [] \<or> streamed h b)) \<or> \<not> h \<and> (tr = [] \<or> streamed h tr))"

lemma subseq_list_all: "subseq ys xs \<Longrightarrow> list_all P xs \<Longrightarrow> list_all P ys"
  by (metis list_all_iff subseq_order.trans subseq_singleton_left)

lemma streamed_subseq:
  assumes "subseq ys xs" and "streamed False xs" shows "streamed False ys"
proof (cases "\<exists>x zs. xs = x # zs \<and> is_start x \<and> list_all is_pcm zs")
  case True
  then obtain x zs where xs: "xs = x # zs" "is_start x" "list_all is_pcm zs" by blast
  show ?thesis
  proof (cases ys)
    case Nil
    then show ?thesis by (simp add: streamed_def)
  next
    case (Cons y ws)
    then have "y = x \<and> subseq ws zs \<or> subseq ys zs" using assms(1) xs(1) by (auto split: if_splits)
    then show ?thesis
    proof
      assume "y = x \<and> subseq ws zs"
      then show ?thesis using xs(2) Cons subseq_list_all [OF _ xs(3), of ws] by (auto simp: streamed_def)
    next
      assume "subseq ys zs"
      then show ?thesis using subseq_list_all [OF _ xs(3), of ys] by (simp add: streamed_def)
    qed
  qed
next
  case False
  then have "list_all is_pcm xs" using assms(2) unfolding streamed_def by blast
  then show ?thesis using subseq_list_all [OF assms(1)] by (simp add: streamed_def)
qed

lemma trace_ok_subseq:
  assumes "subseq ys xs" and "trace_ok False pl xs" shows "trace_ok False pl ys"
proof (cases pl)
  case Calling
  then have "xs = [] \<or> (\<exists>x. xs = [x] \<and> is_start x)" using assms(2) by auto
  then show ?thesis using Calling assms(1) by (cases ys) (auto split: if_splits)
next
  case Streaming
  then show ?thesis using assms streamed_subseq by simp
next
  case Closing
  then have "xs = [] \<or> streamed False xs" using assms(2) by simp
  then show ?thesis using Closing assms(1) streamed_subseq [OF assms(1)] by auto
next
  case Ended
  then have "(\<exists>b x. xs = b @ [x] \<and> is_end x \<and> (b = [] \<or> streamed False b)) \<or> xs = [] \<or> streamed False xs"
    using assms(2) by simp
  then consider b x where "xs = b @ [x]" "is_end x" "b = [] \<or> streamed False b" | "xs = []" | "streamed False xs"
    by blast
  then show ?thesis
  proof cases
    case 1
    then obtain b' e where ys: "ys = b' @ e" "subseq b' b" "subseq e [x]"
      using assms(1) by (auto elim: subseq_appendE)
    have "e = [] \<or> e = [x]" using ys(3) by (cases e) (auto split: if_splits)
    moreover have "b' = [] \<or> streamed False b'" using ys(2) 1(3) streamed_subseq [OF ys(2)] by auto
    ultimately show ?thesis using Ended ys(1) 1(2) by auto
  next
    case 2
    then show ?thesis using Ended assms(1) by simp
  next
    case 3
    then show ?thesis using Ended streamed_subseq [OF assms(1)] by simp
  qed
qed (use assms in simp_all)

lemma trace_ok_mono: "trace_ok h pl tr \<Longrightarrow> (h' \<Longrightarrow> h) \<Longrightarrow> trace_ok h' pl tr"
  by (cases pl) (auto simp: streamed_def)


fun stage :: "EnginePhase \<Rightarrow> Place" where
  "stage (E_Taken r) = Waiting"
| "stage (E_Calling r) = Calling"
| "stage (E_Synth r) = Streaming"
| "stage (E_Chunk r xs) = Streaming"
| "stage (E_Terminal r res) = Closing"
| "stage (E_Release r res) = Closing"
| "stage ph = Absent"

definition place ::
  "(RequestId \<times> RequestSlot) list \<Rightarrow> RequestId list \<Rightarrow> RequestId list \<Rightarrow> EnginePhase \<Rightarrow> RequestId \<Rightarrow> Place" where
  "place slots active pending ph r =
     (if r \<notin> set (map fst slots) then Absent else if r \<notin> set active then Ended
      else if r \<in> set pending then Waiting else stage ph)"

text \<open>The reader sends for requests that never ran, the engine thread for requests it took.\<close>

definition reader_owns :: "(RequestId \<times> RequestSlot) list \<Rightarrow> RequestId list \<Rightarrow> ServerSend \<Rightarrow> bool" where
  "reader_owns slots active x \<longleftrightarrow>
     (is_start x \<or> is_pcm x \<or> is_end x \<longrightarrow>
        send_id x \<notin> set active \<and> (\<exists>s. map_of slots (send_id x) = Some s \<and> rs_state s = RS_Queued))"

definition engine_owns :: "(RequestId \<times> RequestSlot) list \<Rightarrow> ServerSend \<Rightarrow> bool" where
  "engine_owns slots x \<longleftrightarrow>
     (is_start x \<or> is_pcm x \<or> is_end x \<longrightarrow>
        (\<exists>s. map_of slots (send_id x) = Some s \<and> rs_state s = RS_Running))"

definition sends_ok :: "bool \<Rightarrow> (RequestId \<Rightarrow> Place) \<Rightarrow> ServerSend list \<Rightarrow> bool" where
  "sends_ok h pl items \<longleftrightarrow> (\<forall>r. trace_ok h (pl r) (filter (about r) items))"

definition request_inv :: "StdioServer \<Rightarrow> bool" where
  "request_inv st \<longleftrightarrow>
     core_ok (sv_slots st) (sv_active st) (sv_pending st) (sv_engine_phase st) (sv_high_water st) \<and>
     sends_ok (\<not> sv_fatal st \<and> \<not> sv_threw st \<and> \<not> sv_aborted st)
       (place (sv_slots st) (sv_active st) (sv_pending st) (sv_engine_phase st))
       (sv_sent st @ sv_reader_out st @ sv_engine_out st) \<and>
     list_all (reader_owns (sv_slots st) (sv_active st)) (sv_reader_out st) \<and>
     list_all (engine_owns (sv_slots st)) (sv_engine_out st) \<and> length (sv_engine_out st) \<le> 1"

lemma sends_ok_mono: "sends_ok h pl items \<Longrightarrow> (h' \<Longrightarrow> h) \<Longrightarrow> sends_ok h' pl items"
  unfolding sends_ok_def using trace_ok_mono by metis

lemma sends_ok_subseq: "sends_ok False pl items \<Longrightarrow> subseq items' items \<Longrightarrow> sends_ok False pl items'"
  unfolding sends_ok_def using trace_ok_subseq subseq_filter by blast

lemma sends_ok_update:
  assumes "sends_ok h pl items" and "\<And>r'. r' \<noteq> r \<Longrightarrow> pl' r' = pl r'"
    and "\<And>r'. r' \<noteq> r \<Longrightarrow> filter (about r') items' = filter (about r') items"
    and "trace_ok h (pl r) (filter (about r) items) \<Longrightarrow> trace_ok h (pl' r) (filter (about r) items')"
  shows "sends_ok h pl' items'"
  unfolding sends_ok_def
proof
  fix r'
  show "trace_ok h (pl' r') (filter (about r') items')"
    using assms by (cases "r' = r") (simp_all add: sends_ok_def)
qed

lemma map_of_cancel_map:
  "map_of (cancel_map ids slots) r =
     map_option (\<lambda>s. if r \<in> ids then s\<lparr>rs_cancelled := True\<rparr> else s) (map_of slots r)"
  by (induction slots) (auto simp: cancel_map_def)

lemma state_cancel_map:
  "(\<exists>s. map_of (cancel_map ids slots) r = Some s \<and> rs_state s = q) \<longleftrightarrow>
     (\<exists>s. map_of slots r = Some s \<and> rs_state s = q)"
  by (cases "map_of slots r") (simp_all add: map_of_cancel_map)

lemma owns_cancel_map [simp]:
  "reader_owns (cancel_map ids slots) a = reader_owns slots a"
  "engine_owns (cancel_map ids slots) = engine_owns slots"
  unfolding reader_owns_def engine_owns_def state_cancel_map by simp_all

lemma place_cancel_map [simp]: "place (cancel_map ids slots) = place slots"
  by (simp add: place_def fun_eq_iff)

lemma place_assoc_modify [simp]: "place (assoc_modify k f slots) = place slots"
  by (simp add: place_def fun_eq_iff)

text \<open>Nothing the engine thread is sending concerns a request the reader is sending for.\<close>

lemma owners_differ:
  "reader_owns slots a x \<Longrightarrow> engine_owns slots y \<Longrightarrow> about r x \<Longrightarrow> \<not> about r y"
  by (auto simp: reader_owns_def engine_owns_def about_def)

lemma filter_swap_owned:
  assumes "list_all (reader_owns slots a) rd" and "engine_owns slots y"
  shows "filter (about r) (sent @ [y] @ rd) = filter (about r) (sent @ rd @ [y])"
proof (cases "about r y")
  case True
  then have "filter (about r) rd = []" using assms owners_differ by (fastforce simp: filter_empty_conv list_all_iff)
  then show ?thesis by simp
qed simp

section \<open>Preservation\<close>

lemma fail_fatal_fields [simp]:
  "sv_active (fail_fatal st) = sv_active st" "sv_pending (fail_fatal st) = sv_pending st"
  "sv_engine_phase (fail_fatal st) = sv_engine_phase st" "sv_high_water (fail_fatal st) = sv_high_water st"
  "sv_slots (fail_fatal st) = cancel_map (set (sv_active st)) (sv_slots st)" "sv_fatal (fail_fatal st)"
  "sv_sent (fail_fatal st) = sv_sent st" "sv_reader_out (fail_fatal st) = sv_reader_out st"
  "sv_engine_out (fail_fatal st) = sv_engine_out st" "sv_admitted (fail_fatal st) = sv_admitted st"
  "sv_max_admitted (fail_fatal st) = sv_max_admitted st"
  "sv_shutdown_requested (fail_fatal st) = sv_shutdown_requested st"
  "sv_terminals_enqueued (fail_fatal st) = sv_terminals_enqueued st" "sv_reader (fail_fatal st) = sv_reader st"
  "sv_queue (fail_fatal st) = sv_queue st" "sv_stdout (fail_fatal st) = sv_stdout st"
  "sv_failed (fail_fatal st) = sv_failed st" "sv_stopping (fail_fatal st) = sv_stopping st"
  "sv_threw (fail_fatal st) = sv_threw st" "sv_aborted (fail_fatal st) = sv_aborted st"
  "sv_ack_needed (fail_fatal st) = sv_ack_needed st" "sv_engine (fail_fatal st) = sv_engine st"
  by (simp_all add: fail_fatal_def cancel_slots_fold)

text \<open>What a send does: it fails and makes the worker fatal, throws, records the end of the shutdown, or
  puts the frame of the message at the end of the queue.\<close>

fun wire_frame :: "json_dump \<Rightarrow> ServerSend \<Rightarrow> string + byte list" where
  "wire_frame jd (SendControl r m) = make_frame ControlJson r (je_payload (encode_control_message jd m))"
| "wire_frame jd (SendError r e) = make_frame ErrorJson r (je_payload (encode_error_message jd e))"
| "wire_frame jd (SendFailure r e) = make_frame ErrorJson r (je_payload (encode_error_message jd e))"
| "wire_frame jd (SendAudio r pcm) = make_frame AudioPcm r pcm"
| "wire_frame jd TerminalsEnqueued = Inl ''''"

lemma send_frame_cases:
  "send_frame t r pl item st = Some (threw, st') \<Longrightarrow>
     threw \<and> st' = st \<or> \<not> threw \<and> st' = fail_fatal st \<or>
     (\<exists>fr. \<not> threw \<and> make_frame t r pl = Inr fr \<and> \<not> sv_stopping st \<and> \<not> sv_failed st \<and>
        length (sv_queue st) < max_frames \<and>
        st' = st\<lparr>sv_queue := sv_queue st @ [fr], sv_sent := sv_sent st @ [item]\<rparr>)"
  by (simp add: send_frame_def writer_send_def split: sum.splits if_splits)

lemma perform_send_cases:
  assumes "perform_send jd item st = Some (threw, st')"
  shows "threw \<and> st' = st \<or> \<not> threw \<and> st' = fail_fatal st \<or>
     \<not> threw \<and> item = TerminalsEnqueued \<and> st' = st\<lparr>sv_terminals_enqueued := True\<rparr> \<or>
     (\<exists>fr. \<not> threw \<and> item \<noteq> TerminalsEnqueued \<and> wire_frame jd item = Inr fr \<and> \<not> sv_stopping st \<and>
        \<not> sv_failed st \<and> length (sv_queue st) < max_frames \<and>
        st' = st\<lparr>sv_queue := sv_queue st @ [fr], sv_sent := sv_sent st @ [item]\<rparr>)"
proof (cases item)
  case TerminalsEnqueued
  then show ?thesis using assms by simp
qed (use assms in \<open>auto simp: server_send_control_def server_send_error_def Let_def split: if_splits dest!: send_frame_cases\<close>)

lemma inv_fail_fatal: "request_inv st \<Longrightarrow> request_inv (fail_fatal st)"
  by (auto simp: request_inv_def elim: sends_ok_mono)

lemma sends_ok_skip:
  "sends_ok h pl (xs @ (x # ys) @ zs) \<Longrightarrow> \<not> (is_start x \<or> is_pcm x \<or> is_end x) \<Longrightarrow> sends_ok h pl (xs @ ys @ zs)"
  by (simp add: sends_ok_def about_def)

lemma sends_ok_drop:
  assumes "sends_ok h pl (xs @ ys @ zs)"
  shows "sends_ok False pl (xs @ zs)"
proof -
  have "sends_ok False pl (xs @ ys @ zs)" using assms by (rule sends_ok_mono) simp
  moreover have "subseq (xs @ zs) (xs @ ys @ zs)" by (simp add: subseq_append' list_emb_append2)
  ultimately show ?thesis by (rule sends_ok_subseq)
qed

lemma inv_reader_throws:
  assumes "request_inv st" shows "request_inv (reader_throws st)"
  using assms by (auto simp: request_inv_def reader_throws_def elim: sends_ok_mono dest: sends_ok_drop)

lemma inv_reader_send:
  assumes "request_inv st" shows "request_inv (reader_send jd st)"
proof (cases "sv_reader_out st")
  case Nil
  then show ?thesis using assms by (simp add: reader_send_def)
next
  case (Cons item rest)
  show ?thesis
  proof (cases "perform_send jd item st")
    case None
    then show ?thesis using assms Cons by (simp add: reader_send_def)
  next
    case (Some res)
    obtain threw st' where res: "res = (threw, st')" by force
    have dropped: "request_inv ((fail_fatal st)\<lparr>sv_reader_out := rest\<rparr>)"
      using assms Cons
      by (auto simp: request_inv_def dest: sends_ok_drop [where xs = "sv_sent st" and ys = "[item]"
          and zs = "rest @ sv_engine_out st", simplified])
    have skipped: "request_inv (st\<lparr>sv_terminals_enqueued := True, sv_reader_out := rest\<rparr>)"
      if "item = TerminalsEnqueued"
      using assms Cons that sends_ok_skip [where x = item and ys = rest and xs = "sv_sent st" and
          zs = "sv_engine_out st"]
      by (simp add: request_inv_def)
    show ?thesis
      using perform_send_cases [of jd item st threw st'] Some res assms Cons dropped skipped
        inv_reader_throws [OF assms]
      by (auto simp: reader_send_def) (simp add: request_inv_def)
  qed
qed

lemma inv_engine_send:
  assumes "request_inv st" shows "request_inv (engine_send jd st)"
proof (cases "sv_engine_out st")
  case Nil
  then show ?thesis using assms by (simp add: engine_send_def)
next
  case (Cons item rest)
  then have rest: "rest = []" and owned: "engine_owns (sv_slots st) item"
    using assms by (simp_all add: request_inv_def)
  show ?thesis
  proof (cases "perform_send jd item st")
    case None
    then show ?thesis using assms Cons by (simp add: engine_send_def)
  next
    case (Some res)
    obtain threw st' where res: "res = (threw, st')" by force
    have dropped: "request_inv ((fail_fatal st)\<lparr>sv_engine_out := []\<rparr>)"
      using assms Cons
      by (auto simp: request_inv_def dest: sends_ok_drop [where xs = "sv_sent st @ sv_reader_out st" and
          ys = "[item]" and zs = "[]", simplified])
    have aborted: "request_inv (st\<lparr>sv_aborted := True\<rparr>)"
      using assms by (auto simp: request_inv_def elim: sends_ok_mono)
    have skipped: "request_inv (st\<lparr>sv_terminals_enqueued := True, sv_engine_out := []\<rparr>)"
      if "item = TerminalsEnqueued"
      using assms Cons rest that
      by (simp add: request_inv_def sends_ok_def about_def)
    have "list_all (reader_owns (sv_slots st) (sv_active st)) (sv_reader_out st)"
      using assms by (simp add: request_inv_def)
    from filter_swap_owned [OF this owned]
    have "sends_ok h pl (sv_sent st @ [item] @ sv_reader_out st) = sends_ok h pl (sv_sent st @ sv_reader_out st @ [item])"
      for h pl by (simp only: sends_ok_def)
    then have sent: "request_inv (st\<lparr>sv_queue := q, sv_sent := sv_sent st @ [item], sv_engine_out := []\<rparr>)" for q
      using assms Cons rest by (simp add: request_inv_def)
    show ?thesis
      using perform_send_cases [of jd item st threw st'] Some res Cons rest dropped skipped sent aborted
      by (auto simp: engine_send_def)
  qed
qed


abbreviation concerns :: "ServerSend \<Rightarrow> bool" where
  "concerns x \<equiv> is_start x \<or> is_pcm x \<or> is_end x"

lemma inv_reply:
  assumes "request_inv st" and "sv_reader_out st = []" and "list_all (\<lambda>x. \<not> concerns x) items"
  shows "request_inv (reply items st)"
proof -
  have "filter (about r) items = []" for r using assms(3) by (induction items) (auto simp: about_def)
  moreover have "list_all (reader_owns slots a) items" for slots a
    using assms(3) by (simp add: list_all_iff reader_owns_def)
  ultimately show ?thesis using assms(1,2) by (simp add: request_inv_def reply_def sends_ok_def)
qed

lemma inv_reply_error: "request_inv st \<Longrightarrow> sv_reader_out st = [] \<Longrightarrow> request_inv (reply_error rid cat cd msg st)"
  by (simp add: reply_error_def inv_reply)

lemma inv_admit:
  assumes inv: "request_inv st" and new: "sv_high_water st < rid"
  shows "request_inv (admit rid m st)"
proof -
  have core: "core_ok (sv_slots st) (sv_active st) (sv_pending st) (sv_engine_phase st) (sv_high_water st)"
    using inv by (simp add: request_inv_def)
  then have fresh: "rid \<notin> fst ` set (sv_slots st)" using new by (auto simp: core_ok_def keys_ok_def)
  then have slot: "map_of (sv_slots st) rid = None" by (simp add: map_of_eq_None_iff)
  have "rid \<notin> set (sv_active st)" using core fresh by (auto simp: core_ok_def keys_ok_def)
  then have "reader_owns (sv_slots st @ [(rid, s)]) (rid # sv_active st) x" if "reader_owns (sv_slots st) (sv_active st) x"
    for x s using that slot by (auto simp: reader_owns_def map_add_def split: option.splits)
  moreover have "engine_owns (sv_slots st @ [(rid, s)]) x" if "engine_owns (sv_slots st) x" for x s
    using that slot by (auto simp: engine_owns_def map_add_def split: option.splits)
  moreover have "sends_ok h (place (sv_slots st @ [(rid, s)]) (rid # sv_active st) (sv_pending st @ [rid]) ph) items"
    if "sends_ok h (place (sv_slots st) (sv_active st) (sv_pending st) ph) items" for h s ph items
    by (rule sends_ok_update [OF that, of rid]) (use fresh in \<open>auto simp: place_def\<close>)
  ultimately show ?thesis
    using inv core_ok_admit [OF core new]
    by (simp add: request_inv_def admit_def list_all_iff)
qed

text \<open>A request the engine thread holds moves on, possibly with one message.\<close>

lemma inv_engine_move:
  assumes inv: "request_inv st" and ph: "held (sv_engine_phase st) = Some r" "held ph = Some r"
    and rel: "releasing ph = releasing (sv_engine_phase st)" and out: "sv_engine_out st = []" "length xs \<le> 1"
    and xs: "\<And>x. x \<in> set xs \<Longrightarrow> about r x"
    and tr: "\<And>h tr. trace_ok h (stage (sv_engine_phase st)) tr \<Longrightarrow> trace_ok h (stage ph) (tr @ xs)"
  shows "request_inv (st\<lparr>sv_engine_phase := ph, sv_engine_out := xs\<rparr>)"
proof -
  let ?pl = "place (sv_slots st) (sv_active st) (sv_pending st)"
  have core: "core_ok (sv_slots st) (sv_active st) (sv_pending st) (sv_engine_phase st) (sv_high_water st)"
    using inv by (simp add: request_inv_def)
  then have r: "r \<in> set (sv_active st)" "r \<notin> set (sv_pending st)" "r \<in> fst ` set (sv_slots st)"
    using ph(1) by (auto simp: core_ok_def keys_ok_def)
  have others: "?pl ph r' = ?pl (sv_engine_phase st) r'" if "r' \<noteq> r" for r'
    using core ph(1) that by (auto simp: core_ok_def keys_ok_def place_def)
  have msgs: "filter (about r) xs = xs" "r' \<noteq> r \<Longrightarrow> filter (about r') xs = []" for r'
    using xs by (auto simp: filter_id_conv filter_empty_conv about_def)
  obtain s where "map_of (sv_slots st) r = Some s" "rs_state s = RS_Running"
    using core_ok_slot [OF core r(1)] r(2) by (metis RequestState.exhaust)
  then have "list_all (engine_owns (sv_slots st)) xs"
    using xs by (auto simp: list_all_iff engine_owns_def about_def)
  moreover have "sends_ok h (?pl ph) (sv_sent st @ sv_reader_out st @ xs)"
    if "sends_ok h (?pl (sv_engine_phase st)) (sv_sent st @ sv_reader_out st)" for h
    by (rule sends_ok_update [OF that, of r]) (use others msgs r tr [of h "filter (about r) (sv_sent st @ sv_reader_out st)"]
        in \<open>simp_all add: place_def\<close>)
  ultimately show ?thesis
    using inv out core_ok_phase [OF core, of ph] ph rel by (simp add: request_inv_def)
qed


lemma inv_take:
  assumes inv: "request_inv st" and idle: "sv_engine_phase st = E_Idle" and out: "sv_engine_out st = []"
  shows "request_inv (take_next_request st)"
proof (cases "sv_pending st")
  case Nil
  then have "core_ok (sv_slots st) (sv_active st) [] E_Leaving (sv_high_water st)"
    using inv idle core_ok_phase [of _ _ _ E_Idle _ E_Leaving] by (simp add: request_inv_def)
  moreover have "place slots a p E_Leaving = place slots a p E_Idle" for slots a p
    by (simp add: place_def fun_eq_iff)
  ultimately show ?thesis using inv idle Nil by (auto simp: take_next_request_def request_inv_def)
next
  case (Cons r rest)
  let ?slots = "assoc_modify r (\<lambda>s. s\<lparr>rs_state := RS_Running\<rparr>) (sv_slots st)"
  have core: "core_ok (sv_slots st) (sv_active st) (r # rest) E_Idle (sv_high_water st)"
    using inv idle Cons by (simp add: request_inv_def)
  then have r: "r \<in> set (sv_active st)" by (auto simp: core_ok_def keys_ok_def)
  have "place ?slots (sv_active st) rest (E_Taken r) = place (sv_slots st) (sv_active st) (r # rest) E_Idle"
    using core by (auto simp: place_def fun_eq_iff core_ok_def keys_ok_def)
  moreover have "reader_owns ?slots (sv_active st) x" if "reader_owns (sv_slots st) (sv_active st) x" for x
    using that r by (auto simp: reader_owns_def map_of_assoc_modify)
  ultimately show ?thesis
    using inv idle out Cons core_ok_take [OF core]
    by (simp add: take_next_request_def request_inv_def list_all_iff)
qed

lemma inv_terminalize:
  assumes inv: "request_inv st" and ph: "sv_engine_phase st = E_Terminal r res" and out: "sv_engine_out st = []"
  shows "request_inv (terminalize r res st)"
proof -
  let ?slots = "assoc_modify r (\<lambda>s. s\<lparr>rs_terminal := True\<rparr>) (sv_slots st)"
  have core: "core_ok (sv_slots st) (sv_active st) (sv_pending st) (E_Terminal r res) (sv_high_water st)"
    using inv ph by (simp add: request_inv_def)
  then have "r \<in> set (sv_active st)" by (auto simp: core_ok_def keys_ok_def)
  from core_ok_slot [OF core this] have "\<not> slot_terminal st r"
    by (auto simp: slot_terminal_def slot_of_def)
  moreover have "place ?slots (sv_active st) (sv_pending st) (E_Release r res) =
      place (sv_slots st) (sv_active st) (sv_pending st) (E_Terminal r res)"
    by (auto simp: place_def fun_eq_iff)
  moreover have "reader_owns ?slots a x" if "reader_owns (sv_slots st) a x" for a x
    using that by (auto simp: reader_owns_def map_of_assoc_modify)
  ultimately show ?thesis
    using inv ph out core_ok_mark [OF core]
    by (simp add: terminalize_def mark_terminal_slot_def request_inv_def list_all_iff)
qed

lemma terminal_message_end:
  "is_end (terminal_message r res)" "send_id (terminal_message r res) = r"
  by (simp_all add: terminal_message_def split: SynthesisOutcome.split)

lemma inv_release:
  assumes inv: "request_inv st" and ph: "sv_engine_phase st = E_Release r res" and out: "sv_engine_out st = []"
  shows "request_inv (release_request r res st)"
proof -
  let ?a = "removeAll r (sv_active st)" and ?x = "terminal_message r res"
  have core: "core_ok (sv_slots st) (sv_active st) (sv_pending st) (E_Release r res) (sv_high_water st)"
    using inv ph by (simp add: request_inv_def)
  then have r: "r \<in> set (sv_active st)" "r \<notin> set (sv_pending st)" "r \<in> fst ` set (sv_slots st)"
    by (auto simp: core_ok_def keys_ok_def)
  from core_ok_slot [OF core this(1)] r(2) have own: "engine_owns (sv_slots st) ?x"
    by (auto simp: engine_owns_def terminal_message_end intro: RequestState.exhaust)
  have others: "place (sv_slots st) ?a (sv_pending st) E_Idle r' =
      place (sv_slots st) (sv_active st) (sv_pending st) (E_Release r res) r'" if "r' \<noteq> r" for r'
    using core that by (auto simp: place_def core_ok_def keys_ok_def)
  have x: "about r ?x" "r' \<noteq> r \<Longrightarrow> \<not> about r' ?x" for r'
    by (auto simp: about_def terminal_message_end)
  have "sends_ok h (place (sv_slots st) ?a (sv_pending st) E_Idle) (sv_sent st @ sv_reader_out st @ [?x])"
    if "sends_ok h (place (sv_slots st) (sv_active st) (sv_pending st) (E_Release r res)) (sv_sent st @ sv_reader_out st)" for h
    by (rule sends_ok_update [OF that, of r]) (use others x r terminal_message_end(1) [of r res] in \<open>auto simp: place_def\<close>)
  moreover have "reader_owns (sv_slots st) ?a x" if "reader_owns (sv_slots st) (sv_active st) x" for x
    using that by (auto simp: reader_owns_def)
  ultimately show ?thesis
    using inv ph out own core_ok_release [OF core]
    by (simp add: release_request_def request_inv_def list_all_iff)
qed


section \<open>Cancelling queued requests\<close>

definition cancelled_state :: "RequestId \<Rightarrow> RequestId list \<Rightarrow> StdioServer \<Rightarrow> StdioServer" where
  "cancelled_state r p st =
     st\<lparr>sv_pending := p, sv_slots := assoc_modify r (\<lambda>s. s\<lparr>rs_terminal := True\<rparr>) (cancel_map {r} (sv_slots st)),
        sv_active := removeAll r (sv_active st), sv_admitted := size_dec (sv_admitted st)\<rparr>"

lemma release_cancelled_pending:
  assumes "request_inv st" and "r \<in> set (sv_pending st)"
  shows "release_cancelled r (st\<lparr>sv_pending := p\<rparr>) = (True, cancelled_state r p st)"
proof -
  have core: "core_ok (sv_slots st) (sv_active st) (sv_pending st) (sv_engine_phase st) (sv_high_water st)"
    using assms by (simp add: request_inv_def)
  then have r: "r \<in> set (sv_active st)" "held (sv_engine_phase st) \<noteq> Some r"
    using assms(2) by (auto simp: core_ok_def keys_ok_def)
  from core_ok_slot [OF core r(1)] r(2) releasing_held obtain s where
    "map_of (sv_slots st) r = Some s" "\<not> rs_terminal s" by blast
  then show ?thesis
    by (simp add: release_cancelled_def cancelled_state_def cancel_slots_fold mark_terminal_slot_def
        slot_terminal_def slot_of_def map_of_cancel_map Let_def)
qed

lemma inv_cancelled_state:
  assumes inv: "request_inv st" and r: "r \<in> set (sv_pending st)"
  shows "request_inv ((cancelled_state r (removeAll r (sv_pending st)) st)
     \<lparr>sv_reader_out := sv_reader_out st @ [SendControl r CancelledM]\<rparr>)"
proof -
  let ?p = "removeAll r (sv_pending st)" and ?a = "removeAll r (sv_active st)" and ?x = "SendControl r CancelledM"
  let ?slots = "assoc_modify r (\<lambda>s. s\<lparr>rs_terminal := True\<rparr>) (cancel_map {r} (sv_slots st))"
  have core: "core_ok (sv_slots st) (sv_active st) (sv_pending st) (sv_engine_phase st) (sv_high_water st)"
    using inv by (simp add: request_inv_def)
  then have ra: "r \<in> set (sv_active st)" "r \<in> fst ` set (sv_slots st)"
    using r by (auto simp: core_ok_def keys_ok_def)
  from core_ok_slot [OF core ra(1)] r obtain s where s: "map_of (sv_slots st) r = Some s" "rs_state s = RS_Queued"
    by blast
  have own: "reader_owns ?slots ?a ?x"
    using s by (simp add: reader_owns_def map_of_assoc_modify map_of_cancel_map)
  have keep: "reader_owns ?slots ?a x" if "reader_owns (sv_slots st) (sv_active st) x" for x
    using that by (auto simp: reader_owns_def map_of_assoc_modify map_of_cancel_map)
  have keep': "engine_owns ?slots x" if "engine_owns (sv_slots st) x" for x
    using that by (auto simp: engine_owns_def map_of_assoc_modify map_of_cancel_map)
  have places: "place ?slots ?a ?p ph r' = (if r' = r then Ended else place (sv_slots st) (sv_active st) (sv_pending st) ph r')"
    for ph r' using ra by (auto simp: place_def)
  have "sends_ok h (place ?slots ?a ?p (sv_engine_phase st)) (sv_sent st @ (sv_reader_out st @ [?x]) @ sv_engine_out st)"
    if "sends_ok h (place (sv_slots st) (sv_active st) (sv_pending st) (sv_engine_phase st))
          (sv_sent st @ sv_reader_out st @ sv_engine_out st)" for h
    by (rule sends_ok_update [OF that, of r]) (use places ra r in \<open>auto simp: about_def place_def\<close>)
  then show ?thesis
    using inv own keep keep' core_ok_cancel_pending [OF core r]
      core_ok_cancel_pending [of "cancel_map {r} (sv_slots st)" "sv_active st" "sv_pending st"] core r
    by (simp add: request_inv_def cancelled_state_def list_all_iff)
qed


lemma release_cancelled_reader_out:
  "release_cancelled r (st\<lparr>sv_reader_out := x\<rparr>) =
     (fst (release_cancelled r st), (snd (release_cancelled r st))\<lparr>sv_reader_out := x\<rparr>)"
  by (simp add: release_cancelled_def cancel_slots_def mark_terminal_slot_def slot_terminal_def slot_of_def Let_def)

lemma drain_pending_reader_out:
  "drain_pending p (st\<lparr>sv_reader_out := x\<rparr>) =
     (fst (drain_pending p st), (snd (drain_pending p st))\<lparr>sv_reader_out := x\<rparr>)"
proof (induction p arbitrary: st)
  case (Cons r p)
  have "release_cancelled r (st\<lparr>sv_reader_out := x, sv_pending := p\<rparr>) =
      release_cancelled r (st\<lparr>sv_pending := p, sv_reader_out := x\<rparr>)"
    by (rule arg_cong [where f = "release_cancelled r"]) simp
  also have "\<dots> = (fst (release_cancelled r (st\<lparr>sv_pending := p\<rparr>)),
       (snd (release_cancelled r (st\<lparr>sv_pending := p\<rparr>)))\<lparr>sv_reader_out := x\<rparr>)"
    by (rule release_cancelled_reader_out)
  finally show ?case by (simp add: Cons.IH split_beta Let_def)
qed simp

lemma inv_drain_pending:
  "request_inv st \<Longrightarrow> sv_pending st = p \<Longrightarrow> drain_pending p st = (ids, st') \<Longrightarrow>
     ids = p \<and> sv_pending st' = [] \<and>
     request_inv (st'\<lparr>sv_reader_out := sv_reader_out st @ map (\<lambda>r. SendControl r CancelledM) ids\<rparr>)"
proof (induction p arbitrary: st ids st')
  case (Cons r p)
  let ?st = "cancelled_state r p st"
  have r: "r \<in> set (sv_pending st)" "removeAll r (sv_pending st) = p"
    using Cons.prems(1,2) by (auto simp: request_inv_def core_ok_def keys_ok_def removeAll_id)
  obtain ids1 st1 where d: "drain_pending p ?st = (ids1, st1)" by force
  then have res: "ids = r # ids1" "st' = st1"
    using Cons.prems(3) release_cancelled_pending [OF Cons.prems(1) r(1), of p] by simp_all
  let ?rd = "sv_reader_out st @ [SendControl r CancelledM]"
  have 1: "request_inv (?st\<lparr>sv_reader_out := ?rd\<rparr>)"
    using inv_cancelled_state [OF Cons.prems(1) r(1)] r(2) by simp
  have 2: "sv_pending (?st\<lparr>sv_reader_out := ?rd\<rparr>) = p" by (simp add: cancelled_state_def)
  have 3: "drain_pending p (?st\<lparr>sv_reader_out := ?rd\<rparr>) = (ids1, st1\<lparr>sv_reader_out := ?rd\<rparr>)"
    by (simp add: drain_pending_reader_out d)
  show ?case using Cons.IH [OF 1 2 3] res by auto
qed simp

lemma inv_append_marker:
  assumes "request_inv st" and "\<not> concerns x"
  shows "request_inv (st\<lparr>sv_reader_out := sv_reader_out st @ [x]\<rparr>)"
  using assms by (simp add: request_inv_def sends_ok_def about_def reader_owns_def)

lemma inv_cancel_slots: "request_inv st \<Longrightarrow> request_inv (cancel_slots ids st)"
  by (simp add: request_inv_def cancel_slots_fold)

lemma inv_request_shutdown:
  assumes inv: "request_inv st" and out: "sv_reader_out st = []"
  shows "request_inv (request_shutdown ack st)"
proof (cases "sv_shutdown_requested st")
  case True
  then show ?thesis using inv by (simp add: request_shutdown_def request_inv_def)
next
  case False
  let ?st = "st\<lparr>sv_ack_needed := (sv_ack_needed st \<or> ack), sv_shutdown_requested := True\<rparr>"
  obtain ids st1 where d: "drain_pending (sv_pending st) ?st = (ids, st1)" by force
  have "request_inv ?st" using inv by (simp add: request_inv_def)
  from inv_drain_pending [OF this _ d]
  have "request_inv (st1\<lparr>sv_reader_out := sv_reader_out ?st @ map (\<lambda>r. SendControl r CancelledM) ids\<rparr>)" by auto
  then have "request_inv (st1\<lparr>sv_reader_out := map (\<lambda>r. SendControl r CancelledM) ids\<rparr>)" using out by simp
  from inv_append_marker [OF this, of TerminalsEnqueued]
  have "request_inv (st1\<lparr>sv_reader_out := map (\<lambda>r. SendControl r CancelledM) ids @ [TerminalsEnqueued]\<rparr>)" by simp
  from inv_cancel_slots [OF this, of "set (sv_active st1)"]
  have "request_inv ((cancel_slots (set (sv_active st1)) st1)\<lparr>sv_reader_out :=
      map (\<lambda>r. SendControl r CancelledM) ids @ [TerminalsEnqueued]\<rparr>)"
    by (rule arg_cong [where f = request_inv, THEN iffD1, rotated]) (simp add: cancel_slots_def)
  then show ?thesis using False d by (simp add: request_shutdown_def reply_def Let_def)
qed

lemma inv_handle_cancel:
  assumes inv: "request_inv st" and out: "sv_reader_out st = []"
  shows "request_inv (handle_cancel rid st)"
proof (cases "rid \<noteq> 0 \<and> rid \<in> set (sv_active st)")
  case True
  have core: "core_ok (sv_slots st) (sv_active st) (sv_pending st) (sv_engine_phase st) (sv_high_water st)"
    using inv by (simp add: request_inv_def)
  from core_ok_slot [OF core] True obtain s where
    s: "slot_of st rid = Some s" "(rs_state s = RS_Queued) = (rid \<in> set (sv_pending st))"
    by (auto simp: slot_of_def)
  show ?thesis
  proof (cases "rid \<in> set (sv_pending st)")
    case True
    with inv_cancelled_state [OF inv] out release_cancelled_pending [OF inv] s \<open>rid \<noteq> 0 \<and> _\<close>
    show ?thesis by (simp add: handle_cancel_def reply_def)
  next
    case False
    with inv_cancel_slots [OF inv] s \<open>rid \<noteq> 0 \<and> _\<close> show ?thesis by (simp add: handle_cancel_def)
  qed
qed (use inv out inv_reply_error in \<open>auto simp: handle_cancel_def\<close>)


section \<open>Every step\<close>

lemma inv_handle_frame:
  assumes inv: "request_inv st" and out: "sv_reader_out st = []"
  shows "request_inv (snd (handle_frame jp fr st))"
proof -
  have hello: "request_inv (handle_hello rid st)" for rid
  proof -
    have "request_inv (st\<lparr>sv_hello_seen := True, sv_ready_sent := True\<rparr>)" using inv by (simp add: request_inv_def)
    then show ?thesis
      using inv out by (simp add: handle_hello_def inv_reply_error inv_reply)
  qed
  have synth: "request_inv (handle_synthesize rid m st)" for rid m
    using inv out inv_admit [OF inv, of rid m]
    by (auto simp: handle_synthesize_def inv_reply_error Let_def admit_def
        split: sum.split EngineException.split intro!: inv_reply)
  have down: "request_inv (snd (handle_shutdown rid m st))" for rid m
    using inv out by (simp add: handle_shutdown_def inv_reply_error inv_request_shutdown)
  have ping: "request_inv (handle_ping rid m st)" for rid m
    using inv out by (simp add: handle_ping_def inv_reply_error inv_reply)
  show ?thesis
    using hello synth down ping inv_handle_cancel [OF inv out] inv_reply_error [OF inv out]
    by (simp add: handle_frame_def Let_def split: ControlMessage.split)
qed

lemma request_inv_reader_fields:
  "request_inv (st\<lparr>sv_reader := ph\<rparr>) = request_inv st" "request_inv (st\<lparr>sv_parser := p\<rparr>) = request_inv st"
  "request_inv (st\<lparr>sv_emitted := e\<rparr>) = request_inv st" "request_inv (st\<lparr>sv_stopping := b\<rparr>) = request_inv st"
  "request_inv (st\<lparr>sv_failed := b\<rparr>) = request_inv st" "request_inv (st\<lparr>sv_queue := q\<rparr>) = request_inv st"
  "request_inv (st\<lparr>sv_stdout := bs\<rparr>) = request_inv st"
  by (simp_all add: request_inv_def)

lemma inv_reader_parse:
  assumes inv: "request_inv st" and out: "sv_reader_out st = []"
  shows "request_inv (reader_parse jp st)"
proof -
  have "request_inv (st\<lparr>sv_parser := p\<rparr>)" "sv_reader_out (st\<lparr>sv_parser := p\<rparr>) = []" for p
    using inv out by (simp_all add: request_inv_reader_fields)
  from inv_handle_frame [OF this] this show ?thesis
    by (simp add: reader_parse_def split_beta Let_def request_inv_reader_fields inv_fail_fatal)
qed

lemma inv_reader_step: "request_inv st \<Longrightarrow> request_inv (reader_step jd jp bytes st)"
  by (simp add: reader_step_def inv_reader_send reader_check_def reader_read_def inv_reader_parse reader_finish_def
      inv_request_shutdown request_inv_reader_fields split: ReaderPhase.split)


lemma inv_engine_phase:
  assumes "request_inv st" and "held (sv_engine_phase st) = Some r" and "held ph = Some r"
    and "releasing ph = releasing (sv_engine_phase st)" and "sv_engine_out st = []"
    and "\<And>h tr. trace_ok h (stage (sv_engine_phase st)) tr \<Longrightarrow> trace_ok h (stage ph) tr"
  shows "request_inv (st\<lparr>sv_engine_phase := ph\<rparr>)"
proof -
  have "st\<lparr>sv_engine_phase := ph, sv_engine_out := []\<rparr> = st\<lparr>sv_engine_phase := ph\<rparr>" using assms(5) by simp
  then show ?thesis using inv_engine_move [OF assms(1-5), of "[]"] assms(6) by simp
qed

lemma streamed_snoc: "streamed h tr \<Longrightarrow> is_pcm x \<Longrightarrow> streamed h (tr @ [x])"
  by (auto simp: streamed_def)

lemma inv_run_request:
  assumes inv: "request_inv st" and ph: "sv_engine_phase st = E_Taken r" and out: "sv_engine_out st = []"
  shows "request_inv (run_request r st)"
proof -
  have "request_inv (st\<lparr>sv_engine_phase := E_Terminal r res\<rparr>)" for res
    by (rule inv_engine_phase [OF inv]) (use ph out in auto)
  moreover have "request_inv (st\<lparr>sv_engine_phase := E_Calling r, sv_engine_out := [SendControl r (StartedM f)]\<rparr>)" for f
    by (rule inv_engine_move [OF inv]) (use ph out in \<open>auto simp: about_def\<close>)
  ultimately show ?thesis using inv by (simp add: run_request_def split: option.split)
qed

lemma inv_call_engine:
  assumes inv: "request_inv st" and ph: "sv_engine_phase st = E_Calling r" and out: "sv_engine_out st = []"
  shows "request_inv (call_engine env r st)"
proof -
  have "request_inv (st\<lparr>sv_engine_phase := E_Synth r\<rparr>)"
    by (rule inv_engine_phase [OF inv]) (use ph out in \<open>auto simp: streamed_def\<close>)
  moreover have "request_inv (st\<lparr>sv_engine_phase := E_Terminal r res\<rparr>)" for res
    by (rule inv_engine_phase [OF inv]) (use ph out in \<open>auto simp: streamed_def\<close>)
  ultimately show ?thesis
    using inv by (simp add: call_engine_def request_inv_reader_fields split: option.split)
qed

lemma inv_audio_callback:
  assumes inv: "request_inv st" and ph: "sv_engine_phase st = E_Synth r" and out: "sv_engine_out st = []"
  shows "request_inv (audio_callback samples r st)"
proof -
  have "request_inv (st\<lparr>sv_emitted := e, sv_engine_phase := E_Chunk r samples\<rparr>)" for e
    by (rule inv_engine_phase [where r = r]) (use inv ph out in \<open>auto simp: request_inv_reader_fields\<close>)
  then show ?thesis using inv by (simp add: audio_callback_def)
qed

lemma inv_on_chunk:
  assumes inv: "request_inv st" and ph: "sv_engine_phase st = E_Chunk r xs" and out: "sv_engine_out st = []"
  shows "request_inv (on_chunk r xs st)"
proof -
  have "request_inv (st\<lparr>sv_engine_phase := E_Synth r\<rparr>)" using inv_engine_phase [OF inv, of r] ph out by simp
  moreover have "request_inv (st\<lparr>sv_engine_phase := E_Synth r, sv_engine_out := [SendAudio r pcm]\<rparr>)" for pcm
    by (rule inv_engine_move [OF inv]) (use ph out in \<open>auto simp: about_def streamed_snoc\<close>)
  ultimately show ?thesis by (simp add: on_chunk_def Let_def inv_fail_fatal)
qed

lemma inv_engine_returns: "request_inv st \<Longrightarrow> request_inv (engine_returns qs qf rep st)"
  using inv_engine_phase [of st]
  by (auto simp: engine_returns_def engine_return_def split: EnginePhase.split)

lemma inv_engine_leave:
  assumes "request_inv st" and "sv_engine_phase st = E_Leaving" and "sv_engine_out st = []"
  shows "request_inv (engine_leave st)"
proof -
  have "place slots a p E_Exited = place slots a p E_Leaving" for slots a p by (simp add: place_def fun_eq_iff)
  moreover have "core_ok slots a p E_Leaving hw \<Longrightarrow> core_ok slots a p E_Exited hw" for slots a p hw
    by (erule core_ok_phase) simp_all
  ultimately show ?thesis
    using assms by (simp add: request_inv_def engine_leave_def sends_ok_def about_def engine_owns_def)
qed

lemma inv_engine_step: "request_inv st \<Longrightarrow> request_inv (engine_step jd env samples st)"
  using inv_engine_send [of st jd] inv_take [of st] inv_run_request [of st] inv_call_engine [of st]
    inv_audio_callback [of st] inv_on_chunk [of st] inv_terminalize [of st] inv_release [of st]
    inv_engine_leave [of st]
  by (simp add: engine_step_def split: EnginePhase.split)

lemma inv_writer_round: "request_inv st \<Longrightarrow> request_inv (writer_round calls st)"
  by (simp add: writer_round_def Let_def request_inv_reader_fields split: list.split option.split)

lemma inv_server_step: "request_inv st \<Longrightarrow> request_inv (server_step jd jp step st)"
  by (simp add: server_step.simps inv_reader_step inv_engine_step inv_engine_returns inv_writer_round run_end_def
      request_inv_reader_fields split: ServerStep.split)

lemma inv_new_server: "new_server en session n = Inr st \<Longrightarrow> request_inv st"
  by (auto simp: new_server_def request_inv_def core_ok_def keys_ok_def sends_ok_def place_def split: if_splits)

lemma reachable_request_inv: "server_reachable jd jp st \<Longrightarrow> request_inv st"
  by (induction rule: server_reachable.induct) (simp_all add: inv_new_server inv_server_step)


section \<open>Admission\<close>

definition admission_inv :: "StdioServer \<Rightarrow> bool" where
  "admission_inv st \<longleftrightarrow> sv_admitted st = length (sv_active st) \<and> sv_admitted st \<le> sv_max_admitted st"

lemma length_removeAll_distinct: "distinct xs \<Longrightarrow> x \<in> set xs \<Longrightarrow> length (removeAll x xs) = length xs - 1"
  by (simp add: distinct_remove1_removeAll [symmetric] length_remove1)

lemma admission_fail_fatal [simp]: "admission_inv (fail_fatal st) = admission_inv st"
  by (simp add: admission_inv_def)

lemma admission_fields [simp]:
  "admission_inv (st\<lparr>sv_reader_out := x\<rparr>) = admission_inv st" "admission_inv (cancel_slots ids st) = admission_inv st"
  "admission_inv (st\<lparr>sv_engine_out := x\<rparr>) = admission_inv st" "admission_inv (st\<lparr>sv_engine_phase := ph\<rparr>) = admission_inv st"
  "admission_inv (st\<lparr>sv_reader := rp\<rparr>) = admission_inv st" "admission_inv (st\<lparr>sv_parser := p\<rparr>) = admission_inv st"
  by (simp_all add: admission_inv_def cancel_slots_def)

lemma admission_reply [simp]:
  "admission_inv (reply items st) = admission_inv st" "admission_inv (reply_error rid cat cd msg st) = admission_inv st"
  by (simp_all add: admission_inv_def reply_def reply_error_def)

lemma admission_perform_send: "perform_send jd item st = Some (threw, st') \<Longrightarrow> admission_inv st' = admission_inv st"
  by (auto simp: admission_inv_def dest!: perform_send_cases)

lemma admission_cancelled_state:
  assumes "request_inv st" and "admission_inv st" and "r \<in> set (sv_pending st)"
  shows "admission_inv (cancelled_state r p st)"
proof -
  have r: "r \<in> set (sv_active st)" "distinct (sv_active st)"
    using assms by (auto simp: request_inv_def core_ok_def keys_ok_def)
  then have "0 < length (sv_active st)" by (cases "sv_active st") auto
  then show ?thesis
    using assms(2) length_removeAll_distinct [OF r(2,1)]
    by (simp add: admission_inv_def cancelled_state_def size_dec_def) arith
qed

lemma admission_drain_pending:
  "request_inv st \<Longrightarrow> admission_inv st \<Longrightarrow> sv_pending st = p \<Longrightarrow> drain_pending p st = (ids, st') \<Longrightarrow>
     admission_inv st'"
proof (induction p arbitrary: st ids st')
  case (Cons r p)
  let ?st = "cancelled_state r p st"
  let ?rd = "sv_reader_out st @ [SendControl r CancelledM]"
  have r: "r \<in> set (sv_pending st)" "removeAll r (sv_pending st) = p"
    using Cons.prems(1,3) by (auto simp: request_inv_def core_ok_def keys_ok_def removeAll_id)
  obtain ids1 st1 where d: "drain_pending p ?st = (ids1, st1)" by force
  then have res: "st' = st1"
    using Cons.prems(4) release_cancelled_pending [OF Cons.prems(1) r(1), of p] by simp
  have 1: "request_inv (?st\<lparr>sv_reader_out := ?rd\<rparr>)"
    using inv_cancelled_state [OF Cons.prems(1) r(1)] r(2) by simp
  have 2: "sv_pending (?st\<lparr>sv_reader_out := ?rd\<rparr>) = p" by (simp add: cancelled_state_def)
  have 3: "drain_pending p (?st\<lparr>sv_reader_out := ?rd\<rparr>) = (ids1, st1\<lparr>sv_reader_out := ?rd\<rparr>)"
    by (simp add: drain_pending_reader_out d)
  have 4: "admission_inv (?st\<lparr>sv_reader_out := ?rd\<rparr>)"
    using admission_cancelled_state [OF Cons.prems(1,2) r(1)] by simp
  show ?case using Cons.IH [OF 1 4 2 3] res by simp
qed simp

lemma admission_request_shutdown:
  assumes inv: "request_inv st" and adm: "admission_inv st"
  shows "admission_inv (request_shutdown ack st)"
proof -
  let ?st = "st\<lparr>sv_ack_needed := (sv_ack_needed st \<or> ack), sv_shutdown_requested := True\<rparr>"
  obtain ids st1 where d: "drain_pending (sv_pending st) ?st = (ids, st1)" by force
  have "request_inv ?st" "admission_inv ?st" using inv adm by (simp_all add: request_inv_def admission_inv_def)
  from admission_drain_pending [OF this _ d] adm d show ?thesis
    by (simp add: request_shutdown_def admission_inv_def reply_def cancel_slots_def Let_def)
qed

lemma admission_handle_cancel:
  assumes inv: "request_inv st" and adm: "admission_inv st"
  shows "admission_inv (handle_cancel rid st)"
proof -
  have "rid \<in> set (sv_pending st)" if "rid \<in> set (sv_active st)" "slot_of st rid = Some s" "rs_state s = RS_Queued" for s
    using core_ok_slot [of "sv_slots st" "sv_active st"] inv that by (fastforce simp: request_inv_def slot_of_def)
  then show ?thesis
    using adm release_cancelled_pending [OF inv, of rid] admission_cancelled_state [OF inv adm, of rid]
    by (auto simp: handle_cancel_def split: option.split)
qed

lemma admission_handle_frame:
  assumes inv: "request_inv st" and adm: "admission_inv st"
  shows "admission_inv (snd (handle_frame jp fr st))"
proof -
  have "admission_inv (admit rid m st)" if "sv_admitted st < sv_max_admitted st" for rid m
    using adm that by (simp add: admission_inv_def admit_def)
  then have "admission_inv (handle_synthesize rid m st)" for rid m
    using adm by (auto simp: handle_synthesize_def Let_def split: sum.split EngineException.split)
  moreover have "admission_inv (st\<lparr>sv_hello_seen := True, sv_ready_sent := True\<rparr>)" using adm by (simp add: admission_inv_def)
  ultimately show ?thesis
    using adm admission_handle_cancel [OF inv adm] admission_request_shutdown [OF inv adm]
    by (simp add: handle_frame_def handle_hello_def handle_ping_def handle_shutdown_def Let_def split: ControlMessage.split)
qed


lemma admission_reader_step:
  assumes inv: "request_inv st" and adm: "admission_inv st"
  shows "admission_inv (reader_step jd jp bytes st)"
proof -
  have "admission_inv (reader_send jd st)"
    using adm by (auto simp: reader_send_def reader_throws_def admission_inv_def
        dest: admission_perform_send split: list.split option.split)
  moreover have "admission_inv (reader_parse jp st)"
  proof -
    have "request_inv (st\<lparr>sv_parser := p\<rparr>)" "admission_inv (st\<lparr>sv_parser := p\<rparr>)" for p
      using inv adm by (simp_all add: request_inv_reader_fields)
    from admission_handle_frame [OF this] this show ?thesis
      by (simp add: reader_parse_def split_beta Let_def)
  qed
  moreover have "admission_inv (request_shutdown False st)" using inv adm by (rule admission_request_shutdown)
  ultimately show ?thesis
    using adm
    by (simp add: reader_step_def reader_check_def reader_read_def reader_finish_def split: ReaderPhase.split)
qed

lemma admission_release:
  assumes "request_inv st" and "admission_inv st" and "sv_engine_phase st = E_Release r res"
  shows "admission_inv (release_request r res st)"
proof -
  have r: "r \<in> set (sv_active st)" "distinct (sv_active st)"
    using assms by (auto simp: request_inv_def core_ok_def keys_ok_def)
  then show ?thesis
    using assms(2) length_removeAll_distinct [OF r(2,1)]
    by (auto simp: admission_inv_def release_request_def)
qed

lemma admission_engine_step:
  assumes inv: "request_inv st" and adm: "admission_inv st"
  shows "admission_inv (engine_step jd env samples st)"
proof -
  have "admission_inv (engine_send jd st)"
    using adm by (auto simp: engine_send_def admission_inv_def dest: admission_perform_send split: list.split option.split)
  moreover have "admission_inv (on_chunk r xs st)" for r xs using adm by (simp add: on_chunk_def Let_def)
  moreover have "admission_inv (take_next_request st)" "admission_inv (run_request r st)" "admission_inv (call_engine env r st)"
    "admission_inv (audio_callback samples r st)" "admission_inv (terminalize r res st)" "admission_inv (engine_leave st)" for r res
    using adm
    by (simp_all add: admission_inv_def take_next_request_def run_request_def call_engine_def audio_callback_def
        terminalize_def mark_terminal_slot_def engine_leave_def split: list.split option.split)
  ultimately show ?thesis
    using adm admission_release [OF inv adm] by (simp add: engine_step_def split: EnginePhase.split)
qed

lemma admission_server_step:
  assumes "request_inv st" and "admission_inv st"
  shows "admission_inv (server_step jd jp step st)"
proof -
  have "admission_inv (writer_round calls st)" "admission_inv (engine_returns qs qf rep st)" "admission_inv (run_end st)"
    for calls qs qf rep
    using assms(2)
    by (simp_all add: writer_round_def Let_def admission_inv_def engine_returns_def engine_return_def run_end_def
        split: list.split option.split EnginePhase.split)
  then show ?thesis
    using assms admission_reader_step admission_engine_step by (simp add: server_step.simps split: ServerStep.split)
qed

lemma reachable_admission: "server_reachable jd jp st \<Longrightarrow> admission_inv st"
proof (induction rule: server_reachable.induct)
  case (start en session n st)
  then show ?case by (auto simp: new_server_def admission_inv_def split: if_splits)
next
  case (step st step)
  then show ?case using admission_server_step reachable_request_inv by blast
qed


end
