(* ===== verification/Server_Runs.thy ===== *)
theory Server_Runs
  imports Server_Invariants Control_Roundtrip
begin

text \<open>
  Concrete runs of the native worker: a small engine and codec, and the states they lead to. They show
  that the hypotheses of the worker's theorems can be met.
\<close>

abbreviation undisturbed :: "StdioServer \<Rightarrow> bool" where
  "undisturbed st \<equiv> \<not> sv_fatal st \<and> \<not> sv_threw st \<and> \<not> sv_aborted st"

section \<open>Samples\<close>

definition server_run :: "json_dump \<Rightarrow> json_parse \<Rightarrow> ServerStep list \<Rightarrow> StdioServer \<Rightarrow> StdioServer" where
  "server_run jd jp steps st = fold (server_step jd jp) steps st"

lemma server_reachable_run: "server_reachable jd jp st \<Longrightarrow> server_reachable jd jp (server_run jd jp steps st)"
  by (induction steps arbitrary: st) (simp_all add: server_run_def server_reachable.step)

definition sample_engine :: NativeEngine where
  "sample_engine = \<lparr>en_loaded = True, en_voice_profiles = [], en_version = ''1'', en_warmed_up = True,
     en_max_text_bytes = 0, en_precompute_voice_refs = False\<rparr>"

definition sample_synthesize :: SynthesizeMessage where
  "sample_synthesize = default_synthesize\<lparr>sy_text := ''hi''\<rparr>"

definition worker_dump :: json_dump where
  "worker_dump j = Inr ''{}''"

definition worker_parse :: json_parse where
  "worker_parse s =
     (if s = ''h'' then Inr (control_message_to_json (HelloM \<lparr>client_name = ''c'', client_version = ''1''\<rparr>))
      else if s = ''s'' then Inr (control_message_to_json (SynthesizeM sample_synthesize))
      else if s = ''c'' then Inr (control_message_to_json CancelM)
      else if s = ''x'' then Inr (control_message_to_json (ShutdownM default_shutdown))
      else Inl (ParseException ''syntax error''))"

definition client_frame :: "RequestId \<Rightarrow> string \<Rightarrow> Frame" where
  "client_frame rid s = \<lparr>header = default_header\<lparr>payload_size := of_nat (length s), request_id := rid\<rparr>,
     payload = string_to_bytes s\<rparr>"

definition sample_server :: StdioServer where
  "sample_server = projr (new_server sample_engine ''native-1-1'' 2)"

lemma sample_server_reachable: "server_reachable jd jp sample_server"
proof (rule server_reachable.start)
  show "new_server sample_engine ''native-1-1'' 2 = Inr sample_server"
    by (simp add: sample_server_def new_server_def)
qed

definition quiet_env :: SynthEnv where
  "quiet_env = \<lparr>se_params_ok = True, se_profile_cached = True, se_reference = Inr (), se_reference_cached = False,
     se_extract = QT_STATUS_OK, se_extract_error = None\<rparr>"



section \<open>Receiving\<close>

lemma receive_frame:
  assumes "server_reachable jd jp st" and "\<not> sv_aborted st" and "sv_reader_out st = []" and "sv_reader st = R_Reading"
    and "parser_inv (sv_parser st)" and "abs_parser (sv_parser st) = Live []" and "transmittable fr"
  shows "\<exists>p. parser_inv p \<and> abs_parser p = Live [] \<and>
    (let (go_on, st') = handle_frame jp fr (st\<lparr>sv_reader := R_Parsing, sv_parser := p\<rparr>) in
     server_reachable jd jp (if go_on then st' else st'\<lparr>sv_reader := R_Returned\<rparr>))"
proof -
  let ?p = "parser_append (frame_bytes fr) (sv_parser st)"
  have nf: "next_frame (frame_bytes fr) = Complete fr []" using next_frame_frame_bytes [OF assms(7), of "[]"] by simp
  then have ne: "frame_bytes fr \<noteq> []" by (auto simp: next_frame_Nil)
  have inv: "parser_inv ?p" and abs: "abs_parser ?p = Live (frame_bytes fr)"
    using assms(5,6) by (simp_all add: parser_inv_append abs_parser_append)
  have res: "fst (parse_next ?p) = ready_result fr" "abs_parser (snd (parse_next ?p)) = Live []"
    "parser_inv (snd (parse_next ?p))"
    using parse_next_refines [OF inv] abs nf by auto
  let ?st = "st\<lparr>sv_reader := R_Parsing, sv_parser := ?p\<rparr>"
  have "server_step jd jp (ReaderStep (frame_bytes fr)) st = ?st"
    using assms(2-4) ne by (simp add: server_step.simps reader_step_def reader_read_def)
  then have "server_reachable jd jp ?st" using server_reachable.step [OF assms(1)] by metis
  then have "server_reachable jd jp (server_step jd jp (ReaderStep []) ?st)" by (rule server_reachable.step)
  then show ?thesis
    using assms(2,3) res
    by (intro exI [of _ "snd (parse_next ?p)"])
      (simp add: server_step.simps reader_step_def reader_parse_def split_beta Let_def ready_result_def)
qed

lemma await_frame:
  assumes "server_reachable jd jp st" and "\<not> sv_aborted st" and "sv_reader_out st = []" and "sv_reader st = R_Parsing"
    and "parser_inv (sv_parser st)" and "abs_parser (sv_parser st) = Live []"
    and "\<not> sv_shutdown_requested st" and "\<not> sv_fatal st"
  shows "\<exists>p. parser_inv p \<and> abs_parser p = Live [] \<and>
    server_reachable jd jp (st\<lparr>sv_parser := p, sv_reader := R_Reading\<rparr>)"
proof -
  let ?r = "parse_next (sv_parser st)"
  have "fst ?r = default_parse_result" and res: "abs_parser (snd ?r) = Live []" "parser_inv (snd ?r)"
    using parse_next_refines [OF assms(5)] assms(6) by (auto simp: next_frame_Nil)
  then have st: "status (fst ?r) = NeedMoreData" by (simp add: default_parse_result_def)
  let ?st = "st\<lparr>sv_parser := snd ?r, sv_reader := R_Check\<rparr>"
  have "server_step jd jp (ReaderStep []) st = ?st"
    using assms(2-4) st by (simp add: server_step.simps reader_step_def reader_parse_def split_beta Let_def)
  then have "server_reachable jd jp ?st" using server_reachable.step [OF assms(1)] by metis
  then have "server_reachable jd jp (server_step jd jp (ReaderStep []) ?st)" by (rule server_reachable.step)
  then show ?thesis
    using assms(2,3,7,8) res
    by (intro exI [of _ "snd ?r"]) (simp add: server_step.simps reader_step_def reader_check_def)
qed

lemma client_frame_transmittable: "transmittable (client_frame rid [c])"
  by (simp add: transmittable_def encode_frame_header_ok_iff sendable_def client_frame_def default_header_def
      limit_defs is_known_frame_type_def max_payload_size_def string_to_bytes_def)

lemma worker_decodes:
  "decode_control_message worker_parse (payload (client_frame rid ''h'')) ClientToWorker =
     make_control_message (HelloM \<lparr>client_name = ''c'', client_version = ''1''\<rparr>)"
  "decode_control_message worker_parse (payload (client_frame rid ''s'')) ClientToWorker =
     make_control_message (SynthesizeM sample_synthesize)"
  "decode_control_message worker_parse (payload (client_frame rid ''x'')) ClientToWorker =
     make_control_message (ShutdownM default_shutdown)"
  by (simp_all add: client_frame_def) code_simp+

lemma client_frame_header [simp]:
  "frame_type (header (client_frame rid s)) = ControlJson" "request_id (header (client_frame rid s)) = rid"
  by (simp_all add: client_frame_def default_header_def)

lemma handle_client_frame:
  "handle_frame worker_parse (client_frame rid ''h'') st = (True, handle_hello rid st)"
  "sv_ready_sent st \<Longrightarrow>
     handle_frame worker_parse (client_frame rid ''s'') st = (True, handle_synthesize rid sample_synthesize st)"
  "handle_frame worker_parse (client_frame rid ''x'') st = handle_shutdown rid default_shutdown st"
  by (simp_all add: handle_frame_def worker_decodes make_control_message_def default_control_result_def Let_def)

text \<open>Sending with the sample printer, whose every document is small.\<close>

definition reply_bytes :: "RequestId \<Rightarrow> byte list" where
  "reply_bytes rid = er_bytes (encode_frame ControlJson rid (string_to_bytes ''{}''))"

lemma worker_sends:
  assumes "\<not> sv_stopping st" and "\<not> sv_failed st" and "length (sv_queue st) < 128"
    and "validate_control_message m = Inr ()"
  shows "server_send_control worker_dump rid m st =
    Some (False, st\<lparr>sv_queue := sv_queue st @ [reply_bytes rid], sv_sent := sv_sent st @ [SendControl rid m]\<rparr>)"
proof -
  have "encode_ok (encode_frame ControlJson rid (string_to_bytes ''{}''))"
    by (simp add: encode_frame_def encode_frame_header_ok_iff sendable_def default_header_def limit_defs
        is_known_frame_type_def max_payload_size_def string_to_bytes_def)
  then show ?thesis
    using assms
    by (simp add: server_send_control_def encode_control_message_def encode_json_payload_def worker_dump_def
        send_frame_def make_frame_def writer_send_def max_frames_def reply_bytes_def Let_def)
qed

section \<open>A session\<close>

definition worker_ready_message :: ControlMessage where
  "worker_ready_message = ReadyM (default_ready\<lparr>worker_version := ''0.2.0-native-qwentts/1'', session_id := ''native-1-1'',
     has_warmed_up := True, warmed_up := True, capabilities := engine_capabilities sample_engine, voice_ids := []\<rparr>)"

definition ready_state :: "FrameParser \<Rightarrow> StdioServer" where
  "ready_state p = sample_server\<lparr>sv_hello_seen := True, sv_ready_sent := True,
     sv_queue := [reply_bytes 0], sv_sent := [SendControl 0 worker_ready_message], sv_parser := p, sv_reader := R_Reading\<rparr>"

lemma server_fields [simp]:
  "sv_aborted sample_server = False" "sv_reader_out sample_server = []" "sv_reader sample_server = R_Check"
  "sv_parser sample_server = new_parser" "sv_shutdown_requested sample_server = False" "sv_fatal sample_server = False"
  "sv_hello_seen sample_server = False" "sv_engine sample_server = sample_engine" "sv_sent sample_server = []"
  "sv_session_id sample_server = ''native-1-1''" "sv_queue sample_server = []" "sv_stopping sample_server = False"
  "sv_failed sample_server = False" "sv_active sample_server = []" "sv_pending sample_server = []"
  "sv_slots sample_server = []" "sv_high_water sample_server = 0" "sv_admitted sample_server = 0"
  "sv_max_admitted sample_server = 2" "sv_engine_phase sample_server = E_Idle" "sv_engine_out sample_server = []"
  "sv_threw sample_server = False" "sv_ack_needed sample_server = False" "sv_terminals_enqueued sample_server = False"
  "sv_emitted sample_server = False" "sv_stdout sample_server = []"
  by (simp_all add: sample_server_def new_server_def)

lemma ready_worker:
  "\<exists>p. parser_inv p \<and> abs_parser p = Live [] \<and> server_reachable worker_dump worker_parse (ready_state p)"
proof -
  let ?reach = "server_reachable worker_dump worker_parse"
  let ?st = "sample_server\<lparr>sv_reader := R_Reading\<rparr>"
  let ?st1 = "\<lambda>p. ?st\<lparr>sv_reader := R_Parsing, sv_parser := p, sv_hello_seen := True, sv_ready_sent := True,
      sv_reader_out := [SendControl 0 worker_ready_message]\<rparr>"
  have "server_step worker_dump worker_parse (ReaderStep []) sample_server = ?st"
    by (simp add: server_step.simps reader_step_def reader_check_def)
  then have "?reach ?st" using server_reachable.step [OF sample_server_reachable] by metis
  from receive_frame [OF this, of "client_frame 0 ''h''"] client_frame_transmittable
  obtain p where p: "parser_inv p" "abs_parser p = Live []" and r: "?reach (?st1 p)"
    by (auto simp: handle_client_frame handle_hello_def reply_def worker_ready_message_def sample_engine_def
        engine_voice_ids_def Let_def)
  have "validate_control_message worker_ready_message = Inr ()" by (simp add: worker_ready_message_def validate_non_empty_string_def)
  then have "server_step worker_dump worker_parse (ReaderStep []) (?st1 p) = (ready_state p)\<lparr>sv_reader := R_Parsing\<rparr>"
    by (simp add: server_step.simps reader_step_def reader_send_def worker_sends ready_state_def)
  then have "?reach ((ready_state p)\<lparr>sv_reader := R_Parsing\<rparr>)" using server_reachable.step [OF r] by metis
  from await_frame [OF this] p show ?thesis by (simp add: ready_state_def)
qed

definition queued_message :: ControlMessage where
  "queued_message = QueuedM \<lparr>has_position = True, position = 1\<rparr>"

definition queued_state :: "FrameParser \<Rightarrow> StdioServer" where
  "queued_state p =
     reply [SendControl 5 queued_message] (admit 5 sample_synthesize ((ready_state p)\<lparr>sv_reader := R_Parsing\<rparr>))"

lemma queued_worker:
  "\<exists>p. parser_inv p \<and> abs_parser p = Live [] \<and> server_reachable worker_dump worker_parse (queued_state p)"
proof -
  let ?reach = "server_reachable worker_dump worker_parse"
  obtain p0 where p0: "parser_inv p0" "abs_parser p0 = Live []" and r: "?reach (ready_state p0)"
    using ready_worker by blast
  have valid: "validate_request sample_engine sample_synthesize = Inr ()"
    by (simp add: validate_request_def sample_engine_def sample_synthesize_def default_synthesize_def default_audio_format_def)
  have "handle_frame worker_parse (client_frame 5 ''s'') ((ready_state p0)\<lparr>sv_reader := R_Parsing, sv_parser := p\<rparr>) =
      (True, queued_state p)" for p
    by (simp add: handle_client_frame ready_state_def handle_synthesize_def valid queued_state_def queued_message_def
        admit_def reply_def)
  with receive_frame [OF r, of "client_frame 5 ''s''"] client_frame_transmittable p0
  show ?thesis by (simp add: ready_state_def)
qed

text \<open>Two continuations: the engine thread starts the request before the reader has announced it, and
  the request is announced and run to its end.\<close>

definition engine_moves :: ServerStep where
  "engine_moves = EngineStep quiet_env (Some [Finite 0, Finite (1 / 2)])"

lemma sample_synthesize_fields [simp]:
  "synthesize_early sample_engine quiet_env sample_synthesize = None"
  "sample_format (sy_output sample_synthesize) = ''s16le''" "sample_rate (sy_output sample_synthesize) = 24000"
  "channels (sy_output sample_synthesize) = 1" "validate_control_message queued_message = Inr ()"
  by (simp_all add: synthesize_early_def synthesize_preflight_def validate_request_def sample_engine_def quiet_env_def
      sample_synthesize_def default_synthesize_def default_audio_format_def queued_message_def)

definition worker_at ::
  "FrameParser \<Rightarrow> EnginePhase \<Rightarrow> ServerSend list \<Rightarrow> bool \<Rightarrow> RequestSlot \<Rightarrow> RequestId list \<Rightarrow> RequestId list \<Rightarrow>
   ServerSend list \<Rightarrow> ServerSend list \<Rightarrow> byte list list \<Rightarrow> StdioServer" where
  "worker_at p ph eo em slot active pending ro sent q =
     (ready_state p)\<lparr>sv_reader := R_Parsing, sv_high_water := 5, sv_admitted := length active, sv_active := active,
       sv_pending := pending, sv_slots := [(5, slot)], sv_reader_out := ro, sv_engine_phase := ph, sv_engine_out := eo,
       sv_emitted := em, sv_sent := sent, sv_queue := q\<rparr>"

definition waiting_slot :: RequestSlot where
  "waiting_slot = \<lparr>rs_request = sample_synthesize, rs_state = RS_Queued, rs_cancelled = False, rs_terminal = False\<rparr>"

definition running_slot :: RequestSlot where
  "running_slot = \<lparr>rs_request = sample_synthesize, rs_state = RS_Running, rs_cancelled = False, rs_terminal = False\<rparr>"

definition ended_slot :: RequestSlot where
  "ended_slot = \<lparr>rs_request = sample_synthesize, rs_state = RS_Running, rs_cancelled = False, rs_terminal = True\<rparr>"

definition started_message :: ControlMessage where
  "started_message = StartedM \<lparr>started_format = sy_output sample_synthesize\<rparr>"

definition sample_pcm :: "byte list" where
  "sample_pcm = float_pcm_to_s16le (Some [Finite 0, Finite (1 / 2)])"

definition completed_message :: ControlMessage where
  "completed_message = CompletedM (default_completed\<lparr>has_execution_outcome := True, execution_outcome := ''natural_eos''\<rparr>)"

lemmas worker_at_simps = worker_at_def ready_state_def server_step.simps engine_step_def engine_moves_def
lemmas slot_simps = slot_of_def slot_cancelled_def slot_terminal_def waiting_slot_def running_slot_def ended_slot_def
  assoc_modify_def

lemma queued_state_at:
  "queued_state p = worker_at p E_Idle [] False waiting_slot [5] [5] [SendControl 5 queued_message]
     [SendControl 0 worker_ready_message] [reply_bytes 0]"
  by (simp add: queued_state_def worker_at_def ready_state_def reply_def admit_def waiting_slot_def)

lemma step_reader_send:
  "length q < 128 \<Longrightarrow> validate_control_message m = Inr () \<Longrightarrow>
   server_step worker_dump worker_parse (ReaderStep []) (worker_at p ph eo em slot a pn (SendControl r m # ro) sent q) =
     worker_at p ph eo em slot a pn ro (sent @ [SendControl r m]) (q @ [reply_bytes r])"
  by (simp add: worker_at_simps reader_step_def reader_send_def worker_sends)

lemma step_engine_send:
  "length q < 128 \<Longrightarrow> validate_control_message m = Inr () \<Longrightarrow>
   server_step worker_dump worker_parse engine_moves (worker_at p ph [SendControl r m] em slot a pn ro sent q) =
     worker_at p ph [] em slot a pn ro (sent @ [SendControl r m]) (q @ [reply_bytes r])"
  by (simp add: worker_at_simps engine_send_def worker_sends)

lemma step_take:
  "server_step worker_dump worker_parse engine_moves (worker_at p E_Idle [] em waiting_slot a [5] ro sent q) =
     worker_at p (E_Taken 5) [] em running_slot a [] ro sent q"
  by (simp add: worker_at_simps take_next_request_def slot_simps)

lemma step_run:
  "server_step worker_dump worker_parse engine_moves (worker_at p (E_Taken 5) [] em running_slot a pn ro sent q) =
     worker_at p (E_Calling 5) [SendControl 5 started_message] em running_slot a pn ro sent q"
  by (simp add: worker_at_simps run_request_def slot_simps started_message_def)

lemma step_call:
  "server_step worker_dump worker_parse engine_moves (worker_at p (E_Calling 5) [] em running_slot a pn ro sent q) =
     worker_at p (E_Synth 5) [] False running_slot a pn ro sent q"
  by (simp add: worker_at_simps call_engine_def slot_simps)

lemma step_chunk:
  "server_step worker_dump worker_parse engine_moves (worker_at p (E_Synth 5) [] em running_slot a pn ro sent q) =
     worker_at p (E_Chunk 5 (Some [Finite 0, Finite (1 / 2)])) [] True running_slot a pn ro sent q"
  "server_step worker_dump worker_parse engine_moves
     (worker_at p (E_Chunk 5 (Some [Finite 0, Finite (1 / 2)])) [] em running_slot a pn ro sent q) =
     worker_at p (E_Synth 5) [SendAudio 5 sample_pcm] em running_slot a pn ro sent q"
  by (simp_all add: worker_at_simps audio_callback_def audio_callback_emits_def on_chunk_def slot_simps sample_pcm_def)

lemma step_audio:
  "length q < 128 \<Longrightarrow>
   server_step worker_dump worker_parse engine_moves (worker_at p ph [SendAudio 5 sample_pcm] em slot a pn ro sent q) =
     worker_at p ph [] em slot a pn ro (sent @ [SendAudio 5 sample_pcm]) (q @ [er_bytes (encode_frame AudioPcm 5 sample_pcm)])"
proof -
  have "encode_ok (encode_frame AudioPcm 5 sample_pcm)"
    by (simp add: encode_frame_def encode_frame_header_ok_iff sendable_def default_header_def limit_defs
        is_known_frame_type_def max_payload_size_def float_pcm_to_s16le_def sample_pcm_def)
  then show "length q < 128 \<Longrightarrow> ?thesis"
    by (simp add: worker_at_simps engine_send_def send_frame_def make_frame_def writer_send_def max_frames_def)
qed

lemma step_return:
  "server_step worker_dump worker_parse (EngineReturn QT_STATUS_OK QT_FINISH_EOS None)
     (worker_at p (E_Synth 5) [] True running_slot a pn ro sent q) =
     worker_at p (E_Terminal 5 (completed_result ''natural_eos'')) [] True running_slot a pn ro sent q"
  by (simp add: worker_at_simps engine_returns_def engine_return_def synthesis_outcome_def)

lemma step_end:
  "server_step worker_dump worker_parse engine_moves (worker_at p (E_Terminal 5 res) [] em running_slot a pn ro sent q) =
     worker_at p (E_Release 5 res) [] em ended_slot a pn ro sent q"
  "server_step worker_dump worker_parse engine_moves
     (worker_at p (E_Release 5 (completed_result ''natural_eos'')) [] em slot [5] pn ro sent q) =
     worker_at p E_Idle [SendControl 5 completed_message] em slot [] pn ro sent q"
  by (simp_all add: worker_at_simps terminalize_def mark_terminal_slot_def slot_simps release_request_def
      terminal_message_def completed_result_def completed_message_def)

lemma sample_messages_valid [simp]:
  "validate_control_message started_message = Inr ()" "validate_control_message completed_message = Inr ()"
  by (simp_all add: started_message_def completed_message_def)

lemmas sample_steps = step_reader_send step_engine_send step_take step_run step_call step_chunk step_audio step_return step_end

lemma started_before_queued:
  "sv_sent (server_run worker_dump worker_parse
      [engine_moves, engine_moves, engine_moves, ReaderStep []] (queued_state p)) =
   [SendControl 0 worker_ready_message, SendControl 5 started_message, SendControl 5 queued_message]"
  by (simp add: server_run_def queued_state_at sample_steps) (simp add: worker_at_def)

definition finished_state :: "FrameParser \<Rightarrow> StdioServer" where
  "finished_state p = worker_at p E_Idle [] True ended_slot [] [] []
     [SendControl 0 worker_ready_message, SendControl 5 queued_message, SendControl 5 started_message,
      SendAudio 5 sample_pcm, SendControl 5 completed_message]
     [reply_bytes 0, reply_bytes 5, reply_bytes 5, er_bytes (encode_frame AudioPcm 5 sample_pcm), reply_bytes 5]"

lemma finished_worker:
  "\<exists>p. parser_inv p \<and> abs_parser p = Live [] \<and> server_reachable worker_dump worker_parse (finished_state p)"
proof -
  have "server_run worker_dump worker_parse ([ReaderStep []] @ [engine_moves, engine_moves, engine_moves, engine_moves,
      engine_moves, engine_moves, engine_moves] @ [EngineReturn QT_STATUS_OK QT_FINISH_EOS None] @
      [engine_moves, engine_moves, engine_moves]) (queued_state p) = finished_state p" for p
    by (simp add: server_run_def queued_state_at sample_steps finished_state_def)
  then show ?thesis using queued_worker server_reachable_run by metis
qed

lemma shut_down_worker:
  "\<exists>st. server_reachable worker_dump worker_parse st \<and> undisturbed st \<and> map fst (sv_slots st) = [5] \<and>
     sv_active st = [] \<and> sv_sent st = sv_sent (finished_state new_parser) @ [SendControl 0 ShutdownAckM]"
proof -
  let ?reach = "server_reachable worker_dump worker_parse"
  obtain p0 where p0: "parser_inv p0" "abs_parser p0 = Live []" and "?reach (finished_state p0)"
    using finished_worker by blast
  from await_frame [OF this(3)] this(1,2) obtain p1 where p1: "parser_inv p1" "abs_parser p1 = Live []"
    and r: "?reach ((finished_state p0)\<lparr>sv_parser := p1, sv_reader := R_Reading\<rparr>)"
    by (auto simp: finished_state_def worker_at_def ready_state_def)
  let ?down = "\<lambda>p. (finished_state p0)\<lparr>sv_reader := R_Parsing, sv_parser := p, sv_ack_needed := True,
      sv_shutdown_requested := True, sv_reader_out := [TerminalsEnqueued], sv_reader := R_Returned\<rparr>"
  have "handle_frame worker_parse (client_frame 0 ''x'')
      ((finished_state p0)\<lparr>sv_parser := p1, sv_reader := R_Reading, sv_reader := R_Parsing, sv_parser := p\<rparr>) =
      (False, (?down p)\<lparr>sv_reader := R_Parsing\<rparr>)" for p
    by (simp add: handle_client_frame handle_shutdown_def default_shutdown_def request_shutdown_def reply_def
        cancel_slots_def finished_state_def worker_at_def ready_state_def)
  with receive_frame [OF r, of "client_frame 0 ''x''"] client_frame_transmittable p1
  obtain p where down: "?reach (?down p)" by (auto simp: finished_state_def worker_at_def ready_state_def)
  let ?left = "(?down p)\<lparr>sv_reader_out := [], sv_terminals_enqueued := True, sv_engine_phase := E_Leaving\<rparr>"
  have "server_run worker_dump worker_parse [ReaderStep [], engine_moves] (?down p) = ?left"
    by (simp add: server_run_def server_step.simps reader_step_def reader_send_def engine_moves_def engine_step_def
        take_next_request_def finished_state_def worker_at_def ready_state_def)
  then have left: "?reach ?left" using server_reachable_run [OF down] by metis
  let ?exited = "?left\<lparr>sv_engine_phase := E_Exited, sv_engine_out := [SendControl 0 ShutdownAckM]\<rparr>"
  have "server_step worker_dump worker_parse engine_moves ?left = ?exited"
    by (simp add: server_step.simps engine_moves_def engine_step_def engine_leave_def finished_state_def
        worker_at_def ready_state_def)
  then have exited: "?reach ?exited" using server_reachable.step [OF left] by metis
  let ?st = "?exited\<lparr>sv_queue := sv_queue ?exited @ [reply_bytes 0],
      sv_sent := sv_sent ?exited @ [SendControl 0 ShutdownAckM], sv_engine_out := []\<rparr>"
  have "server_send_control worker_dump 0 ShutdownAckM ?exited = Some (False, ?exited\<lparr>sv_queue := sv_queue ?exited @ [reply_bytes 0],
      sv_sent := sv_sent ?exited @ [SendControl 0 ShutdownAckM]\<rparr>)"
    by (rule worker_sends) (simp_all add: finished_state_def worker_at_def ready_state_def)
  then have "server_step worker_dump worker_parse engine_moves ?exited = ?st"
    by (simp add: server_step.simps engine_moves_def engine_step_def engine_send_def)
      (simp add: finished_state_def worker_at_def ready_state_def)
  then have "?reach ?st" using server_reachable.step [OF exited] by metis
  then show ?thesis
    by (intro exI [of _ ?st]) (simp add: finished_state_def worker_at_def ready_state_def)
qed

end
