(* ===== verification/Server_Properties.thy ===== *)
theory Server_Properties
  imports Server_Runs
begin

text \<open>
  What the native worker guarantees to the process that started it: one terminal message per accepted
  request, the order of a request's messages, the acknowledgement of a shutdown after everything else,
  and the byte stream on its standard output. Two concrete runs at the end show behaviour that the
  protocol document does not provide for.
\<close>

section \<open>Shutdown\<close>

abbreviation shutdown_ack :: ServerSend where
  "shutdown_ack \<equiv> SendControl 0 ShutdownAckM"

definition flow_inv :: "StdioServer \<Rightarrow> bool" where
  "flow_inv st \<longleftrightarrow>
     (sv_shutdown_requested st \<longrightarrow> (sv_reader st = R_Returned \<or> sv_reader st = R_Finished) \<and> sv_pending st = []) \<and>
     (sv_terminals_enqueued st \<longrightarrow> sv_shutdown_requested st \<and> sv_reader_out st = []) \<and>
     TerminalsEnqueued \<notin> set (butlast (sv_reader_out st)) \<and>
     (TerminalsEnqueued \<in> set (sv_reader_out st) \<longrightarrow> sv_shutdown_requested st) \<and>
     TerminalsEnqueued \<notin> set (sv_engine_out st) \<and> shutdown_ack \<notin> set (sv_reader_out st) \<and>
     (sv_engine_phase st = E_Leaving \<or> sv_engine_phase st = E_Exited \<longrightarrow>
        sv_fatal st \<or> sv_shutdown_requested st \<and> sv_terminals_enqueued st) \<and>
     (shutdown_ack \<in> set (sv_engine_out st) \<longrightarrow> sv_engine_phase st = E_Exited \<and> shutdown_ack \<notin> set (sv_sent st)) \<and>
     (shutdown_ack \<in> set (sv_sent st) \<longrightarrow> sv_engine_phase st = E_Exited \<and> sv_engine_out st = [] \<and>
        (undisturbed st \<longrightarrow> last (sv_sent st) = shutdown_ack))"





















lemma flow_fields [simp]:
  "flow_inv (st\<lparr>sv_emitted := e\<rparr>) = flow_inv st" "flow_inv (st\<lparr>sv_slots := sl\<rparr>) = flow_inv st"
  "flow_inv (st\<lparr>sv_active := a\<rparr>) = flow_inv st" "flow_inv (st\<lparr>sv_admitted := n\<rparr>) = flow_inv st"
  by (simp_all add: flow_inv_def)






section \<open>One terminal message, in order\<close>

lemma trace_shape:
  assumes "trace_ok h pl tr"
  shows "\<exists>s a e. tr = s @ a @ e \<and> list_all is_start s \<and> length s \<le> 1 \<and> list_all is_pcm a \<and> list_all is_end e \<and>
    length e \<le> 1 \<and> (pl \<noteq> Ended \<longrightarrow> e = []) \<and> (h \<longrightarrow> (a \<noteq> [] \<longrightarrow> s \<noteq> []) \<and> (pl = Ended \<longrightarrow> e \<noteq> []))"
proof -
  have body: "\<exists>s a. b = s @ a \<and> list_all is_start s \<and> length s \<le> 1 \<and> list_all is_pcm a \<and> (h \<longrightarrow> a \<noteq> [] \<longrightarrow> s \<noteq> [])"
    if "b = [] \<or> streamed h b" for b
  proof (cases "\<exists>x xs. b = x # xs \<and> is_start x \<and> list_all is_pcm xs")
    case True
    then obtain x xs where "b = x # xs" "is_start x" "list_all is_pcm xs" by blast
    then show ?thesis by (intro exI [of _ "[x]"] exI [of _ xs]) simp
  next
    case False
    then have "b = [] \<or> \<not> h \<and> list_all is_pcm b" using that unfolding streamed_def by blast
    then show ?thesis by (intro exI [of _ "[]"] exI [of _ b]) auto
  qed
  show ?thesis
  proof (cases "pl = Ended \<and> (\<exists>b x. tr = b @ [x] \<and> is_end x \<and> (b = [] \<or> streamed h b))")
    case True
    then obtain b x where b: "tr = b @ [x]" "is_end x" "b = [] \<or> streamed h b" by blast
    from body [OF b(3)] obtain s a where "b = s @ a" "list_all is_start s" "length s \<le> 1" "list_all is_pcm a"
      "h \<longrightarrow> a \<noteq> [] \<longrightarrow> s \<noteq> []" by blast
    then show ?thesis using b True by (intro exI [of _ s] exI [of _ a] exI [of _ "[x]"]) simp
  next
    case False
    then have "tr = [] \<or> streamed h tr" "pl = Ended \<longrightarrow> \<not> h"
      using assms by (cases pl; auto simp: streamed_def)+
    from body [OF this(1)] this(2) show ?thesis by (metis append_Nil2 list.pred_inject(1) list.size(3) zero_le_one)
  qed
qed

lemma filter_is_end_shape:
  assumes "tr = s @ a @ e" and "list_all is_start s" and "list_all is_pcm a" and "list_all is_end e"
  shows "filter is_end tr = e"
proof -
  have "\<not> is_end x" if "is_start x \<or> is_pcm x" for x using that by (cases x) auto
  then have "filter is_end s = []" "filter is_end a = []"
    using assms by (auto simp: filter_empty_conv list_all_iff)
  then show ?thesis using assms by (simp add: list_all_iff)
qed

text \<open>The messages of one request: those the writer has, followed by those the threads are about to
  send.\<close>

definition request_messages :: "RequestId \<Rightarrow> StdioServer \<Rightarrow> ServerSend list" where
  "request_messages rid st = filter (about rid) (sv_sent st @ sv_reader_out st @ sv_engine_out st)"

lemma request_messages_ok:
  "server_reachable jd jp st \<Longrightarrow>
     trace_ok (undisturbed st) (place (sv_slots st) (sv_active st) (sv_pending st) (sv_engine_phase st) rid)
       (request_messages rid st)"
  using reachable_request_inv by (simp add: request_inv_def sends_ok_def request_messages_def)

text \<open>C2. In every interleaving of the worker's threads, an accepted request has no terminal message
  while it is active and at most one ever; once it is no longer active it has exactly one, unless a
  send has failed or an exception has occurred.\<close>

theorem worker_one_terminal:
  assumes "server_reachable jd jp st" and "rid \<in> fst ` set (sv_slots st)"
  shows "(rid \<in> set (sv_active st) \<longrightarrow> filter is_end (request_messages rid st) = []) \<and>
     length (filter is_end (request_messages rid st)) \<le> 1 \<and>
     (rid \<notin> set (sv_active st) \<and> undisturbed st \<longrightarrow> length (filter is_end (request_messages rid st)) = 1)"
proof -
  let ?pl = "place (sv_slots st) (sv_active st) (sv_pending st) (sv_engine_phase st) rid"
  have act: "?pl = Ended \<longleftrightarrow> rid \<notin> set (sv_active st)"
    using assms(2) by (cases "sv_engine_phase st") (auto simp: place_def)
  obtain s a e where sh: "request_messages rid st = s @ a @ e" "list_all is_start s" "list_all is_pcm a"
    "list_all is_end e" "length e \<le> 1" "?pl \<noteq> Ended \<longrightarrow> e = []" "undisturbed st \<and> ?pl = Ended \<longrightarrow> e \<noteq> []"
    using trace_shape [OF request_messages_ok [OF assms(1), of rid]] by blast
  have "filter is_end (request_messages rid st) = e" by (rule filter_is_end_shape [OF sh(1-4)])
  moreover have "length e = 1" if "e \<noteq> []" using that sh(5) by (cases e) auto
  ultimately show ?thesis using sh(5-7) act by auto
qed

theorem worker_one_terminal_witness:
  "\<exists>st. server_reachable worker_dump worker_parse st \<and> length (filter is_end (request_messages 5 st)) = 1"
proof -
  obtain p where r: "server_reachable worker_dump worker_parse (finished_state p)" using finished_worker by blast
  have "5 \<in> fst ` set (sv_slots (finished_state p))" "undisturbed (finished_state p)" "5 \<notin> set (sv_active (finished_state p))"
    by (simp_all add: finished_state_def worker_at_def ready_state_def)
  then show ?thesis using worker_one_terminal [OF r, of 5] r by blast
qed




section \<open>Admission and identifiers\<close>

text \<open>C15. The worker never has more requests admitted than its limit, the counter of admitted requests is
  exact and never wraps, every active request is either queued once or held by the engine thread, and
  accepted identifiers are non-zero and strictly increasing.\<close>

theorem worker_admission:
  assumes "server_reachable jd jp st"
  shows "sv_admitted st = length (sv_active st) \<and> sv_admitted st \<le> sv_max_admitted st \<and> distinct (sv_active st) \<and>
     distinct (sv_pending st) \<and> set (sv_active st) = set (sv_pending st) \<union> set_option (held (sv_engine_phase st)) \<and>
     sorted_wrt (<) (map fst (sv_slots st)) \<and> (\<forall>r \<in> fst ` set (sv_slots st). 0 < r \<and> r \<le> sv_high_water st)"
  using reachable_request_inv [OF assms] reachable_admission [OF assms]
  by (simp add: request_inv_def core_ok_def keys_ok_def admission_inv_def)

theorem worker_admission_witness:
  "\<exists>st. server_reachable worker_dump worker_parse st \<and> sv_active st = [5] \<and> sv_admitted st = 1"
proof -
  obtain p where r: "server_reachable worker_dump worker_parse (queued_state p)" using queued_worker by blast
  have "sv_active (queued_state p) = [5]" by (simp add: queued_state_at worker_at_def)
  then show ?thesis using worker_admission [OF r] r by auto
qed

text \<open>C10. The request-identifier and admission policy: a valid request is accepted exactly when its
  identifier is above every identifier accepted before and fewer requests than the limit are active;
  then it is queued last and its identifier becomes the mark. A refused request changes neither the mark
  nor any request and is answered with exactly one error for its identifier.\<close>

theorem synthesize_policy:
  assumes "server_reachable jd jp st" and "rid \<noteq> 0" and "validate_request (sv_engine st) m = Inr ()"
    and "\<not> sv_shutdown_requested st"
  shows "if sv_high_water st < rid \<and> length (sv_active st) < sv_max_admitted st
     then sv_slots (handle_synthesize rid m st) = sv_slots st @ [(rid,
            \<lparr>rs_request = m, rs_state = RS_Queued, rs_cancelled = False, rs_terminal = False\<rparr>)] \<and>
          sv_pending (handle_synthesize rid m st) = sv_pending st @ [rid] \<and>
          sv_high_water (handle_synthesize rid m st) = rid
     else \<exists>e. handle_synthesize rid m st = st\<lparr>sv_reader_out := [SendError rid e]\<rparr>"
proof -
  have act: "rid \<le> sv_high_water st" if "rid \<in> set (sv_active st)"
    using reachable_request_inv [OF assms(1)] that by (auto simp: request_inv_def core_ok_def keys_ok_def)
  have adm: "sv_admitted st = length (sv_active st)"
    using reachable_admission [OF assms(1)] by (simp add: admission_inv_def)
  show ?thesis
  proof (cases "sv_high_water st < rid \<and> length (sv_active st) < sv_max_admitted st")
    case True
    then have "\<not> (rid \<in> set (sv_active st) \<or> rid \<le> sv_high_water st)" using act by auto
    then show ?thesis using True adm assms(2-4) by (simp add: handle_synthesize_def admit_def reply_def Let_def)
  next
    case False
    have "\<exists>e. reply_error rid cat cd msg st = st\<lparr>sv_reader_out := [SendError rid e]\<rparr>" for cat cd msg
      unfolding reply_error_def reply_def by blast
    moreover have "rid \<le> sv_high_water st \<or> sv_max_admitted st \<le> sv_admitted st" using False adm by auto
    ultimately have "\<exists>e. handle_synthesize rid m st = st\<lparr>sv_reader_out := [SendError rid e]\<rparr>"
      using assms(2-4) by (auto simp: handle_synthesize_def)
    then show ?thesis unfolding if_not_P [OF False] .
  qed
qed

theorem synthesize_policy_witness:
  "\<exists>p. sv_pending (handle_synthesize 7 sample_synthesize (ready_state p)) = [7] \<and>
     sv_high_water (handle_synthesize 7 sample_synthesize (ready_state p)) = 7"
proof -
  obtain p where r: "server_reachable worker_dump worker_parse (ready_state p)" using ready_worker by blast
  have "validate_request sample_engine sample_synthesize = Inr ()"
    by (simp add: validate_request_def sample_engine_def sample_synthesize_def default_synthesize_def default_audio_format_def)
  then show ?thesis
    using synthesize_policy [OF r, of 7 sample_synthesize] by (intro exI [of _ p]) (simp add: ready_state_def)
qed




section \<open>The standard output\<close>

text \<open>The frame a message travels in.\<close>

definition outgoing :: "FrameType \<Rightarrow> RequestId \<Rightarrow> byte list \<Rightarrow> Frame" where
  "outgoing t rid pl =
     \<lparr>header = default_header\<lparr>frame_type := t, request_id := rid, payload_size := of_nat (length pl)\<rparr>, payload = pl\<rparr>"

fun wire_item :: "json_dump \<Rightarrow> ServerSend \<Rightarrow> Frame" where
  "wire_item jd (SendControl r m) = outgoing ControlJson r (je_payload (encode_control_message jd m))"
| "wire_item jd (SendError r e) = outgoing ErrorJson r (je_payload (encode_error_message jd e))"
| "wire_item jd (SendFailure r e) = outgoing ErrorJson r (je_payload (encode_error_message jd e))"
| "wire_item jd (SendAudio r pcm) = outgoing AudioPcm r pcm"
| "wire_item jd TerminalsEnqueued = default_frame"

lemma make_frame_outgoing:
  "make_frame t r pl = Inr fr \<Longrightarrow> named_type t \<Longrightarrow> fr = frame_bytes (outgoing t r pl) \<and> transmittable (outgoing t r pl)"
  by (auto simp: make_frame_def encode_frame_def frame_bytes_def transmittable_def outgoing_def default_header_def
      Let_def split: if_splits)

lemma wire_frame_item:
  "wire_frame jd x = Inr fr \<Longrightarrow> fr = frame_bytes (wire_item jd x) \<and> transmittable (wire_item jd x)"
  by (cases x) (auto dest!: make_frame_outgoing)

definition stream_inv :: "json_dump \<Rightarrow> StdioServer \<Rightarrow> bool" where
  "stream_inv jd st \<longleftrightarrow>
     (let bytes = concat (map (\<lambda>x. frame_bytes (wire_item jd x)) (sv_sent st)) in
      (\<forall>x \<in> set (sv_sent st). transmittable (wire_item jd x)) \<and>
      (\<not> sv_failed st \<longrightarrow> sv_stdout st @ concat (sv_queue st) = bytes) \<and> prefix (sv_stdout st) bytes)"

definition same_wire :: "StdioServer \<Rightarrow> StdioServer \<Rightarrow> bool" where
  "same_wire st st' \<longleftrightarrow> sv_sent st' = sv_sent st \<and> sv_failed st' = sv_failed st \<and> sv_queue st' = sv_queue st \<and>
     sv_stdout st' = sv_stdout st"

lemma same_wire_stream: "same_wire st st' \<Longrightarrow> stream_inv jd st \<Longrightarrow> stream_inv jd st'"
  by (simp add: same_wire_def stream_inv_def)

lemma write_stdout_frame_bound:
  "write_stdout_frame calls off fr = Some r \<Longrightarrow> off \<le> length fr \<Longrightarrow>
     wr_bytes_written r \<le> length fr \<and> (wr_success r \<longrightarrow> wr_bytes_written r = length fr)"
proof (induction calls off fr rule: write_stdout_frame.induct)
  case (1 calls off fr)
  then show ?case
    by (subst (asm) write_stdout_frame.simps) (auto simp: Let_def split: if_splits list.splits)
qed

lemma stream_writer_round:
  assumes "stream_inv jd st" shows "stream_inv jd (writer_round calls st)"
proof (cases "sv_failed st \<or> sv_queue st = []")
  case True
  then show ?thesis using assms by (auto simp: writer_round_def)
next
  case False
  then obtain fr q where q: "sv_queue st = fr # q" by (cases "sv_queue st") auto
  let ?bytes = "concat (map (\<lambda>x. frame_bytes (wire_item jd x)) (sv_sent st))"
  have all: "sv_stdout st @ fr @ concat q = ?bytes" using assms False q by (simp add: stream_inv_def Let_def)
  show ?thesis
  proof (cases "write_stdout_frame calls 0 fr")
    case None
    then show ?thesis using assms False q by (simp add: writer_round_def)
  next
    case (Some r)
    then have b: "wr_bytes_written r \<le> length fr" "wr_success r \<Longrightarrow> wr_bytes_written r = length fr"
      using write_stdout_frame_bound by force+
    have "?bytes = (sv_stdout st @ take (wr_bytes_written r) fr) @ drop (wr_bytes_written r) fr @ concat q"
      using all by (metis append_assoc append_take_drop_id)
    then have "prefix (sv_stdout st @ take (wr_bytes_written r) fr) ?bytes" unfolding prefix_def by blast
    then show ?thesis
      using assms False q Some b all by (auto simp: writer_round_def stream_inv_def Let_def)
  qed
qed

lemma stream_perform_send:
  assumes "stream_inv jd st" and "perform_send jd item st = Some (threw, st')"
  shows "stream_inv jd st'"
proof -
  have "stream_inv jd (fail_fatal st)" "stream_inv jd (st\<lparr>sv_terminals_enqueued := True\<rparr>)"
    using assms(1) by (simp_all add: stream_inv_def)
  moreover have "stream_inv jd (st\<lparr>sv_queue := sv_queue st @ [fr], sv_sent := sv_sent st @ [item]\<rparr>)"
    if "wire_frame jd item = Inr fr" "\<not> sv_failed st" for fr
    using assms(1) wire_frame_item [OF that(1)] that(2)
    by (auto simp: stream_inv_def Let_def simp flip: append_assoc intro: prefix_prefix)
  ultimately show ?thesis using perform_send_cases [OF assms(2)] assms(1) by auto
qed


lemma same_wire_release: "same_wire st (snd (release_cancelled r st))"
  by (simp add: same_wire_def release_cancelled_def cancel_slots_def mark_terminal_slot_def Let_def)

lemma same_wire_drain: "same_wire st (snd (drain_pending p st))"
proof (induction p arbitrary: st)
  case Nil
  then show ?case by (simp add: same_wire_def)
next
  case (Cons r p)
  show ?case
    using same_wire_release [of "st\<lparr>sv_pending := p\<rparr>" r] Cons.IH by (simp add: same_wire_def split_beta Let_def)
qed

lemma same_wire_shutdown: "same_wire st (request_shutdown ack st)"
  using same_wire_drain [of "st\<lparr>sv_ack_needed := (sv_ack_needed st \<or> ack), sv_shutdown_requested := True\<rparr>" "sv_pending st"]
  by (simp add: request_shutdown_def same_wire_def reply_def cancel_slots_def split_beta Let_def)

lemma same_wire_cancel: "same_wire st (handle_cancel rid st)"
  using same_wire_release [of "st\<lparr>sv_pending := removeAll rid (sv_pending st)\<rparr>" rid]
  by (simp add: handle_cancel_def same_wire_def reply_error_def reply_def cancel_slots_def split_beta split: option.split)

lemma same_wire_handle_frame: "same_wire st (snd (handle_frame jp fr st))"
proof -
  have "same_wire st (handle_synthesize rid m st)" "same_wire st (handle_hello rid st)" "same_wire st (handle_ping rid q st)"
    "same_wire st (reply_error rid cat cd msg st)" for rid m q cat cd msg
    by (simp_all add: same_wire_def handle_synthesize_def handle_hello_def handle_ping_def reply_error_def reply_def
        admit_def Let_def split: sum.split EngineException.split)
  then show ?thesis
    using same_wire_cancel same_wire_shutdown
    by (simp add: handle_frame_def handle_shutdown_def Let_def split: ControlMessage.split)
qed

lemma stream_reader_step:
  assumes "stream_inv jd st" shows "stream_inv jd (reader_step jd jp bytes st)"
proof -
  have "stream_inv jd (reader_send jd st)"
    using stream_perform_send [OF assms] assms
    by (auto simp: reader_send_def reader_throws_def stream_inv_def split: list.split option.split)
  moreover have "same_wire st (reader_parse jp st)"
    using same_wire_handle_frame [of "st\<lparr>sv_parser := p\<rparr>" jp fr for p fr]
    by (simp add: reader_parse_def same_wire_def split_beta Let_def)
  moreover have "same_wire st (reader_finish st)" using same_wire_shutdown [of st False] by (simp add: reader_finish_def same_wire_def)
  moreover have "same_wire st (reader_check st)" "same_wire st (reader_read bytes st)" "same_wire st st"
    by (simp_all add: same_wire_def reader_check_def reader_read_def)
  ultimately show ?thesis
    using assms same_wire_stream by (auto simp: reader_step_def split: ReaderPhase.split)
qed

lemma stream_engine_step:
  assumes "stream_inv jd st" shows "stream_inv jd (engine_step jd env samples st)"
proof -
  have "stream_inv jd (engine_send jd st)"
    using stream_perform_send [OF assms] assms
    by (auto simp: engine_send_def stream_inv_def split: list.split option.split)
  moreover have wires: "same_wire st (take_next_request st)" "same_wire st (run_request r st)" "same_wire st (call_engine env r st)"
    "same_wire st (audio_callback samples r st)" "same_wire st (on_chunk r xs st)" "same_wire st (terminalize r res st)"
    "same_wire st (release_request r res st)" "same_wire st (engine_leave st)" "same_wire st st" for r xs res
    by (simp_all add: same_wire_def take_next_request_def run_request_def call_engine_def audio_callback_def on_chunk_def
        terminalize_def mark_terminal_slot_def release_request_def engine_leave_def Let_def split: list.split option.split)
  ultimately show ?thesis
    using wires [THEN same_wire_stream, OF assms] by (simp add: engine_step_def split: EnginePhase.split)
qed

lemma reachable_stream: "server_reachable jd jp st \<Longrightarrow> stream_inv jd st"
proof (induction rule: server_reachable.induct)
  case (start en session n st)
  then show ?case by (auto simp: new_server_def stream_inv_def split: if_splits)
next
  case (step st step)
  have wires: "same_wire st (engine_returns qs qf rep st)" "same_wire st (run_end st)" for qs qf rep
    by (simp_all add: same_wire_def engine_returns_def engine_return_def run_end_def split: EnginePhase.split)
  show ?case
    using step.IH wires [THEN same_wire_stream, OF step.IH]
    by (simp add: server_step.simps stream_reader_step stream_engine_step stream_writer_round split: ServerStep.split)
qed

text \<open>C6. The standard output is a stream of frames: however the receiver cuts the bytes the worker has
  written, its parser delivers a prefix of the messages the worker has sent, each in its frame and in
  order, also when a write has failed in the middle of a frame; once everything queued is written, it
  delivers all of them.\<close>

theorem worker_output_parses:
  assumes "server_reachable jd jp st" and "concat ds = sv_stdout st"
  shows "prefix (fst (parser_receive ds new_parser)) (map (wire_item jd) (sv_sent st)) \<and>
     (\<not> sv_failed st \<and> sv_queue st = [] \<longrightarrow>
        fst (parser_receive ds new_parser) = map (wire_item jd) (sv_sent st))"
proof -
  let ?fs = "map (wire_item jd) (sv_sent st)"
  have inv: "\<forall>f\<in>set ?fs. transmittable f" "prefix (sv_stdout st) (concat (map frame_bytes ?fs))"
    "\<not> sv_failed st \<Longrightarrow> sv_stdout st @ concat (sv_queue st) = concat (map frame_bytes ?fs)"
    using reachable_stream [OF assms(1)] by (simp_all add: stream_inv_def Let_def comp_def)
  have rec: "fst (parser_receive ds new_parser) = fst (frames_of (sv_stdout st))"
    using parser_receive_refines [of new_parser ds] assms(2)
    by (simp add: drained_def frames_of.simps [of "[]"] next_frame_Nil) (metis fst_conv)
  obtain rest where "concat (map frame_bytes ?fs) = sv_stdout st @ rest" using inv(2) by (auto simp: prefix_def)
  then have "?fs = fst (frames_of (sv_stdout st)) @ fst (frames_from (snd (frames_of (sv_stdout st))) rest)"
    using frames_of_append [of "sv_stdout st" rest] frames_of_frame_bytes [OF inv(1)] by (simp add: split_beta Let_def)
  then have "prefix (fst (frames_of (sv_stdout st))) ?fs" by (metis prefixI)
  moreover have "fst (frames_of (sv_stdout st)) = ?fs" if "\<not> sv_failed st" "sv_queue st = []"
    using inv(3) that frames_of_frame_bytes [OF inv(1)] by simp
  ultimately show ?thesis using rec by simp
qed


lemma write_stdout_frame_completes:
  "list_all (\<lambda>(ok, n). ok \<and> 0 < n) calls \<Longrightarrow> length fr - off \<le> length calls \<Longrightarrow> off \<le> length fr \<Longrightarrow>
     write_stdout_frame calls off fr = Some \<lparr>wr_success = True, wr_bytes_written = length fr\<rparr>"
proof (induction calls off fr rule: write_stdout_frame.induct)
  case (1 calls off fr)
  show ?case
  proof (cases "length fr \<le> off")
    case True
    then show ?thesis using "1.prems" by (simp add: write_stdout_frame.simps [of calls])
  next
    case False
    then obtain n rest where c: "calls = (True, n) # rest" "0 < n"
      using "1.prems" by (cases calls) (auto split: prod.splits)
    let ?w = "min n (min (length fr - off) (2 ^ 32 - 1))"
    have w: "0 < ?w" "off + ?w \<le> length fr" using False c(2) by auto
    then have "write_stdout_frame rest (off + ?w) fr = Some \<lparr>wr_success = True, wr_bytes_written = length fr\<rparr>"
      using "1.IH" [of "(True, n)" rest True n ?w] False c "1.prems" by auto
    then show ?thesis using False c w by (simp add: write_stdout_frame.simps [of "(True, n) # rest"] Let_def)
  qed
qed

theorem worker_output_parses_witness:
  "\<exists>st. server_reachable worker_dump worker_parse st \<and>
     fst (parser_receive [sv_stdout st] new_parser) = [wire_item worker_dump (SendControl 0 worker_ready_message)]"
proof -
  obtain p where r: "server_reachable worker_dump worker_parse (ready_state p)" using ready_worker by blast
  let ?calls = "replicate (length (reply_bytes 0)) (True, 1)"
  let ?st = "server_step worker_dump worker_parse (WriterStep ?calls) (ready_state p)"
  have "write_stdout_frame ?calls 0 (reply_bytes 0) = Some \<lparr>wr_success = True, wr_bytes_written = length (reply_bytes 0)\<rparr>"
    by (rule write_stdout_frame_completes) (simp_all add: list_all_iff)
  then have "sv_queue ?st = []" "\<not> sv_failed ?st" "sv_sent ?st = [SendControl 0 worker_ready_message]"
    by (simp_all add: ready_state_def server_step.simps writer_round_def Let_def)
  then show ?thesis
    using worker_output_parses [OF server_reachable.step [OF r, of "WriterStep ?calls"], of "[sv_stdout ?st]"]
      server_reachable.step [OF r, of "WriterStep ?calls"] by auto
qed

section \<open>Samples\<close>

lemma lrint_of_int: "lrint (of_int i) = i"
  by (simp add: lrint_def Let_def)

lemma s16_of_sample_int:
  assumes "- 32768 \<le> i" and "i < 32768"
  shows "s16_of_sample (Finite (of_int i / 32768)) = word_of_int i"
proof -
  have "(of_int i / 32768 :: rat) \<le> - 1 \<longleftrightarrow> of_int i \<le> (of_int (- 32768) :: rat)" by (simp add: divide_le_eq)
  then have "(of_int i / 32768 :: rat) \<le> - 1 \<longleftrightarrow> i \<le> - 32768" by (simp only: of_int_le_iff)
  moreover have "\<not> (1 :: rat) \<le> of_int i / 32768" using assms(2) by (simp add: le_divide_eq)
  moreover have "lrint (of_int i / 32768 * 32768) = i" using lrint_of_int [of i] by simp
  ultimately show ?thesis using assms by (auto simp: s16_of_sample_def Let_def)
qed

lemma s16_of_sample_exact [simp]: "s16_of_sample (Finite (signed w / 32768)) = w" for w :: u16
  using s16_of_sample_int [of "sint w"] sint_greater_eq [of w] sint_less [of w] by simp

text \<open>Converting 16-bit samples to floating point and back gives the same bytes: the worker's output
  conversion inverts the decoding of a PCM16 file on every sample value, the extremes included.\<close>

theorem pcm16_samples_survive:
  "even (length bs) \<Longrightarrow> float_pcm_to_s16le (Some (map Finite (pcm16_samples bs))) = bs"
proof (induction bs rule: pcm16_samples.induct)
  case (1 a b bs)
  have "put_u16_le (read_u16 [a, b]) = [a, b]" using wav_u16.write_of_read [of "[a, b]"] by simp
  moreover have "float_pcm_to_s16le (Some (map Finite (pcm16_samples (a # b # bs)))) =
      put_u16_le (read_u16 [a, b]) @ float_pcm_to_s16le (Some (map Finite (pcm16_samples bs)))"
    by (simp add: float_pcm_to_s16le_def put_u16_le_def)
  ultimately show ?case using 1 by simp
qed (simp_all add: float_pcm_to_s16le_def)

theorem pcm16_samples_survive_witness:
  "float_pcm_to_s16le (Some (map Finite (pcm16_samples [0x00, 0x80, 0xff, 0x7f]))) = [0x00, 0x80, 0xff, 0x7f]"
  by (rule pcm16_samples_survive) simp


section \<open>Behaviour outside the protocol document\<close>

text \<open>\<open>handle_synthesize\<close> publishes the slot to the engine thread before it announces the request, so that
  \<open>queued\<close> can reach the client after \<open>started\<close>; the document has no transition from running to queued.\<close>

lemma queued_can_follow_started:
  "\<exists>st. server_reachable worker_dump worker_parse st \<and>
     sv_sent st = [SendControl 0 worker_ready_message, SendControl 5 started_message, SendControl 5 queued_message]"
  using queued_worker started_before_queued server_reachable_run by metis

text \<open>The error code of a refused request is chosen by searching the text of the exception, which for an
  unknown voice contains the voice's identifier.\<close>

lemma unknown_voice_reported_as_format:
  "sv_reader_out (handle_synthesize 5 (sample_synthesize\<lparr>sy_voice_id := ''output''\<rparr>) sample_server) =
     [SendError 5 \<lparr>category = ''request_error'', code = ''unsupported_audio_format'',
        err_message = ''unknown native voice_id profile: output''\<rparr>]"
  by (simp add: handle_synthesize_def validate_request_def sample_synthesize_def default_synthesize_def
      default_audio_format_def sample_engine_def reply_error_def reply_def)

text \<open>A reply whose payload exceeds the frame limit throws out of the reader and ends the worker: the
  refusal of an unknown voice repeats the voice's identifier, which came in a frame of the same limit.\<close>

lemma oversized_reply_ends_worker:
  assumes "sv_reader_out st = SendError rid e # rest" and "je_error (encode_error_message jd e) = CCE_None"
    and "length (je_payload (encode_error_message jd e)) > unat max_error_payload_bytes"
    and "\<not> sv_threw st" and "\<not> sv_aborted st" and "sv_reader st = R_Parsing"
  shows "server_step jd jp (ReaderStep bytes) st = st\<lparr>sv_threw := True, sv_reader_out := [], sv_reader := R_Returned\<rparr>"
proof -
  have "\<not> encode_ok (encode_frame ErrorJson rid (je_payload (encode_error_message jd e)))"
    using assms(3)
    by (simp add: encode_frame_def encode_frame_header_ok_iff sendable_def default_header_def max_payload_size_def limit_defs)
  then have "perform_send jd (SendError rid e) st = Some (True, st)"
    using assms(2) by (simp add: server_send_error_def send_frame_def make_frame_def Let_def)
  then show ?thesis
    using assms by (simp add: server_step.simps reader_step_def reader_send_def reader_throws_def)
qed


end
