(* ===== verification/Std_Io_Transport.thy ===== *)
theory Std_Io_Transport
  imports Worker_Session
begin

text \<open>
  \<open>src/qwen_tts_bridge/transport/stdio/std_io_transport.cpp\<close>: the transport that starts the worker
  process and moves bytes over its pipes. Five kinds of threads take part: callers of \<open>start\<close> and
  \<open>stop\<close>, which hold the lifecycle mutex; callers of \<open>send\<close>; the reader threads of the process
  library; the thread that waits for the process to exit; the callback thread, which runs the
  handlers. Every critical section, blocking wait and call into the process library is a step of the
  transport record; a step that has to wait is not enabled (\<open>None\<close>). The process library
  (tiny-process) and the user's handlers are the environment: their answers are arguments of the
  steps and the handlers' invocations are a log.
\<close>

section \<open>Data\<close>

datatype ProcessState = PS_Stopped | PS_Starting | PS_Running | PS_Stopping

datatype CallbackEventType = CB_Receive | CB_Error | CB_Exit | CB_Stderr

record CallbackEvent =
  ce_type :: CallbackEventType
  ce_bytes :: "byte list"
  ce_message :: string
  ce_exit_status :: int

type_synonym environment = "(string \<times> string) list"

record StdIoTransportOptions =
  to_arguments :: "string list"
  to_working_directory :: string
  to_environment :: environment
  max_callback_queue_events :: nat
  max_callback_queue_bytes :: nat
  has_stderr_handler :: bool
  to_environment_overrides :: environment

record TransportHandlers =
  has_receive_handler :: bool
  has_error_handler :: bool
  has_exit_handler :: bool

datatype HandlerCall = HReceive "byte list" | HError string | HExit int | HStderr string

datatype ProcessCall =
    PLaunch "string list" string "environment option"
  | PWrite "byte list"
  | PCloseStdin
  | PKill

text \<open>Where the holder of the lifecycle mutex is; the exit thread; the callback thread. A callback
  thread whose handler has called \<open>stop\<close> is \<open>CT_InStop\<close> until that call returns.\<close>

datatype LifecyclePc =
    PcIdle
  | PcStartJoinExit TransportHandlers
  | PcStartJoinCallback TransportHandlers
  | PcStartThread
  | PcLaunch
  | PcSpawnExit nat
  | PcFailJoinExit bool string
  | PcFailRequest bool string
  | PcFailJoinCallback bool string
  | PcStopWait
  | PcStopJoinExit
  | PcStopReset
  | PcStopRequest
  | PcStopJoinCallback

datatype ExitThread = ET_None | ET_Waiting nat | ET_Marked int | ET_Done

datatype CallbackThread = CT_None | CT_Idle | CT_Dispatching CallbackEvent | CT_InHandler | CT_InStop | CT_Ended

record StdIoTransport =
  tp_options :: StdIoTransportOptions
  tp_state :: ProcessState
  tp_process :: "nat option"
  tp_exited :: bool
  tp_exit_status :: int
  tp_handlers :: TransportHandlers
  tp_events :: "CallbackEvent list"
  tp_queued_bytes :: nat
  tp_stop_requested :: bool
  tp_accepting :: bool
  tp_overflowed :: bool
  tp_exit_thread :: ExitThread
  tp_callback_thread :: CallbackThread
  tp_pc :: LifecyclePc
  tp_pc_by_callback :: bool
  tp_senders :: "nat list"
  tp_kill_pending :: bool
  tp_state_mutex_stuck :: bool
  tp_next_process :: nat
  tp_handler_log :: "HandlerCall list"
  tp_start_errors :: "string list"
  tp_process_log :: "ProcessCall list"

definition no_handlers :: TransportHandlers where
  "no_handlers = \<lparr>has_receive_handler = False, has_error_handler = False, has_exit_handler = False\<rparr>"

definition new_transport :: "StdIoTransportOptions \<Rightarrow> StdIoTransport" where
  "new_transport options =
     \<lparr>tp_options = options, tp_state = PS_Stopped, tp_process = None, tp_exited = False,
      tp_exit_status = - 1, tp_handlers = no_handlers, tp_events = [], tp_queued_bytes = 0,
      tp_stop_requested = False, tp_accepting = False, tp_overflowed = False, tp_exit_thread = ET_None,
      tp_callback_thread = CT_None, tp_pc = PcIdle, tp_pc_by_callback = False, tp_senders = [],
      tp_kill_pending = False, tp_state_mutex_stuck = False, tp_next_process = 0, tp_handler_log = [],
      tp_start_errors = [], tp_process_log = []\<rparr>"

section \<open>The environment of the process\<close>

text \<open>\<open>environment_key_equals\<close> is equality on POSIX and an ordinal comparison without case on
  Windows; it is the argument \<open>eq\<close>.\<close>

definition set_environment_override ::
  "(string \<Rightarrow> string \<Rightarrow> bool) \<Rightarrow> environment \<Rightarrow> string \<Rightarrow> string \<Rightarrow> environment" where
  "set_environment_override eq env name v =
     (let kept = filter (\<lambda>p. \<not> eq (fst p) name) env in
      if name \<in> set (map fst kept) then kept else kept @ [(name, v)])"

definition find_from :: "nat \<Rightarrow> char \<Rightarrow> string \<Rightarrow> nat option" where
  "find_from start c item =
     (let rest = takeWhile (\<lambda>x. x \<noteq> c) (drop start item) in
      if start + length rest < length item then Some (start + length rest) else None)"

text \<open>An entry \<open>name=value\<close> of the inherited block. On Windows the search for the separator starts at
  the second character, so that the hidden entries that begin with the separator keep their names.\<close>

definition split_environment_entry :: "nat \<Rightarrow> string \<Rightarrow> (string \<times> string) option" where
  "split_environment_entry start item =
     (case find_from start (CHR ''='') item of
        None \<Rightarrow> None
      | Some separator \<Rightarrow> Some (take separator item, drop (separator + 1) item))"

fun current_process_environment :: "nat \<Rightarrow> string list \<Rightarrow> environment \<Rightarrow> environment" where
  "current_process_environment start [] env = env"
| "current_process_environment start (item # items) env =
     current_process_environment start items
       (case split_environment_entry start item of
          None \<Rightarrow> env
        | Some (name, v) \<Rightarrow> if name \<in> set (map fst env) then env else env @ [(name, v)])"

definition merged_process_environment ::
  "(string \<Rightarrow> string \<Rightarrow> bool) \<Rightarrow> environment \<Rightarrow> environment \<Rightarrow> environment" where
  "merged_process_environment eq inherited overrides =
     fold (\<lambda>p env. set_environment_override eq env (fst p) (snd p)) overrides inherited"

text \<open>\<open>None\<close>: the process inherits the environment.\<close>

definition launch_environment ::
  "(string \<Rightarrow> string \<Rightarrow> bool) \<Rightarrow> environment \<Rightarrow> StdIoTransportOptions \<Rightarrow> environment option" where
  "launch_environment eq inherited options =
     (if to_environment options = [] \<and> to_environment_overrides options = [] then None
      else Some (if to_environment options = []
                 then merged_process_environment eq inherited (to_environment_overrides options)
                 else to_environment options))"

section \<open>The callback queue\<close>

definition callback_event_payload_size :: "CallbackEvent \<Rightarrow> nat" where
  "callback_event_payload_size ev = length (ce_bytes ev) + length (ce_message ev)"

definition default_callback_event :: CallbackEvent where
  "default_callback_event = \<lparr>ce_type = CB_Error, ce_bytes = [], ce_message = '''', ce_exit_status = - 1\<rparr>"

definition would_overflow_regular_callback_queue :: "CallbackEvent \<Rightarrow> StdIoTransport \<Rightarrow> bool" where
  "would_overflow_regular_callback_queue ev t \<longleftrightarrow>
     (let event_size = callback_event_payload_size ev in
      length (tp_events t) \<ge> max_callback_queue_events (tp_options t) \<or>
      event_size > max_callback_queue_bytes (tp_options t) \<or>
      tp_queued_bytes t > max_callback_queue_bytes (tp_options t) - event_size)"

definition make_callback_queue_overflow_error :: CallbackEvent where
  "make_callback_queue_overflow_error =
     default_callback_event\<lparr>ce_type := CB_Error, ce_message := ''stdio transport callback queue overflow''\<rparr>"

definition enqueue_callback_event_locked :: "CallbackEvent \<Rightarrow> StdIoTransport \<Rightarrow> StdIoTransport" where
  "enqueue_callback_event_locked ev t =
     t\<lparr>tp_queued_bytes := tp_queued_bytes t + callback_event_payload_size ev, tp_events := tp_events t @ [ev]\<rparr>"

text \<open>The section of \<open>enqueue_event\<close> under the callback mutex; the flag asks the caller to stop the
  process after it.\<close>

definition enqueue_event :: "CallbackEvent \<Rightarrow> StdIoTransport \<Rightarrow> bool \<times> StdIoTransport" where
  "enqueue_event ev t =
     (if \<not> tp_accepting t then (False, t)
      else if tp_overflowed t \<and> ce_type ev \<noteq> CB_Exit then (False, t)
      else if ce_type ev \<noteq> CB_Exit \<and> would_overflow_regular_callback_queue ev t then
        (if \<not> tp_overflowed t
         then (True, enqueue_callback_event_locked make_callback_queue_overflow_error (t\<lparr>tp_overflowed := True\<rparr>))
         else (False, t))
      else (False, enqueue_callback_event_locked ev t))"

text \<open>The front of the queue; the byte counter is an unsigned 64-bit number.\<close>

definition pop_callback_event :: "StdIoTransport \<Rightarrow> (CallbackEvent \<times> StdIoTransport) option" where
  "pop_callback_event t =
     (case tp_events t of
        [] \<Rightarrow> None
      | ev # evs \<Rightarrow>
          Some (ev, t\<lparr>tp_events := evs,
            tp_queued_bytes :=
              (if callback_event_payload_size ev \<le> tp_queued_bytes t
               then tp_queued_bytes t - callback_event_payload_size ev
               else tp_queued_bytes t + 2 ^ 64 - callback_event_payload_size ev)\<rparr>))"

interpretation callback_queue:
  accounted_queue tp_events tp_queued_bytes callback_event_payload_size enqueue_callback_event_locked
    pop_callback_event
  by unfold_locales (auto simp: enqueue_callback_event_locked_def pop_callback_event_def)

text \<open>\<open>post_event\<close>: \<open>enqueue_event\<close> from a thread that does not hold the state mutex; the stop of the
  process it may ask for is a step of its own.\<close>

definition post_event :: "CallbackEvent \<Rightarrow> StdIoTransport \<Rightarrow> StdIoTransport" where
  "post_event ev t =
     (let (should_stop, t') = enqueue_event ev t in
      if should_stop then t'\<lparr>tp_kill_pending := True\<rparr> else t')"

definition error_event :: "string \<Rightarrow> CallbackEvent" where
  "error_event m = default_callback_event\<lparr>ce_type := CB_Error, ce_message := m\<rparr>"

definition report_error :: "string \<Rightarrow> StdIoTransport \<Rightarrow> StdIoTransport" where
  "report_error m t = post_event (error_event m) t"

text \<open>\<open>report_error\<close> from a thread that holds the state mutex: when the queue overflows,
  \<open>stop_after_callback_queue_overflow\<close> locks that mutex again and the thread never goes on.\<close>

definition report_error_locked :: "string \<Rightarrow> StdIoTransport \<Rightarrow> StdIoTransport" where
  "report_error_locked m t =
     (let (should_stop, t') = enqueue_event (error_event m) t in
      if should_stop then t'\<lparr>tp_state_mutex_stuck := True\<rparr> else t')"

definition handle_stdout :: "byte list \<Rightarrow> StdIoTransport \<Rightarrow> StdIoTransport" where
  "handle_stdout bytes t =
     (if bytes = [] then t
      else post_event (default_callback_event\<lparr>ce_type := CB_Receive, ce_bytes := bytes\<rparr>) t)"

definition handle_stderr :: "string \<Rightarrow> StdIoTransport \<Rightarrow> StdIoTransport" where
  "handle_stderr chars t =
     (if chars = [] \<or> \<not> has_stderr_handler (tp_options t) then t
      else post_event (default_callback_event\<lparr>ce_type := CB_Stderr, ce_message := chars\<rparr>) t)"

definition request_callback_thread_stop :: "StdIoTransport \<Rightarrow> StdIoTransport" where
  "request_callback_thread_stop t = t\<lparr>tp_accepting := False, tp_stop_requested := True\<rparr>"

definition stop_after_callback_queue_overflow :: "StdIoTransport \<Rightarrow> StdIoTransport" where
  "stop_after_callback_queue_overflow t =
     t\<lparr>tp_state := (if tp_state t = PS_Running \<or> tp_state t = PS_Starting then PS_Stopping else tp_state t),
       tp_process_log := tp_process_log t @ (if tp_process t = None then [] else [PKill])\<rparr>"

section \<open>Starting\<close>

text \<open>The checks of \<open>start\<close> up to the first wait. The error handler given to \<open>start\<close> is called directly.\<close>

definition call_error :: "bool \<Rightarrow> string \<Rightarrow> StdIoTransport \<Rightarrow> StdIoTransport" where
  "call_error present m t = (if present then t\<lparr>tp_start_errors := tp_start_errors t @ [m]\<rparr> else t)"

definition start_begin :: "bool \<Rightarrow> TransportHandlers \<Rightarrow> StdIoTransport \<Rightarrow> StdIoTransport" where
  "start_begin by_callback h t =
     (if to_arguments (tp_options t) = [] then
        call_error (has_error_handler h) ''stdio transport requires at least one process argument'' t
      else if max_callback_queue_events (tp_options t) = 0 \<or> max_callback_queue_bytes (tp_options t) = 0 then
        call_error (has_error_handler h) ''stdio transport callback queue limits must be greater than zero'' t
      else if by_callback then
        call_error (has_error_handler h) ''stdio transport cannot be started from a transport callback'' t
      else if tp_state t \<noteq> PS_Stopped \<or> tp_process t \<noteq> None then
        call_error (has_error_handler h) ''stdio transport is already started'' t
      else t\<lparr>tp_pc := PcStartJoinExit h, tp_pc_by_callback := False\<rparr>)"

text \<open>Joining waits until the thread has ended; a thread that was never started, or has been joined,
  is not waited for. Neither \<open>start\<close> nor \<open>stop\<close> runs on the exit thread, so that its branch that
  detaches itself is never taken.\<close>

definition join_exit_thread :: "StdIoTransport \<Rightarrow> StdIoTransport option" where
  "join_exit_thread t =
     (case tp_exit_thread t of ET_None \<Rightarrow> Some t | ET_Done \<Rightarrow> Some (t\<lparr>tp_exit_thread := ET_None\<rparr>) | _ \<Rightarrow> None)"

definition join_callback_thread :: "StdIoTransport \<Rightarrow> StdIoTransport option" where
  "join_callback_thread t =
     (case tp_callback_thread t of CT_None \<Rightarrow> Some t | CT_Ended \<Rightarrow> Some (t\<lparr>tp_callback_thread := CT_None\<rparr>)
      | _ \<Rightarrow> None)"

definition start_join_exit :: "TransportHandlers \<Rightarrow> StdIoTransport \<Rightarrow> StdIoTransport option" where
  "start_join_exit h t =
     map_option (\<lambda>t'. (request_callback_thread_stop t')\<lparr>tp_pc := PcStartJoinCallback h\<rparr>) (join_exit_thread t)"

definition start_join_callback :: "TransportHandlers \<Rightarrow> StdIoTransport \<Rightarrow> StdIoTransport option" where
  "start_join_callback h t =
     map_option (\<lambda>t'. t'\<lparr>tp_state := PS_Starting, tp_handlers := h, tp_exited := False, tp_exit_status := - 1,
        tp_pc := PcStartThread\<rparr>) (join_callback_thread t)"

text \<open>\<open>start_callback_thread\<close>; creating the thread may throw.\<close>

definition start_callback_thread :: "string option \<Rightarrow> StdIoTransport \<Rightarrow> StdIoTransport" where
  "start_callback_thread threw t =
     (let t' = t\<lparr>tp_events := [], tp_queued_bytes := 0, tp_overflowed := False, tp_stop_requested := False,
                 tp_accepting := True\<rparr> in
      case threw of
        None \<Rightarrow> t'\<lparr>tp_callback_thread := CT_Idle, tp_pc := PcLaunch\<rparr>
      | Some what \<Rightarrow> t'\<lparr>tp_pc := PcFailJoinExit (has_error_handler (tp_handlers t)) what\<rparr>)"

text \<open>How the construction of the process ends: with the identifier the system assigned, or an
  exception, also of the conversion of the arguments.\<close>

datatype LaunchOutcome = LaunchedAs int | LaunchThrew string

definition is_started_process_id :: "int \<Rightarrow> bool" where
  "is_started_process_id i \<longleftrightarrow> 0 < i"

definition launch ::
  "(string \<Rightarrow> string \<Rightarrow> bool) \<Rightarrow> environment \<Rightarrow> LaunchOutcome \<Rightarrow> StdIoTransport \<Rightarrow> StdIoTransport" where
  "launch eq inherited outcome t =
     (let error_handler = has_error_handler (tp_handlers t) in
      case outcome of
        LaunchThrew what \<Rightarrow> t\<lparr>tp_pc := PcFailJoinExit error_handler what\<rparr>
      | LaunchedAs i \<Rightarrow>
          (let t' = t\<lparr>tp_process_log := tp_process_log t @
                 [PLaunch (to_arguments (tp_options t)) (to_working_directory (tp_options t))
                    (launch_environment eq inherited (tp_options t))]\<rparr> in
           if \<not> is_started_process_id i
           then t'\<lparr>tp_pc := PcFailJoinExit error_handler ''failed to start stdio worker process''\<rparr>
           else t'\<lparr>tp_process := Some (tp_next_process t), tp_state := PS_Running,
                   tp_pc := PcSpawnExit (tp_next_process t), tp_next_process := Suc (tp_next_process t)\<rparr>))"

definition spawn_exit_thread :: "nat \<Rightarrow> string option \<Rightarrow> StdIoTransport \<Rightarrow> StdIoTransport" where
  "spawn_exit_thread process threw t =
     (case threw of
        None \<Rightarrow> t\<lparr>tp_exit_thread := ET_Waiting process, tp_pc := PcIdle\<rparr>
      | Some what \<Rightarrow> t\<lparr>tp_process_log := tp_process_log t @ [PKill],
                       tp_pc := PcFailJoinExit (has_error_handler (tp_handlers t)) what\<rparr>)"

text \<open>The rest of \<open>fail_start\<close>.\<close>

definition fail_join_exit :: "bool \<Rightarrow> string \<Rightarrow> StdIoTransport \<Rightarrow> StdIoTransport option" where
  "fail_join_exit present m t = map_option (\<lambda>t'. t'\<lparr>tp_pc := PcFailRequest present m\<rparr>) (join_exit_thread t)"

definition fail_start_request :: "bool \<Rightarrow> string \<Rightarrow> StdIoTransport \<Rightarrow> StdIoTransport" where
  "fail_start_request present m t = (request_callback_thread_stop t)\<lparr>tp_pc := PcFailJoinCallback present m\<rparr>"

definition fail_join_callback :: "bool \<Rightarrow> string \<Rightarrow> StdIoTransport \<Rightarrow> StdIoTransport option" where
  "fail_join_callback present m t =
     map_option (\<lambda>t'. call_error present m
        (t'\<lparr>tp_process := None, tp_state := PS_Stopped, tp_exited := False, tp_handlers := no_handlers,
            tp_pc := PcIdle\<rparr>)) (join_callback_thread t)"

section \<open>Stopping\<close>

definition stop_begin :: "bool \<Rightarrow> bool \<Rightarrow> StdIoTransport \<Rightarrow> StdIoTransport" where
  "stop_begin by_callback write_idle t =
     (let t' = t\<lparr>tp_pc_by_callback := by_callback,
                 tp_state := (if tp_state t = PS_Running \<or> tp_state t = PS_Starting then PS_Stopping
                              else tp_state t)\<rparr> in
      if tp_process t = None then t'\<lparr>tp_pc := PcStopReset\<rparr>
      else t'\<lparr>tp_process_log := tp_process_log t @ (if write_idle then [PCloseStdin] else []),
              tp_pc := PcStopWait\<rparr>)"

text \<open>\<open>wait_for_process_or_kill\<close>: the wait ends when the process has exited or the timeout is over.\<close>

definition stop_wait :: "bool \<Rightarrow> StdIoTransport \<Rightarrow> StdIoTransport option" where
  "stop_wait timed_out t =
     (if timed_out = tp_exited t then None
      else Some (t\<lparr>tp_process_log := tp_process_log t @ (if timed_out then [PKill] else []),
                   tp_pc := PcStopJoinExit\<rparr>))"

definition stop_join_exit :: "StdIoTransport \<Rightarrow> StdIoTransport option" where
  "stop_join_exit t = map_option (\<lambda>t'. t'\<lparr>tp_pc := PcStopReset\<rparr>) (join_exit_thread t)"

definition stop_reset :: "StdIoTransport \<Rightarrow> StdIoTransport" where
  "stop_reset t = t\<lparr>tp_process := None, tp_state := PS_Stopped, tp_pc := PcStopRequest\<rparr>"

definition stop_request :: "StdIoTransport \<Rightarrow> StdIoTransport" where
  "stop_request t =
     (let t' = request_callback_thread_stop t in
      if tp_pc_by_callback t then t'\<lparr>tp_callback_thread := CT_InHandler, tp_pc := PcIdle\<rparr>
      else t'\<lparr>tp_pc := PcStopJoinCallback\<rparr>)"

definition stop_join_callback :: "StdIoTransport \<Rightarrow> StdIoTransport option" where
  "stop_join_callback t =
     map_option (\<lambda>t'. t'\<lparr>tp_handlers := no_handlers, tp_pc := PcIdle\<rparr>) (join_callback_thread t)"

section \<open>Sending\<close>

text \<open>\<open>send\<close> up to the write mutex: a result, or the process the sender goes on with.\<close>

definition send_check :: "bool \<Rightarrow> byte list \<Rightarrow> StdIoTransport \<Rightarrow> SendResult option \<times> StdIoTransport" where
  "send_check null_data data t =
     (if null_data \<and> data \<noteq> [] then
        (Some SendFailed, report_error ''cannot send a non-zero byte count from a null pointer'' t)
      else if data = [] then (Some Accepted, t)
      else (case (if tp_state t = PS_Running \<and> \<not> tp_exited t then tp_process t else None) of
              None \<Rightarrow> (Some Closed, report_error ''stdio transport is not running'' t)
            | Some process \<Rightarrow> (None, t\<lparr>tp_senders := tp_senders t @ [process]\<rparr>)))"

datatype WriteAnswer = WriteOk | WriteFalse | WriteThrew string

text \<open>\<open>send\<close> under the write mutex: the state is checked again, and the state mutex is still held when
  a refusal is reported.\<close>

definition send_locked ::
  "nat \<Rightarrow> byte list \<Rightarrow> WriteAnswer \<Rightarrow> StdIoTransport \<Rightarrow> SendResult \<times> StdIoTransport" where
  "send_locked i data answer t =
     (let process = tp_senders t ! i;
          t' = t\<lparr>tp_senders := take i (tp_senders t) @ drop (Suc i) (tp_senders t)\<rparr> in
      if tp_state t \<noteq> PS_Running \<or> tp_process t \<noteq> Some process \<or> tp_exited t then
        (Closed, report_error_locked ''stdio transport is not running'' t')
      else
        (let t'' = t'\<lparr>tp_process_log := tp_process_log t @ [PWrite data]\<rparr> in
         case answer of
           WriteOk \<Rightarrow> (Accepted, t'')
         | WriteFalse \<Rightarrow> (SendFailed, report_error ''failed to write bytes to worker stdin'' t'')
         | WriteThrew what \<Rightarrow>
             (SendFailed, report_error (if what = [] then ''failed to write bytes to worker stdin'' else what) t'')))"

definition transport_is_running :: "StdIoTransport \<Rightarrow> bool" where
  "transport_is_running t \<longleftrightarrow> tp_state t = PS_Running \<and> tp_process t \<noteq> None \<and> \<not> tp_exited t"

section \<open>The exit thread and the callback thread\<close>

text \<open>\<open>watch_process_exit\<close>: after \<open>get_exit_status\<close> has returned, one section under the state mutex
  and one event.\<close>

definition watch_process_exit :: "nat \<Rightarrow> int \<Rightarrow> StdIoTransport \<Rightarrow> StdIoTransport" where
  "watch_process_exit process st t =
     t\<lparr>tp_exit_status := st, tp_exited := True,
       tp_state := (if tp_process t = Some process \<and> tp_state t \<noteq> PS_Stopped then PS_Stopped else tp_state t),
       tp_exit_thread := ET_Marked st\<rparr>"

definition exit_event :: "int \<Rightarrow> CallbackEvent" where
  "exit_event st = default_callback_event\<lparr>ce_type := CB_Exit, ce_exit_status := st\<rparr>"

definition queue_exit :: "int \<Rightarrow> StdIoTransport \<Rightarrow> StdIoTransport" where
  "queue_exit st t = (post_event (exit_event st) t)\<lparr>tp_exit_thread := ET_Done\<rparr>"

text \<open>One wake-up of \<open>callback_loop\<close>; it waits while the queue is empty and no stop is requested.\<close>

definition callback_pop :: "StdIoTransport \<Rightarrow> StdIoTransport option" where
  "callback_pop t =
     (case pop_callback_event t of
        None \<Rightarrow> if tp_stop_requested t then Some (t\<lparr>tp_callback_thread := CT_Ended\<rparr>) else None
      | Some (ev, t') \<Rightarrow> Some (t'\<lparr>tp_callback_thread := CT_Dispatching ev\<rparr>))"

definition handler_call :: "CallbackEvent \<Rightarrow> StdIoTransport \<Rightarrow> HandlerCall list" where
  "handler_call ev t =
     (case ce_type ev of
        CB_Receive \<Rightarrow> if has_receive_handler (tp_handlers t) then [HReceive (ce_bytes ev)] else []
      | CB_Error \<Rightarrow> if has_error_handler (tp_handlers t) then [HError (ce_message ev)] else []
      | CB_Exit \<Rightarrow> if has_exit_handler (tp_handlers t) then [HExit (ce_exit_status ev)] else []
      | CB_Stderr \<Rightarrow> if has_stderr_handler (tp_options t) then [HStderr (ce_message ev)] else [])"

definition dispatch_event :: "CallbackEvent \<Rightarrow> StdIoTransport \<Rightarrow> StdIoTransport" where
  "dispatch_event ev t =
     t\<lparr>tp_handler_log := tp_handler_log t @ handler_call ev t, tp_callback_thread := CT_InHandler\<rparr>"

section \<open>Steps\<close>

datatype TransportAction =
    StartBegin bool TransportHandlers
  | StartJoinExit
  | StartJoinCallback
  | StartThread "string option"
  | Launch environment LaunchOutcome
  | SpawnExit "string option"
  | FailJoinExit
  | FailRequest
  | FailJoinCallback
  | StopBegin bool bool
  | StopWait bool
  | StopJoinExit
  | StopReset
  | StopRequest
  | StopJoinCallback
  | SendCheck bool "byte list"
  | SendLocked nat "byte list" WriteAnswer
  | ReadStdout "byte list"
  | ReadStderr string
  | ExitReturned int
  | ExitQueue
  | OverflowKill
  | CallbackPop
  | CallbackDispatch
  | CallbackCallsStop
  | CallbackReturns

text \<open>A handler on the callback thread may call \<open>stop\<close>: the thread is then in \<open>CT_InStop\<close>, waiting for
  the lifecycle mutex (\<open>StopBegin True\<close> takes it) or running the steps of \<open>stop\<close> itself. Steps that
  take the state mutex are not enabled once a thread is stuck with it.\<close>

fun transport_step ::
  "(string \<Rightarrow> string \<Rightarrow> bool) \<Rightarrow> TransportAction \<Rightarrow> StdIoTransport \<Rightarrow> StdIoTransport option" where
  "transport_step eq (StartBegin by_callback h) t =
     (if tp_pc t = PcIdle \<and> \<not> tp_state_mutex_stuck t \<and> (by_callback \<longrightarrow> tp_callback_thread t = CT_InHandler)
      then Some (start_begin by_callback h t) else None)"
| "transport_step eq StartJoinExit t =
     (case tp_pc t of PcStartJoinExit h \<Rightarrow> start_join_exit h t | _ \<Rightarrow> None)"
| "transport_step eq StartJoinCallback t =
     (case tp_pc t of PcStartJoinCallback h \<Rightarrow> if tp_state_mutex_stuck t then None else start_join_callback h t
      | _ \<Rightarrow> None)"
| "transport_step eq (StartThread threw) t =
     (if tp_pc t = PcStartThread then Some (start_callback_thread threw t) else None)"
| "transport_step eq (Launch inherited outcome) t =
     (if tp_pc t = PcLaunch \<and> \<not> tp_state_mutex_stuck t then Some (launch eq inherited outcome t) else None)"
| "transport_step eq (SpawnExit threw) t =
     (case tp_pc t of PcSpawnExit process \<Rightarrow>
        if tp_state_mutex_stuck t \<and> threw \<noteq> None then None else Some (spawn_exit_thread process threw t)
      | _ \<Rightarrow> None)"
| "transport_step eq FailJoinExit t =
     (case tp_pc t of PcFailJoinExit present m \<Rightarrow> fail_join_exit present m t | _ \<Rightarrow> None)"
| "transport_step eq FailRequest t =
     (case tp_pc t of PcFailRequest present m \<Rightarrow> Some (fail_start_request present m t) | _ \<Rightarrow> None)"
| "transport_step eq FailJoinCallback t =
     (case tp_pc t of PcFailJoinCallback present m \<Rightarrow>
        if tp_state_mutex_stuck t then None else fail_join_callback present m t
      | _ \<Rightarrow> None)"
| "transport_step eq (StopBegin by_callback write_idle) t =
     (if tp_pc t = PcIdle \<and> \<not> tp_state_mutex_stuck t \<and> (by_callback \<longrightarrow> tp_callback_thread t = CT_InStop)
      then Some (stop_begin by_callback write_idle t) else None)"
| "transport_step eq (StopWait timed_out) t =
     (if tp_pc t = PcStopWait \<and> \<not> tp_state_mutex_stuck t then stop_wait timed_out t else None)"
| "transport_step eq StopJoinExit t = (if tp_pc t = PcStopJoinExit then stop_join_exit t else None)"
| "transport_step eq StopReset t =
     (if tp_pc t = PcStopReset \<and> \<not> tp_state_mutex_stuck t then Some (stop_reset t) else None)"
| "transport_step eq StopRequest t = (if tp_pc t = PcStopRequest then Some (stop_request t) else None)"
| "transport_step eq StopJoinCallback t =
     (if tp_pc t = PcStopJoinCallback \<and> \<not> tp_state_mutex_stuck t then stop_join_callback t else None)"
| "transport_step eq (SendCheck null_data data) t =
     (if tp_state_mutex_stuck t then None else Some (snd (send_check null_data data t)))"
| "transport_step eq (SendLocked i data answer) t =
     (if i < length (tp_senders t) \<and> \<not> tp_state_mutex_stuck t then Some (snd (send_locked i data answer t)) else None)"
| "transport_step eq (ReadStdout bytes) t = Some (handle_stdout bytes t)"
| "transport_step eq (ReadStderr chars) t = Some (handle_stderr chars t)"
| "transport_step eq (ExitReturned st) t =
     (case tp_exit_thread t of ET_Waiting process \<Rightarrow>
        if tp_state_mutex_stuck t then None else Some (watch_process_exit process st t)
      | _ \<Rightarrow> None)"
| "transport_step eq ExitQueue t =
     (case tp_exit_thread t of ET_Marked st \<Rightarrow> Some (queue_exit st t) | _ \<Rightarrow> None)"
| "transport_step eq OverflowKill t =
     (if tp_kill_pending t \<and> \<not> tp_state_mutex_stuck t
      then Some ((stop_after_callback_queue_overflow t)\<lparr>tp_kill_pending := False\<rparr>) else None)"
| "transport_step eq CallbackPop t = (if tp_callback_thread t = CT_Idle then callback_pop t else None)"
| "transport_step eq CallbackDispatch t =
     (case tp_callback_thread t of CT_Dispatching ev \<Rightarrow>
        if tp_state_mutex_stuck t \<and> ce_type ev \<noteq> CB_Stderr then None else Some (dispatch_event ev t)
      | _ \<Rightarrow> None)"
| "transport_step eq CallbackCallsStop t =
     (if tp_callback_thread t = CT_InHandler then Some (t\<lparr>tp_callback_thread := CT_InStop\<rparr>) else None)"
| "transport_step eq CallbackReturns t =
     (if tp_callback_thread t = CT_InHandler then Some (t\<lparr>tp_callback_thread := CT_Idle\<rparr>) else None)"

fun transport_run ::
  "(string \<Rightarrow> string \<Rightarrow> bool) \<Rightarrow> TransportAction list \<Rightarrow> StdIoTransport \<Rightarrow> StdIoTransport option" where
  "transport_run eq [] t = Some t"
| "transport_run eq (a # acts) t = Option.bind (transport_step eq a t) (transport_run eq acts)"

end
