(* ===== verification/Transport_Invariants.thy ===== *)
theory Transport_Invariants
  imports Std_Io_Transport "HOL-Library.Sublist"
begin

text \<open>
  Invariants of the standard I/O transport: the bounds and the accounting of the callback queue in
  every reachable state, and how the lifecycle operations, the exit thread and the callback thread
  stand to each other during one lifetime of the process.
\<close>

section \<open>Projections of the elementary updates\<close>

lemmas queue_defs = enqueue_event_def enqueue_callback_event_locked_def Let_def

lemma post_event_cases:
  "post_event ev t =
     (if \<not> tp_accepting t \<or> (ce_type ev \<noteq> CB_Exit \<and> tp_overflowed t) then t
      else if ce_type ev \<noteq> CB_Exit \<and> would_overflow_regular_callback_queue ev t
      then (enqueue_callback_event_locked make_callback_queue_overflow_error (t\<lparr>tp_overflowed := True\<rparr>))
             \<lparr>tp_kill_pending := True\<rparr>
      else enqueue_callback_event_locked ev t)"
  by (simp add: post_event_def enqueue_event_def)

lemma report_error_locked_cases:
  "report_error_locked m t =
     (if \<not> tp_accepting t \<or> tp_overflowed t then t
      else if would_overflow_regular_callback_queue (error_event m) t
      then (enqueue_callback_event_locked make_callback_queue_overflow_error (t\<lparr>tp_overflowed := True\<rparr>))
             \<lparr>tp_state_mutex_stuck := True\<rparr>
      else enqueue_callback_event_locked (error_event m) t)"
  by (simp add: report_error_locked_def enqueue_event_def error_event_def default_callback_event_def)

text \<open>Every step that posts an event is \<open>posts\<close> on the part of the record the properties look at.\<close>

definition same_queue :: "StdIoTransport \<Rightarrow> StdIoTransport \<Rightarrow> bool" where
  "same_queue t t' \<longleftrightarrow> tp_options t' = tp_options t \<and> tp_events t' = tp_events t \<and>
     tp_queued_bytes t' = tp_queued_bytes t \<and> tp_overflowed t' = tp_overflowed t"

section \<open>Bounds of the callback queue\<close>

definition regular_events :: "StdIoTransport \<Rightarrow> CallbackEvent list" where
  "regular_events t = filter (\<lambda>ev. ce_type ev \<noteq> CB_Exit) (tp_events t)"

definition callback_queue_bounded :: "StdIoTransport \<Rightarrow> bool" where
  "callback_queue_bounded t \<longleftrightarrow>
     tp_queued_bytes t = sum_list (map callback_event_payload_size (tp_events t)) \<and>
     length (regular_events t) \<le> max_callback_queue_events (tp_options t) + (if tp_overflowed t then 1 else 0) \<and>
     tp_queued_bytes t \<le> max_callback_queue_bytes (tp_options t) + (if tp_overflowed t then 39 else 0) \<and>
     (\<forall>ev\<in>set (tp_events t). ce_type ev = CB_Exit \<longrightarrow> callback_event_payload_size ev = 0)"

lemma bounded_same_queue: "same_queue t t' \<Longrightarrow> callback_queue_bounded t \<Longrightarrow> callback_queue_bounded t'"
  by (simp add: same_queue_def callback_queue_bounded_def regular_events_def)

lemma bounded_push_overflow:
  "callback_queue_bounded t \<Longrightarrow> \<not> tp_overflowed t \<Longrightarrow>
     callback_queue_bounded (enqueue_callback_event_locked make_callback_queue_overflow_error (t\<lparr>tp_overflowed := True\<rparr>))"
  by (auto simp: callback_queue_bounded_def regular_events_def enqueue_callback_event_locked_def
      make_callback_queue_overflow_error_def default_callback_event_def callback_event_payload_size_def)

lemma bounded_push_regular:
  assumes "callback_queue_bounded t" and "\<not> tp_overflowed t"
    and "\<not> would_overflow_regular_callback_queue ev t" and "ce_type ev \<noteq> CB_Exit"
  shows "callback_queue_bounded (enqueue_callback_event_locked ev t)"
  using assms
  by (auto simp: callback_queue_bounded_def regular_events_def enqueue_callback_event_locked_def
      would_overflow_regular_callback_queue_def Let_def not_le Suc_le_eq
      intro: le_less_trans [OF length_filter_le])

lemma bounded_push_exit:
  "callback_queue_bounded t \<Longrightarrow> callback_queue_bounded (enqueue_callback_event_locked (exit_event st) t)"
  by (auto simp: callback_queue_bounded_def regular_events_def enqueue_callback_event_locked_def
      exit_event_def default_callback_event_def callback_event_payload_size_def)

lemma bounded_post_regular: "callback_queue_bounded t \<Longrightarrow> ce_type ev \<noteq> CB_Exit \<Longrightarrow> callback_queue_bounded (post_event ev t)"
  using bounded_push_overflow [of t] bounded_push_regular [of t ev]
  by (auto simp: post_event_cases intro: bounded_same_queue [rotated] simp: same_queue_def)

lemma bounded_post_exit: "callback_queue_bounded t \<Longrightarrow> callback_queue_bounded (post_event (exit_event st) t)"
  using bounded_push_exit [of t st]
  by (auto simp: post_event_cases exit_event_def default_callback_event_def)

lemma bounded_report_error_locked: "callback_queue_bounded t \<Longrightarrow> callback_queue_bounded (report_error_locked m t)"
  using bounded_push_overflow [of t] bounded_push_regular [of t "error_event m"]
  by (auto simp: report_error_locked_cases error_event_def default_callback_event_def
      intro: bounded_same_queue [rotated] simp: same_queue_def)

lemma regular_event_types [simp]:
  "ce_type (error_event m) = CB_Error" "ce_type make_callback_queue_overflow_error = CB_Error"
  "ce_type (exit_event st) = CB_Exit"
  by (simp_all add: error_event_def make_callback_queue_overflow_error_def exit_event_def default_callback_event_def)

lemmas bounded_posts = bounded_post_regular bounded_post_exit bounded_report_error_locked

lemma bounded_pop:
  assumes "callback_queue_bounded t" and "pop_callback_event t = Some (ev, t')"
  shows "callback_queue_bounded t'"
proof -
  have "callback_queue.accounted t" using assms(1) by (simp add: callback_queue_bounded_def callback_queue.accounted_def)
  note exact = callback_queue.pop_exact [OF this assms(2)]
  have same: "tp_options t' = tp_options t" "tp_overflowed t' = tp_overflowed t"
    using assms(2) by (auto simp: pop_callback_event_def split: list.splits)
  have "length (regular_events t') \<le> length (regular_events t)"
    using exact by (simp add: regular_events_def)
  then show ?thesis
    using assms(1) exact same by (auto simp: callback_queue_bounded_def)
qed

lemma bounded_callback_pop: "callback_queue_bounded t \<Longrightarrow> callback_pop t = Some t' \<Longrightarrow> callback_queue_bounded t'"
  by (auto simp: callback_pop_def same_queue_def split: option.splits if_splits
      intro: bounded_same_queue [rotated] bounded_pop)

lemma join_same:
  "join_exit_thread t = Some t' \<Longrightarrow> same_queue t t'" "join_callback_thread t = Some t' \<Longrightarrow> same_queue t t'"
  by (auto simp: join_exit_thread_def join_callback_thread_def same_queue_def
      split: ExitThread.splits CallbackThread.splits)

lemma bounded_fresh:
  "callback_queue_bounded (t\<lparr>tp_events := [], tp_queued_bytes := 0, tp_overflowed := False\<rparr>)"
  by (simp add: callback_queue_bounded_def regular_events_def)

text \<open>The sections of \<open>start\<close> and \<open>stop\<close> leave the queue alone, except that a new callback thread starts
  with an empty one.\<close>

lemmas lifecycle_defs = start_begin_def call_error_def start_join_exit_def start_join_callback_def
  launch_def spawn_exit_thread_def fail_join_exit_def fail_start_request_def fail_join_callback_def
  stop_begin_def stop_wait_def stop_join_exit_def stop_reset_def stop_request_def stop_join_callback_def
  request_callback_thread_stop_def watch_process_exit_def stop_after_callback_queue_overflow_def
  dispatch_event_def

lemma lifecycle_same_queue:
  "same_queue t (start_begin b h t)" "start_join_exit h t = Some t' \<Longrightarrow> same_queue t t'"
  "start_join_callback h t = Some t' \<Longrightarrow> same_queue t t'" "same_queue t (launch eq env outcome t)"
  "same_queue t (spawn_exit_thread p threw t)" "fail_join_exit b m t = Some t' \<Longrightarrow> same_queue t t'"
  "same_queue t (fail_start_request b m t)" "fail_join_callback b m t = Some t' \<Longrightarrow> same_queue t t'"
  "same_queue t (stop_begin b w t)" "stop_wait timed_out t = Some t' \<Longrightarrow> same_queue t t'"
  "stop_join_exit t = Some t' \<Longrightarrow> same_queue t t'" "same_queue t (stop_reset t)" "same_queue t (stop_request t)"
  "stop_join_callback t = Some t' \<Longrightarrow> same_queue t t'" "same_queue t (watch_process_exit p st t)"
  "same_queue t (stop_after_callback_queue_overflow t\<lparr>tp_kill_pending := False\<rparr>)"
  "same_queue t (dispatch_event ev t)"
  by (auto simp: lifecycle_defs Let_def same_queue_def join_exit_thread_def join_callback_thread_def
      split: ExitThread.splits CallbackThread.splits LaunchOutcome.splits option.splits if_splits)

lemma bounded_start_thread: "callback_queue_bounded (start_callback_thread threw t)"
  by (cases threw) (simp_all add: start_callback_thread_def callback_queue_bounded_def regular_events_def)

lemma bounded_handle_output:
  "callback_queue_bounded t \<Longrightarrow> callback_queue_bounded (handle_stdout bytes t)"
  "callback_queue_bounded t \<Longrightarrow> callback_queue_bounded (handle_stderr chars t)"
  "callback_queue_bounded t \<Longrightarrow> callback_queue_bounded (report_error m t)"
  "callback_queue_bounded t \<Longrightarrow> callback_queue_bounded (queue_exit st t)"
  by (auto simp: handle_stdout_def handle_stderr_def report_error_def queue_exit_def default_callback_event_def
      same_queue_def intro: bounded_posts bounded_same_queue [rotated])

lemma bounded_send:
  assumes "callback_queue_bounded t"
  shows "callback_queue_bounded (snd (send_check null_data data t))"
    and "callback_queue_bounded (snd (send_locked i data answer t))"
proof -
  have same: "callback_queue_bounded (t\<lparr>tp_senders := ps\<rparr>)" "callback_queue_bounded (t\<lparr>tp_senders := ps, tp_process_log := l\<rparr>)"
    for ps l using assms by (auto intro: bounded_same_queue [rotated] simp: same_queue_def)
  show "callback_queue_bounded (snd (send_check null_data data t))"
    using assms same by (auto simp: send_check_def bounded_handle_output split: option.splits)
  show "callback_queue_bounded (snd (send_locked i data answer t))"
    using same by (cases answer) (auto simp: send_locked_def Let_def bounded_handle_output bounded_report_error_locked)
qed

lemmas lifecycle_bounded = lifecycle_same_queue [THEN bounded_same_queue]

lemma bounded_thread: "callback_queue_bounded t \<Longrightarrow> callback_queue_bounded (t\<lparr>tp_callback_thread := th\<rparr>)"
  by (rule bounded_same_queue [rotated]) (simp_all add: same_queue_def)

lemma bounded_step: "callback_queue_bounded t \<Longrightarrow> transport_step eq a t = Some t' \<Longrightarrow> callback_queue_bounded t'"
  by (cases a)
     (auto split: if_splits LifecyclePc.splits ExitThread.splits CallbackThread.splits
       intro: lifecycle_bounded bounded_start_thread bounded_handle_output bounded_send bounded_callback_pop
         bounded_thread)

lemma transport_run_invariant:
  assumes "\<And>a t t'. I t \<Longrightarrow> transport_step eq a t = Some t' \<Longrightarrow> I t'"
    and "I t" and "transport_run eq acts t = Some t'"
  shows "I t'"
  using assms(2,3)
proof (induction acts arbitrary: t)
  case (Cons a acts)
  then obtain u where "transport_step eq a t = Some u" "transport_run eq acts u = Some t'"
    by (auto simp: Option.bind_eq_Some_conv)
  then show ?case using Cons assms(1) by blast
qed simp

text \<open>C29. In every reachable state of the transport the byte counter of the callback queue is exactly
  the number of payload bytes queued, so that its unsigned subtraction never wraps, and the regular
  events stay within both configured bounds, exceeded by at most the one diagnostic of an overflow.\<close>

theorem transport_queue_bounded:
  assumes "transport_run eq acts (new_transport options) = Some t"
  shows "tp_queued_bytes t = sum_list (map callback_event_payload_size (tp_events t)) \<and>
     length (regular_events t) \<le> max_callback_queue_events (tp_options t) + (if tp_overflowed t then 1 else 0) \<and>
     tp_queued_bytes t \<le> max_callback_queue_bytes (tp_options t) + (if tp_overflowed t then 39 else 0)"
proof -
  have "callback_queue_bounded t"
  proof (rule transport_run_invariant [OF _ _ assms])
    show "callback_queue_bounded (new_transport options)"
      by (simp add: new_transport_def callback_queue_bounded_def regular_events_def)
  qed (rule bounded_step)
  then show ?thesis by (simp add: callback_queue_bounded_def)
qed

section \<open>One lifetime of the process\<close>

text \<open>What the code relies on from the process library, as its comment says: the reader threads have
  ended when \<open>get_exit_status\<close> returns. Output is read from the moment the process is being launched.\<close>

fun readers_end_before_exit :: "bool \<Rightarrow> TransportAction list \<Rightarrow> bool" where
  "readers_end_before_exit reading [] = True"
| "readers_end_before_exit reading (ReadStdout bytes # acts) = (reading \<and> readers_end_before_exit reading acts)"
| "readers_end_before_exit reading (ReadStderr chars # acts) = (reading \<and> readers_end_before_exit reading acts)"
| "readers_end_before_exit reading (ExitReturned st # acts) = readers_end_before_exit False acts"
| "readers_end_before_exit reading (a # acts) = readers_end_before_exit reading acts"

fun is_start_thread :: "TransportAction \<Rightarrow> bool" where
  "is_start_thread (StartThread threw) = True"
| "is_start_thread a = False"

definition one_lifetime :: "TransportAction list \<Rightarrow> bool" where
  "one_lifetime acts \<longleftrightarrow> (\<forall>a\<in>set acts. \<not> is_start_thread a)"

fun bytes_read :: "TransportAction list \<Rightarrow> byte list" where
  "bytes_read [] = []"
| "bytes_read (ReadStdout bytes # acts) = bytes @ bytes_read acts"
| "bytes_read (a # acts) = bytes_read acts"

text \<open>The state in which \<open>start\<close> launches the process: a fresh queue and callback thread, all handlers
  set.\<close>

definition launching :: "StdIoTransport \<Rightarrow> bool" where
  "launching t \<longleftrightarrow> tp_pc t = PcLaunch \<and> tp_callback_thread t = CT_Idle \<and> tp_events t = [] \<and>
     tp_accepting t \<and> \<not> tp_stop_requested t \<and> \<not> tp_overflowed t \<and> tp_exit_thread t = ET_None \<and>
     has_receive_handler (tp_handlers t) \<and> has_error_handler (tp_handlers t) \<and> has_exit_handler (tp_handlers t)"

fun event_call :: "CallbackEvent \<Rightarrow> HandlerCall" where
  "event_call ev =
     (case ce_type ev of CB_Receive \<Rightarrow> HReceive (ce_bytes ev) | CB_Error \<Rightarrow> HError (ce_message ev)
      | CB_Exit \<Rightarrow> HExit (ce_exit_status ev) | CB_Stderr \<Rightarrow> HStderr (ce_message ev))"

fun received_bytes :: "HandlerCall list \<Rightarrow> byte list" where
  "received_bytes [] = []"
| "received_bytes (HReceive bytes # calls) = bytes @ received_bytes calls"
| "received_bytes (c # calls) = received_bytes calls"

fun is_exit_call :: "HandlerCall \<Rightarrow> bool" where
  "is_exit_call (HExit st) = True"
| "is_exit_call c = False"

fun is_output_call :: "HandlerCall \<Rightarrow> bool" where
  "is_output_call (HReceive bytes) = True"
| "is_output_call (HStderr chars) = True"
| "is_output_call c = False"

text \<open>At most one exit, and no output after it.\<close>

fun exit_ends_output :: "HandlerCall list \<Rightarrow> bool" where
  "exit_ends_output [] = True"
| "exit_ends_output (c # calls) =
     (if is_exit_call c then \<not> (\<exists>d\<in>set calls. is_exit_call d \<or> is_output_call d) else exit_ends_output calls)"

definition in_flight :: "StdIoTransport \<Rightarrow> CallbackEvent list" where
  "in_flight t = (case tp_callback_thread t of CT_Dispatching ev \<Rightarrow> [ev] | _ \<Rightarrow> []) @ tp_events t"

text \<open>The calls made since the log had length \<open>n\<close>, and those still owed.\<close>

definition call_stream :: "nat \<Rightarrow> StdIoTransport \<Rightarrow> HandlerCall list" where
  "call_stream n t = drop n (tp_handler_log t) @ map event_call (in_flight t)"

lemma received_append [simp]: "received_bytes (xs @ ys) = received_bytes xs @ received_bytes ys"
  by (induction xs rule: received_bytes.induct) simp_all

lemma exit_ends_output_snoc:
  "exit_ends_output calls \<Longrightarrow>
     (is_exit_call c \<or> is_output_call c \<Longrightarrow> \<not> (\<exists>d\<in>set calls. is_exit_call d)) \<Longrightarrow> exit_ends_output (calls @ [c])"
  by (induction calls) auto

text \<open>The invariant of a lifetime. \<open>n\<close> is where its calls start in the log, \<open>rd\<close> the bytes read so far,
  \<open>reading\<close> whether the readers may still run, \<open>spawned\<close> and \<open>queued\<close> whether the exit thread has been
  started and has queued its event.\<close>

fun exit_running :: "ExitThread \<Rightarrow> bool" where
  "exit_running (ET_Waiting p) = True"
| "exit_running (ET_Marked st) = True"
| "exit_running th = False"

fun exit_marked :: "ExitThread \<Rightarrow> bool" where
  "exit_marked (ET_Marked st) = True"
| "exit_marked th = False"

fun before_spawn :: "LifecyclePc \<Rightarrow> bool" where
  "before_spawn PcLaunch = True"
| "before_spawn (PcSpawnExit p) = True"
| "before_spawn pc = False"

fun spawning :: "LifecyclePc \<Rightarrow> bool" where
  "spawning (PcSpawnExit p) = True"
| "spawning pc = False"

fun exit_may_run :: "LifecyclePc \<Rightarrow> bool" where
  "exit_may_run PcIdle = True"
| "exit_may_run PcStopWait = True"
| "exit_may_run PcStopJoinExit = True"
| "exit_may_run pc = False"

fun in_stop :: "LifecyclePc \<Rightarrow> bool" where
  "in_stop PcStopWait = True"
| "in_stop PcStopJoinExit = True"
| "in_stop PcStopReset = True"
| "in_stop PcStopRequest = True"
| "in_stop pc = False"

fun no_thread :: "CallbackThread \<Rightarrow> bool" where
  "no_thread CT_None = True"
| "no_thread CT_Ended = True"
| "no_thread th = False"

definition handlers_set :: "StdIoTransport \<Rightarrow> bool" where
  "handlers_set t \<longleftrightarrow> has_receive_handler (tp_handlers t) \<and> has_error_handler (tp_handlers t) \<and>
     has_exit_handler (tp_handlers t)"

definition call_stream_inv :: "nat \<Rightarrow> byte list \<Rightarrow> bool \<Rightarrow> StdIoTransport \<Rightarrow> bool" where
  "call_stream_inv n rd queued t \<longleftrightarrow>
     n \<le> length (tp_handler_log t) \<and>
     prefix (received_bytes (call_stream n t)) rd \<and>
     (\<not> tp_overflowed t \<and> (tp_accepting t \<or> queued) \<longrightarrow> received_bytes (call_stream n t) = rd) \<and>
     length (filter is_exit_call (call_stream n t)) = (if queued then 1 else 0) \<and>
     exit_ends_output (call_stream n t) \<and>
     (\<forall>ev\<in>set (in_flight t). ce_type ev = CB_Stderr \<longrightarrow> has_stderr_handler (tp_options t))"

definition control_inv :: "bool \<Rightarrow> bool \<Rightarrow> bool \<Rightarrow> StdIoTransport \<Rightarrow> bool" where
  "control_inv reading spawned queued t \<longleftrightarrow>
     (tp_callback_thread t \<noteq> CT_None \<longrightarrow> handlers_set t) \<and>
     (no_thread (tp_callback_thread t) \<longrightarrow> tp_events t = [] \<and> \<not> tp_accepting t) \<and>
     (exit_running (tp_exit_thread t) \<longrightarrow> tp_accepting t \<and> tp_process t \<noteq> None \<and> spawned \<and> \<not> queued \<and>
        exit_may_run (tp_pc t)) \<and>
     (exit_marked (tp_exit_thread t) \<longrightarrow> \<not> reading) \<and>
     (queued \<longrightarrow> \<not> reading \<and> spawned) \<and>
     (spawned \<longrightarrow> exit_running (tp_exit_thread t) \<or> queued) \<and>
     (before_spawn (tp_pc t) \<longrightarrow> \<not> spawned \<and> tp_accepting t) \<and>
     (spawning (tp_pc t) \<longrightarrow> tp_process t \<noteq> None) \<and>
     (tp_stop_requested t \<longrightarrow> \<not> tp_accepting t) \<and>
     (tp_pc_by_callback t \<and> in_stop (tp_pc t) \<longrightarrow> tp_callback_thread t = CT_InStop)"

lemma launching_inv:
  assumes "launching t"
  shows "call_stream_inv (length (tp_handler_log t)) [] False t \<and> control_inv True False False t"
  using assms
  by (auto simp: launching_def call_stream_inv_def control_inv_def call_stream_def in_flight_def handlers_set_def)

text \<open>Ghost state after an action.\<close>

fun reading_after :: "TransportAction \<Rightarrow> bool \<Rightarrow> bool" where
  "reading_after (ExitReturned st) reading = False"
| "reading_after a reading = reading"

definition spawns :: "TransportAction \<Rightarrow> bool" where
  "spawns a \<longleftrightarrow> a = SpawnExit None"

fun may_read :: "bool \<Rightarrow> TransportAction \<Rightarrow> bool" where
  "may_read reading (ReadStdout bytes) = reading"
| "may_read reading (ReadStderr chars) = reading"
| "may_read reading a = True"

lemma readers_Cons:
  "readers_end_before_exit reading (a # acts) \<longleftrightarrow>
     may_read reading a \<and> readers_end_before_exit (reading_after a reading) acts"
  by (cases a) auto

lemma bytes_read_Cons: "bytes_read (a # acts) = bytes_read [a] @ bytes_read acts"
  by (cases a) auto

text \<open>Steps that leave the stream alone.\<close>

definition same_stream :: "StdIoTransport \<Rightarrow> StdIoTransport \<Rightarrow> bool" where
  "same_stream t t' \<longleftrightarrow> tp_options t' = tp_options t \<and> tp_handler_log t' = tp_handler_log t \<and>
     in_flight t' = in_flight t \<and> tp_overflowed t' = tp_overflowed t \<and> (tp_accepting t' \<longrightarrow> tp_accepting t)"

lemma call_stream_inv_same: "same_stream t t' \<Longrightarrow> call_stream_inv n rd queued t \<Longrightarrow> call_stream_inv n rd queued t'"
  by (auto simp: same_stream_def call_stream_inv_def call_stream_def)

definition control_part :: "StdIoTransport \<Rightarrow> StdIoTransport \<Rightarrow> bool" where
  "control_part t t' \<longleftrightarrow> tp_callback_thread t' = tp_callback_thread t \<and> tp_handlers t' = tp_handlers t \<and>
     tp_accepting t' = tp_accepting t \<and> tp_stop_requested t' = tp_stop_requested t \<and>
     tp_process t' = tp_process t \<and> tp_pc t' = tp_pc t \<and> tp_pc_by_callback t' = tp_pc_by_callback t \<and>
     tp_exit_thread t' = tp_exit_thread t \<and> (tp_accepting t \<or> tp_events t' = tp_events t)"

lemma control_inv_part: "control_part t t' \<Longrightarrow> control_inv r sp q t \<Longrightarrow> control_inv r sp q t'"
  by (auto simp: control_part_def control_inv_def handlers_set_def)

lemma post_control_part:
  "control_part t (post_event ev t)" "control_part t (report_error_locked m t)"
  by (simp_all add: post_event_cases report_error_locked_cases control_part_def enqueue_callback_event_locked_def)

lemma control_part_trans: "control_part t u \<Longrightarrow> control_part u v \<Longrightarrow> control_part t v"
  by (auto simp: control_part_def)

lemma output_control_part:
  "control_part t (handle_stdout bytes t)" "control_part t (handle_stderr chars t)" "control_part t (report_error m t)"
  "control_part t (snd (send_check null_data data t))" "control_part t (snd (send_locked i data answer t))"
proof -
  show "control_part t (handle_stdout bytes t)" "control_part t (handle_stderr chars t)"
    and err: "control_part t (report_error m t)" for m t
    by (simp_all add: handle_stdout_def handle_stderr_def report_error_def post_control_part)
       (simp_all add: control_part_def)
  show "control_part t (snd (send_check null_data data t))"
    by (auto simp: send_check_def err split: option.splits) (simp_all add: control_part_def)
  have upd: "control_part t (t\<lparr>tp_senders := ps\<rparr>)" "control_part t (t\<lparr>tp_senders := ps, tp_process_log := l\<rparr>)" for ps l
    by (simp_all add: control_part_def)
  show "control_part t (snd (send_locked i data answer t))"
    by (cases answer) (auto simp: send_locked_def Let_def upd
        intro: control_part_trans [OF upd(2) err] control_part_trans [OF upd(1) post_control_part(2)])
qed

lemmas step_splits = if_splits LifecyclePc.splits ExitThread.splits CallbackThread.splits option.splits list.splits
  LaunchOutcome.splits

datatype ActionGroup = PostingAction | StartAction | LaunchAction | StopAction | FinishAction | ThreadAction

fun action_group :: "TransportAction \<Rightarrow> ActionGroup" where
  "action_group (ReadStdout bytes) = PostingAction"
| "action_group (ReadStderr chars) = PostingAction"
| "action_group (SendCheck null_data data) = PostingAction"
| "action_group (SendLocked i data answer) = PostingAction"
| "action_group (StartBegin by_callback h) = StartAction"
| "action_group StartJoinExit = StartAction"
| "action_group StartJoinCallback = StartAction"
| "action_group (StartThread threw) = StartAction"
| "action_group (Launch env outcome) = LaunchAction"
| "action_group (SpawnExit threw) = LaunchAction"
| "action_group FailJoinExit = LaunchAction"
| "action_group FailRequest = LaunchAction"
| "action_group FailJoinCallback = LaunchAction"
| "action_group (StopBegin by_callback write_idle) = StopAction"
| "action_group (StopWait timed_out) = StopAction"
| "action_group StopJoinExit = FinishAction"
| "action_group StopReset = FinishAction"
| "action_group StopRequest = FinishAction"
| "action_group StopJoinCallback = FinishAction"
| "action_group a = ThreadAction"

lemma control_posts:
  "action_group a = PostingAction \<Longrightarrow> transport_step eq a t = Some t' \<Longrightarrow> control_part t t'"
  by (cases a) (auto simp: output_control_part split: if_splits)

lemmas control_step_defs = lifecycle_defs spawns_def join_exit_thread_def join_callback_thread_def queue_exit_def
  post_event_cases enqueue_callback_event_locked_def callback_pop_def pop_callback_event_def Let_def

lemma control_start:
  "control_inv r sp q t \<Longrightarrow> transport_step eq a t = Some t' \<Longrightarrow> \<not> is_start_thread a \<Longrightarrow> action_group a = StartAction \<Longrightarrow>
     control_inv (reading_after a r) (sp \<or> spawns a) (q \<or> a = ExitQueue) t'"
  by (cases a; auto simp: control_step_defs split: step_splits; simp add: control_inv_def handlers_set_def; blast?)

lemma control_launch:
  "control_inv r sp q t \<Longrightarrow> transport_step eq a t = Some t' \<Longrightarrow> action_group a = LaunchAction \<Longrightarrow>
     control_inv (reading_after a r) (sp \<or> spawns a) (q \<or> a = ExitQueue) t'"
  by (cases a; auto simp: control_step_defs split: step_splits; simp add: control_inv_def handlers_set_def; blast?)

lemma control_stop:
  "control_inv r sp q t \<Longrightarrow> transport_step eq a t = Some t' \<Longrightarrow> action_group a = StopAction \<Longrightarrow>
     control_inv (reading_after a r) (sp \<or> spawns a) (q \<or> a = ExitQueue) t'"
  by (cases a; auto simp: control_step_defs split: step_splits; simp add: control_inv_def handlers_set_def; blast?)

lemma control_finish:
  "control_inv r sp q t \<Longrightarrow> transport_step eq a t = Some t' \<Longrightarrow> action_group a = FinishAction \<Longrightarrow>
     control_inv (reading_after a r) (sp \<or> spawns a) (q \<or> a = ExitQueue) t'"
  by (cases a; auto simp: control_step_defs split: step_splits; simp add: control_inv_def handlers_set_def; blast?)

lemma control_threads:
  "control_inv r sp q t \<Longrightarrow> transport_step eq a t = Some t' \<Longrightarrow> action_group a = ThreadAction \<Longrightarrow>
     control_inv (reading_after a r) (sp \<or> spawns a) (q \<or> a = ExitQueue) t'"
  by (cases a; auto simp: control_step_defs split: step_splits; simp add: control_inv_def handlers_set_def; blast?)

lemma control_step:
  assumes inv: "control_inv r sp q t" and step: "transport_step eq a t = Some t'" and "\<not> is_start_thread a"
  shows "control_inv (reading_after a r) (sp \<or> spawns a) (q \<or> a = ExitQueue) t'"
proof (cases "action_group a")
  case PostingAction
  then have "reading_after a r = r" "\<not> spawns a" "a \<noteq> ExitQueue" by (cases a; simp add: spawns_def)+
  then show ?thesis using control_inv_part [OF control_posts [OF PostingAction step] inv] by simp
qed (use assms in \<open>blast intro: control_start control_launch control_stop control_finish control_threads\<close>)+

end
