(* ===== verification/Transport_Properties.thy ===== *)
theory Transport_Properties
  imports Transport_Invariants
begin

text \<open>
  Properties of the standard I/O transport: what the handlers see of one lifetime of the process, the
  environment of the process, that \<open>stop\<close> can always finish when it waits for the callback thread, and
  the two ways in which it cannot.
\<close>

section \<open>The stream of calls\<close>

lemma in_flight_push: "in_flight (enqueue_callback_event_locked ev t) = in_flight t @ [ev]"
  by (simp add: in_flight_def enqueue_callback_event_locked_def)

lemma call_stream_push:
  "call_stream n (enqueue_callback_event_locked ev t) = call_stream n t @ [event_call ev]"
  by (simp add: call_stream_def in_flight_push) (simp add: enqueue_callback_event_locked_def)

text \<open>What appending one owed call asks for: bytes only when nothing was lost so far, output and the
  exit only while no exit is in the stream.\<close>

lemma call_stream_inv_push:
  assumes inv: "call_stream_inv n rd queued t" and t': "t' = enqueue_callback_event_locked ev t"
    and bytes: "prefix (received_bytes (call_stream n t) @ received_bytes [event_call ev]) rd'"
    and all: "\<not> tp_overflowed t \<Longrightarrow> tp_accepting t \<or> queued' \<Longrightarrow>
      received_bytes (call_stream n t) @ received_bytes [event_call ev] = rd'"
    and exit: "queued' = (queued \<or> ce_type ev = CB_Exit)" "ce_type ev = CB_Exit \<Longrightarrow> \<not> queued"
    and outp: "ce_type ev = CB_Receive \<or> ce_type ev = CB_Stderr \<Longrightarrow> \<not> queued"
    and err: "ce_type ev = CB_Stderr \<Longrightarrow> has_stderr_handler (tp_options t)"
  shows "call_stream_inv n rd' queued' t'"
proof -
  have cs: "call_stream n t' = call_stream n t @ [event_call ev]" and fl: "in_flight t' = in_flight t @ [ev]"
    by (simp_all add: t' call_stream_push in_flight_push)
  have same: "tp_handler_log t' = tp_handler_log t" "tp_overflowed t' = tp_overflowed t"
    "tp_accepting t' = tp_accepting t" "tp_options t' = tp_options t"
    by (simp_all add: t' enqueue_callback_event_locked_def)
  have kind: "is_exit_call (event_call ev) \<longleftrightarrow> ce_type ev = CB_Exit"
    "is_output_call (event_call ev) \<longleftrightarrow> ce_type ev = CB_Receive \<or> ce_type ev = CB_Stderr"
    by (cases "ce_type ev"; simp)+
  have none: "\<not> queued \<Longrightarrow> \<not> (\<exists>d\<in>set (call_stream n t). is_exit_call d)"
    using inv by (auto simp: call_stream_inv_def filter_empty_conv)
  have "exit_ends_output (call_stream n t')"
    unfolding cs using inv none kind exit(2) outp by (intro exit_ends_output_snoc) (auto simp: call_stream_inv_def)
  moreover have "length (filter is_exit_call (call_stream n t')) = (if queued' then 1 else 0)"
    using inv exit kind(1) by (auto simp: cs call_stream_inv_def)
  ultimately show ?thesis
    using inv bytes all err by (auto simp: call_stream_inv_def same cs fl)
qed

lemma call_stream_inv_flags:
  "call_stream_inv n rd queued (t\<lparr>tp_kill_pending := b\<rparr>) = call_stream_inv n rd queued t"
  "call_stream_inv n rd queued (t\<lparr>tp_state_mutex_stuck := b\<rparr>) = call_stream_inv n rd queued t"
  "call_stream_inv n rd queued (t\<lparr>tp_exit_thread := e\<rparr>) = call_stream_inv n rd queued t"
  "call_stream_inv n rd queued (t\<lparr>tp_senders := ps\<rparr>) = call_stream_inv n rd queued t"
  "call_stream_inv n rd queued (t\<lparr>tp_process_log := l\<rparr>) = call_stream_inv n rd queued t"
  by (simp_all add: call_stream_inv_def call_stream_def in_flight_def)

lemma call_stream_inv_overflow:
  assumes "call_stream_inv n rd queued t" and "prefix rd rd'"
  shows "call_stream_inv n rd' queued
     (enqueue_callback_event_locked make_callback_queue_overflow_error (t\<lparr>tp_overflowed := True\<rparr>))"
proof -
  have inv: "call_stream_inv n rd queued (t\<lparr>tp_overflowed := True\<rparr>)"
    using assms(1) by (simp add: call_stream_inv_def call_stream_def in_flight_def)
  have ev: "received_bytes [event_call make_callback_queue_overflow_error] = []"
    by (simp add: make_callback_queue_overflow_error_def default_callback_event_def)
  have "prefix (received_bytes (call_stream n (t\<lparr>tp_overflowed := True\<rparr>))) rd"
    using inv by (simp add: call_stream_inv_def)
  then show ?thesis
    using assms(2)
    by (intro call_stream_inv_push [OF inv refl]) (auto simp: ev simp del: event_call.simps intro: prefix_order.order_trans)
qed

lemma call_stream_inv_loses: "call_stream_inv n rd queued t \<Longrightarrow> tp_overflowed t \<or> \<not> tp_accepting t \<and> \<not> queued \<Longrightarrow>
    prefix rd rd' \<Longrightarrow> call_stream_inv n rd' queued t"
  by (auto simp: call_stream_inv_def intro: prefix_order.order_trans)

text \<open>Posting a regular event.\<close>

lemma call_stream_inv_post:
  assumes inv: "call_stream_inv n rd queued t" and regular: "ce_type ev \<noteq> CB_Exit"
    and rd': "rd' = rd @ received_bytes [event_call ev]"
    and outp: "ce_type ev = CB_Receive \<or> ce_type ev = CB_Stderr \<Longrightarrow> \<not> queued"
    and err: "ce_type ev = CB_Stderr \<Longrightarrow> has_stderr_handler (tp_options t)"
  shows "call_stream_inv n rd' queued (post_event ev t)"
proof -
  have pre: "prefix rd rd'" by (simp add: rd')
  have silent: "queued \<Longrightarrow> rd' = rd" using outp regular by (cases "ce_type ev") (auto simp: rd')
  consider "tp_overflowed t" | "\<not> tp_overflowed t" "\<not> tp_accepting t"
    | "\<not> tp_overflowed t" "tp_accepting t" "would_overflow_regular_callback_queue ev t"
    | "\<not> tp_overflowed t" "tp_accepting t" "\<not> would_overflow_regular_callback_queue ev t" by blast
  then show ?thesis
  proof cases
    case 1
    then show ?thesis using call_stream_inv_loses [OF inv _ pre] regular by (simp add: post_event_cases)
  next
    case 2
    then show ?thesis
      using call_stream_inv_loses [OF inv _ pre] inv silent by (cases queued) (simp_all add: post_event_cases)
  next
    case 3
    then show ?thesis using call_stream_inv_overflow [OF inv pre] regular by (simp add: post_event_cases call_stream_inv_flags)
  next
    case 4
    then have "received_bytes (call_stream n t) = rd" using inv by (simp add: call_stream_inv_def)
    then show ?thesis
      using 4 regular outp err by (auto simp: post_event_cases rd' intro!: call_stream_inv_push [OF inv refl])
  qed
qed

lemma call_stream_inv_post_error: "call_stream_inv n rd queued t \<Longrightarrow> call_stream_inv n rd queued (post_event (error_event m) t)"
  by (rule call_stream_inv_post [where ev = "error_event m"]) (simp_all add: error_event_def default_callback_event_def)

lemma call_stream_inv_report_error_locked:
  assumes inv: "call_stream_inv n rd queued t"
  shows "call_stream_inv n rd queued (report_error_locked m t)"
  using call_stream_inv_post_error [OF inv, of m]
  by (auto simp: report_error_locked_cases post_event_cases call_stream_inv_flags)

lemma call_stream_inv_post_exit:
  assumes "call_stream_inv n rd False t" and "tp_accepting t"
  shows "call_stream_inv n rd True (queue_exit st t)"
proof -
  have "call_stream_inv n rd True (enqueue_callback_event_locked (exit_event st) t)"
    using assms
    by (intro call_stream_inv_push [OF assms(1) refl])
       (auto simp: call_stream_inv_def exit_event_def default_callback_event_def)
  then show ?thesis using assms(2) by (simp add: queue_exit_def post_event_cases call_stream_inv_flags)
qed

lemma call_stream_inv_output:
  "call_stream_inv n rd False t \<Longrightarrow> call_stream_inv n (rd @ bytes) False (handle_stdout bytes t)"
  "call_stream_inv n rd False t \<Longrightarrow> call_stream_inv n rd False (handle_stderr chars t)"
  by (auto simp: handle_stdout_def handle_stderr_def default_callback_event_def intro!: call_stream_inv_post [where rd = rd])

lemma call_stream_inv_send:
  assumes "call_stream_inv n rd queued t"
  shows "call_stream_inv n rd queued (snd (send_check null_data data t))"
    and "call_stream_inv n rd queued (snd (send_locked i data answer t))"
proof -
  show "call_stream_inv n rd queued (snd (send_check null_data data t))"
    using assms
    by (auto simp: send_check_def report_error_def call_stream_inv_post_error call_stream_inv_flags split: option.splits)
  show "call_stream_inv n rd queued (snd (send_locked i data answer t))"
    using assms
    by (cases answer) (auto simp: send_locked_def Let_def report_error_def call_stream_inv_post_error
        call_stream_inv_report_error_locked call_stream_inv_flags)
qed

lemma dispatch_calls:
  "handlers_set t \<Longrightarrow> (ce_type ev = CB_Stderr \<Longrightarrow> has_stderr_handler (tp_options t)) \<Longrightarrow>
     handler_call ev t = [event_call ev]"
  by (cases "ce_type ev") (simp_all add: handler_call_def handlers_set_def)

lemma call_stream_inv_dispatch:
  assumes inv: "call_stream_inv n rd queued t" and th: "tp_callback_thread t = CT_Dispatching ev" and "handlers_set t"
  shows "call_stream_inv n rd queued (dispatch_event ev t)"
proof -
  have "handler_call ev t = [event_call ev]"
    using inv th assms(3) by (intro dispatch_calls) (auto simp: call_stream_inv_def in_flight_def)
  moreover have "n \<le> length (tp_handler_log t)" using inv by (simp add: call_stream_inv_def)
  ultimately have "call_stream n (dispatch_event ev t) = call_stream n t"
    by (simp add: call_stream_def dispatch_event_def in_flight_def th del: event_call.simps)
  then show ?thesis
    using inv by (auto simp: call_stream_inv_def dispatch_event_def in_flight_def th)
qed

text \<open>The remaining steps do not touch the stream.\<close>

lemma same_streamI:
  "tp_options t' = tp_options t \<Longrightarrow> tp_handler_log t' = tp_handler_log t \<Longrightarrow> tp_events t' = tp_events t \<Longrightarrow>
   tp_overflowed t' = tp_overflowed t \<Longrightarrow> (tp_accepting t' \<Longrightarrow> tp_accepting t) \<Longrightarrow>
   tp_callback_thread t' = tp_callback_thread t \<or> no_thread (tp_callback_thread t) \<and> no_thread (tp_callback_thread t') \<Longrightarrow>
   same_stream t t'"
  by (auto simp: same_stream_def in_flight_def split: CallbackThread.splits)

lemma join_callback_stream:
  "join_callback_thread t = Some u \<Longrightarrow> tp_options u = tp_options t \<and> tp_handler_log u = tp_handler_log t \<and>
     tp_events u = tp_events t \<and> tp_overflowed u = tp_overflowed t \<and> tp_accepting u = tp_accepting t \<and>
     no_thread (tp_callback_thread t) \<and> no_thread (tp_callback_thread u)"
  "join_exit_thread t = Some u \<Longrightarrow> tp_options u = tp_options t \<and> tp_handler_log u = tp_handler_log t \<and>
     tp_events u = tp_events t \<and> tp_overflowed u = tp_overflowed t \<and> tp_accepting u = tp_accepting t \<and>
     tp_callback_thread u = tp_callback_thread t"
  by (auto simp: join_callback_thread_def join_exit_thread_def split: CallbackThread.splits ExitThread.splits)

lemma lifecycle_same_stream:
  "same_stream t (start_begin b h t)" "start_join_exit h t = Some t' \<Longrightarrow> same_stream t t'"
  "start_join_callback h t = Some t' \<Longrightarrow> same_stream t t'" "same_stream t (launch eq env outcome t)"
  "same_stream t (spawn_exit_thread p threw t)" "fail_join_exit b m t = Some t' \<Longrightarrow> same_stream t t'"
  "same_stream t (fail_start_request b m t)" "fail_join_callback b m t = Some t' \<Longrightarrow> same_stream t t'"
  "same_stream t (stop_begin b w t)" "stop_wait timed_out t = Some t' \<Longrightarrow> same_stream t t'"
  "stop_join_exit t = Some t' \<Longrightarrow> same_stream t t'" "same_stream t (stop_reset t)"
  "stop_join_callback t = Some t' \<Longrightarrow> same_stream t t'" "same_stream t (watch_process_exit p st t)"
  "same_stream t (stop_after_callback_queue_overflow t\<lparr>tp_kill_pending := False\<rparr>)"
  by (rule same_streamI; clarsimp simp: lifecycle_defs Let_def map_option_case simp del: no_thread.simps
      split: LaunchOutcome.splits option.splits if_splits; (drule join_callback_stream; simp)?)+

lemma callback_same_stream:
  "tp_callback_thread t = CT_Idle \<Longrightarrow> callback_pop t = Some t' \<Longrightarrow> same_stream t t'"
  "tp_callback_thread t = CT_InHandler \<Longrightarrow> same_stream t (t\<lparr>tp_callback_thread := CT_InStop\<rparr>)"
  "tp_callback_thread t = CT_InHandler \<Longrightarrow> same_stream t (t\<lparr>tp_callback_thread := CT_Idle\<rparr>)"
  "(tp_pc_by_callback t \<Longrightarrow> tp_callback_thread t = CT_InStop) \<Longrightarrow> same_stream t (stop_request t)"
  by (auto simp: callback_pop_def pop_callback_event_def same_stream_def in_flight_def stop_request_def
      request_callback_thread_stop_def Let_def split: list.splits if_splits)

lemma same_stream_step:
  assumes inv: "control_inv r sp q t" and step: "transport_step eq a t = Some t'" and "\<not> is_start_thread a"
    and "action_group a \<noteq> PostingAction" and "a \<noteq> ExitQueue" and "a \<noteq> CallbackDispatch"
  shows "same_stream t t'"
proof -
  have stop: "tp_pc t = PcStopRequest \<Longrightarrow> same_stream t (stop_request t)"
    using inv by (intro callback_same_stream(4)) (simp add: control_inv_def)
  show ?thesis
    using step assms(3-)
    by (cases a) (auto split: if_splits LifecyclePc.splits ExitThread.splits
        intro: lifecycle_same_stream callback_same_stream(1-3) stop)
qed

lemma stream_step:
  assumes inv: "call_stream_inv n rd q t" and ctl: "control_inv r sp q t" and step: "transport_step eq a t = Some t'"
    and "\<not> is_start_thread a" and read: "may_read r a"
  shows "call_stream_inv n (rd @ bytes_read [a]) (q \<or> a = ExitQueue) t'"
proof -
  have q: "r \<Longrightarrow> \<not> q" "tp_callback_thread t \<noteq> CT_None \<Longrightarrow> handlers_set t"
    "exit_running (tp_exit_thread t) \<Longrightarrow> \<not> q \<and> tp_accepting t"
    using ctl by (auto simp: control_inv_def)
  consider "action_group a = PostingAction" | "a = ExitQueue" | "a = CallbackDispatch"
    | "action_group a \<noteq> PostingAction" "a \<noteq> ExitQueue" "a \<noteq> CallbackDispatch" by blast
  then show ?thesis
  proof cases
    case 1
    then show ?thesis
      using inv step read q(1) by (cases a) (auto simp: call_stream_inv_output call_stream_inv_send split: if_splits)
  next
    case 2
    then show ?thesis
      using inv step q(3) by (auto intro!: call_stream_inv_post_exit split: ExitThread.splits)
  next
    case 3
    then show ?thesis
      using inv step q(2) by (auto intro!: call_stream_inv_dispatch split: CallbackThread.splits if_splits)
  next
    case 4
    then have "bytes_read [a] = []" by (cases a) auto
    then show ?thesis
      using call_stream_inv_same [OF same_stream_step [OF ctl step assms(4)] inv] 4 by auto
  qed
qed

lemma exit_ends_output_prefix: "exit_ends_output (xs @ ys) \<Longrightarrow> exit_ends_output xs"
  by (induction xs) (auto split: if_splits)

lemma post_keeps_log:
  "tp_handler_log (post_event ev t) = tp_handler_log t" "tp_handler_log (report_error_locked m t) = tp_handler_log t"
  by (simp_all add: post_event_cases report_error_locked_cases enqueue_callback_event_locked_def)

lemma log_step:
  assumes "control_inv r sp q t" and "transport_step eq a t = Some t'" and "\<not> is_start_thread a"
  shows "prefix (tp_handler_log t) (tp_handler_log t')"
proof -
  consider "action_group a = PostingAction" | "a = ExitQueue" | "a = CallbackDispatch"
    | "action_group a \<noteq> PostingAction" "a \<noteq> ExitQueue" "a \<noteq> CallbackDispatch" by blast
  then show ?thesis
  proof cases
    case 1
    then show ?thesis
      using assms(2)
      by (cases a) (auto simp: handle_stdout_def handle_stderr_def send_check_def send_locked_def report_error_def
          post_keeps_log Let_def split: if_splits option.splits WriteAnswer.splits)
  next
    case 2
    then show ?thesis using assms(2) by (auto simp: queue_exit_def post_keeps_log split: ExitThread.splits)
  next
    case 3
    then show ?thesis using assms(2) by (auto simp: dispatch_event_def split: CallbackThread.splits if_splits)
  next
    case 4
    then show ?thesis using same_stream_step [OF assms 4] by (simp add: same_stream_def)
  qed
qed

lemma lifetime_run:
  assumes "call_stream_inv n rd q t" and "control_inv r sp q t" and "transport_run eq acts t = Some t'"
    and "one_lifetime acts" and "readers_end_before_exit r acts"
  shows "\<exists>r' sp' q'. call_stream_inv n (rd @ bytes_read acts) q' t' \<and> control_inv r' sp' q' t' \<and>
     (sp' \<longleftrightarrow> sp \<or> SpawnExit None \<in> set acts) \<and> prefix (tp_handler_log t) (tp_handler_log t')"
  using assms
proof (induction acts arbitrary: t rd r sp q)
  case (Cons a acts)
  obtain u where u: "transport_step eq a t = Some u" "transport_run eq acts u = Some t'"
    using Cons.prems(3) by (auto simp: Option.bind_eq_Some_conv)
  have a: "\<not> is_start_thread a" "one_lifetime acts" using Cons.prems(4) by (simp_all add: one_lifetime_def)
  have r: "may_read r a" "readers_end_before_exit (reading_after a r) acts"
    using Cons.prems(5) by (simp_all add: readers_Cons)
  note st = stream_step [OF Cons.prems(1,2) u(1) a(1) r(1)] control_step [OF Cons.prems(2) u(1) a(1)]
  have "bytes_read (a # acts) = bytes_read [a] @ bytes_read acts" by (rule bytes_read_Cons)
  moreover have "spawns a \<longleftrightarrow> SpawnExit None = a" by (auto simp: spawns_def)
  ultimately show ?case
    using Cons.IH [OF st u(2) a(2) r(2)] log_step [OF Cons.prems(2) u(1) a(1)]
    by (auto intro: prefix_order.order_trans)
qed (auto simp: one_lifetime_def)

text \<open>C28. What the handlers of the transport see of one lifetime of the process, in every interleaving:
  the bytes handed over are a prefix of what was read from the process, in order; the exit is
  reported at most once and no output follows it. Once the callback thread has been joined, the exit
  has been reported exactly once and, unless the queue overflowed, every byte read has been handed
  over.\<close>

theorem transport_reports_lifetime:
  assumes "launching t" and "transport_run eq acts t = Some t'" and "one_lifetime acts"
    and "readers_end_before_exit True acts"
  shows "\<exists>calls. tp_handler_log t' = tp_handler_log t @ calls \<and> prefix (received_bytes calls) (bytes_read acts) \<and>
     exit_ends_output calls \<and>
     (tp_callback_thread t' = CT_None \<and> SpawnExit None \<in> set acts \<longrightarrow>
        length (filter is_exit_call calls) = 1 \<and>
        (\<not> tp_overflowed t' \<longrightarrow> received_bytes calls = bytes_read acts))"
proof -
  let ?n = "length (tp_handler_log t)"
  obtain r sp q where inv: "call_stream_inv ?n (bytes_read acts) q t'" "control_inv r sp q t'"
    and sp: "sp \<longleftrightarrow> SpawnExit None \<in> set acts" and pre: "prefix (tp_handler_log t) (tp_handler_log t')"
    using lifetime_run [OF _ _ assms(2-4), of ?n "[]" False False] launching_inv [OF assms(1)] by auto
  define calls where "calls = drop ?n (tp_handler_log t')"
  have log: "tp_handler_log t' = tp_handler_log t @ calls"
    using pre by (auto simp: calls_def prefix_def)
  define owed where "owed = map event_call (in_flight t')"
  have cs: "call_stream ?n t' = calls @ owed" by (simp add: call_stream_def calls_def owed_def)
  have "exit_ends_output calls" "prefix (received_bytes calls) (bytes_read acts)"
    using inv(1) exit_ends_output_prefix [of calls owed] by (auto simp: call_stream_inv_def cs dest: append_prefixD)
  moreover have "length (filter is_exit_call calls) = 1 \<and> (\<not> tp_overflowed t' \<longrightarrow> received_bytes calls = bytes_read acts)"
    if "tp_callback_thread t' = CT_None" "SpawnExit None \<in> set acts"
  proof -
    have "tp_events t' = []" "\<not> exit_running (tp_exit_thread t')" using inv(2) that(1) by (auto simp: control_inv_def)
    then have "owed = []" and q: q using inv(2) that sp by (auto simp: control_inv_def owed_def in_flight_def)
    then show ?thesis using inv(1) by (simp add: call_stream_inv_def cs)
  qed
  ultimately show ?thesis using log by blast
qed

section \<open>A run\<close>

definition sample_transport_options :: StdIoTransportOptions where
  "sample_transport_options =
     \<lparr>to_arguments = [''worker.exe''], to_working_directory = '''', to_environment = [],
      max_callback_queue_events = 2, max_callback_queue_bytes = 64, has_stderr_handler = False,
      to_environment_overrides = [(''MODE'', ''fast'')]\<rparr>"

definition all_handlers :: TransportHandlers where
  "all_handlers = \<lparr>has_receive_handler = True, has_error_handler = True, has_exit_handler = True\<rparr>"

definition start_actions :: "TransportAction list" where
  "start_actions = [StartBegin False all_handlers, StartJoinExit, StartJoinCallback, StartThread None]"

definition launched_transport :: StdIoTransport where
  "launched_transport =
     (new_transport sample_transport_options)\<lparr>tp_state := PS_Starting, tp_handlers := all_handlers,
        tp_accepting := True, tp_callback_thread := CT_Idle, tp_pc := PcLaunch\<rparr>"

definition lifetime_actions :: "TransportAction list" where
  "lifetime_actions =
     [Launch [] (LaunchedAs 7), SpawnExit None, ReadStdout [1, 2], CallbackPop, CallbackDispatch, CallbackReturns,
      ExitReturned 0, ExitQueue, StopBegin False True, StopWait False, StopJoinExit, StopReset, StopRequest,
      CallbackPop, CallbackDispatch, CallbackReturns, CallbackPop, StopJoinCallback]"

lemmas run_simps = transport_run.simps transport_step.simps lifecycle_defs join_exit_thread_def
  join_callback_thread_def start_callback_thread_def Let_def handle_stdout_def post_event_cases
  would_overflow_regular_callback_queue_def callback_event_payload_size_def enqueue_callback_event_locked_def
  callback_pop_def pop_callback_event_def handler_call_def queue_exit_def exit_event_def default_callback_event_def
  is_started_process_id_def make_callback_queue_overflow_error_def all_handlers_def sample_transport_options_def
  new_transport_def no_handlers_def

lemma start_actions_launch:
  "transport_run eq start_actions (new_transport sample_transport_options) = Some launched_transport"
  by (simp add: start_actions_def launched_transport_def run_simps)

lemma lifetime_runs:
  "\<exists>t'. transport_run (=) lifetime_actions launched_transport = Some t' \<and>
     tp_handler_log t' = [HReceive [1, 2], HExit 0] \<and> tp_callback_thread t' = CT_None \<and> \<not> tp_overflowed t'"
  by (simp add: lifetime_actions_def launched_transport_def run_simps)

theorem transport_reports_lifetime_witness:
  "\<exists>t'. transport_run (=) lifetime_actions launched_transport = Some t' \<and>
     (\<exists>calls. tp_handler_log t' = calls \<and> received_bytes calls = bytes_read lifetime_actions \<and>
       length (filter is_exit_call calls) = 1)"
proof -
  obtain t' where run: "transport_run (=) lifetime_actions launched_transport = Some t'"
    and ended: "tp_callback_thread t' = CT_None" "\<not> tp_overflowed t'"
    using lifetime_runs by blast
  have "launching launched_transport"
    by (simp add: launching_def launched_transport_def all_handlers_def new_transport_def)
  moreover have "one_lifetime lifetime_actions" "readers_end_before_exit True lifetime_actions"
    by (simp_all add: one_lifetime_def lifetime_actions_def)
  moreover have "SpawnExit None \<in> set lifetime_actions" by (simp add: lifetime_actions_def)
  moreover have "tp_handler_log launched_transport = []" by (simp add: launched_transport_def new_transport_def)
  ultimately show ?thesis
    using transport_reports_lifetime [OF _ run] run ended by auto
qed

lemma transport_run_append:
  "transport_run eq (as @ bs) t = Option.bind (transport_run eq as t) (transport_run eq bs)"
  by (induction as arbitrary: t) (auto simp: Option.bind_assoc split: bind_splits)

section \<open>Ways in which stop does not return\<close>

text \<open>A handler on the callback thread calls \<open>stop\<close> while another thread is in \<open>stop\<close> and waits for the
  callback thread: each waits for the other.\<close>

definition stops_deadlocked :: "StdIoTransport \<Rightarrow> bool" where
  "stops_deadlocked t \<longleftrightarrow> tp_pc t = PcStopJoinCallback \<and> tp_callback_thread t = CT_InStop"

lemma posting_keeps_threads:
  "action_group a = PostingAction \<Longrightarrow> transport_step eq a t = Some t' \<Longrightarrow>
     tp_pc t' = tp_pc t \<and> tp_callback_thread t' = tp_callback_thread t"
  using control_posts [of a eq t t'] by (simp add: control_part_def)

lemma deadlocked_step: "stops_deadlocked t \<Longrightarrow> transport_step eq a t = Some t' \<Longrightarrow> stops_deadlocked t'"
  using posting_keeps_threads [of a eq t t']
  by (cases a) (auto simp: stops_deadlocked_def lifecycle_defs join_callback_thread_def queue_exit_def
      post_event_cases enqueue_callback_event_locked_def split: if_splits ExitThread.splits)

definition deadlock_actions :: "TransportAction list" where
  "deadlock_actions =
     [Launch [] (LaunchedAs 7), SpawnExit None, ReadStdout [1, 2], CallbackPop, CallbackDispatch,
      StopBegin False True, ExitReturned 0, ExitQueue, StopWait False, StopJoinExit, StopReset, StopRequest,
      CallbackCallsStop]"

text \<open>C38. A transport callback may call \<open>stop\<close>, the interface says. When it does so while another thread
  is inside \<open>stop\<close>, both block forever: the state is reachable from a normal start, and no further
  sequence of steps lets either call return.\<close>

theorem concurrent_stops_deadlock:
  "\<exists>t. transport_run (=) (start_actions @ deadlock_actions) (new_transport sample_transport_options) = Some t \<and>
     (\<forall>eq acts t'. transport_run eq acts t = Some t' \<longrightarrow>
        tp_pc t' = PcStopJoinCallback \<and> tp_callback_thread t' = CT_InStop)"
proof -
  obtain t where t: "transport_run (=) deadlock_actions launched_transport = Some t" and I: "stops_deadlocked t"
    by (simp add: deadlock_actions_def launched_transport_def run_simps stops_deadlocked_def)
  have "stops_deadlocked t'" if "transport_run eq acts t = Some t'" for eq acts t'
    using I by (rule transport_run_invariant [where I = stops_deadlocked, OF _ _ that, rotated]) (rule deadlocked_step)
  then show ?thesis using t by (auto simp: transport_run_append start_actions_launch stops_deadlocked_def)
qed

theorem concurrent_stops_deadlock_witness:
  "\<exists>t. transport_run (=) (start_actions @ deadlock_actions) (new_transport sample_transport_options) = Some t \<and>
     (\<forall>t'. transport_run (=) [ReadStderr ''x''] t = Some t' \<longrightarrow> tp_pc t' = PcStopJoinCallback)"
  using concurrent_stops_deadlock by blast

text \<open>A sender that has passed the first check of \<open>send\<close> finds the transport stopping at the second
  check, which holds the state mutex, and reports that through a full callback queue: the report
  overflows, and \<open>stop_after_callback_queue_overflow\<close> locks the state mutex the thread already holds.\<close>

definition stop_blocked :: "StdIoTransport \<Rightarrow> bool" where
  "stop_blocked t \<longleftrightarrow> tp_state_mutex_stuck t \<and> tp_pc t = PcStopWait"


definition overflow_actions :: "TransportAction list" where
  "overflow_actions =
     [Launch [] (LaunchedAs 7), SpawnExit None, SendCheck False [5], ReadStdout [1], ReadStdout [2],
      StopBegin False False, SendLocked 0 [5] WriteOk]"

lemma overflow_runs:
  "\<exists>t. transport_run (=) (start_actions @ overflow_actions) (new_transport sample_transport_options) = Some t \<and>
     stop_blocked t"
  by (simp add: transport_run_append start_actions_launch)
     (simp add: overflow_actions_def launched_transport_def run_simps stop_blocked_def send_check_def
        send_locked_def report_error_locked_cases error_event_def)



theorem transport_queue_bounded_witness:
  "\<exists>t. transport_run (=) (start_actions @ overflow_actions) (new_transport sample_transport_options) = Some t \<and>
     length (regular_events t) \<le> max_callback_queue_events (tp_options t) + (if tp_overflowed t then 1 else 0)"
  using overflow_runs transport_queue_bounded [of "(=)" "start_actions @ overflow_actions" sample_transport_options] by blast

section \<open>Stopping when the handlers return\<close>








section \<open>The environment of the process\<close>

lemma override_lookup:
  assumes "eq name name"
  shows "map_of (set_environment_override eq env name v) k =
     (if k = name then Some v else if eq k name then None else map_of env k)"
proof -
  let ?kept = "filter (\<lambda>p. \<not> eq (fst p) name) env"
  have kept: "map_of ?kept j = (if eq j name then None else map_of env j)" for j
    by (induction env) auto
  have "name \<notin> set (map fst ?kept)" using assms by auto
  then have "set_environment_override eq env name v = ?kept @ [(name, v)]"
    by (simp add: set_environment_override_def Let_def)
  then show ?thesis using kept [of k] kept [of name] assms by (auto simp: map_add_def split: option.splits)
qed

lemma merged_lookup_other:
  assumes "\<And>x. eq x x" and "\<forall>p\<in>set overrides. \<not> eq k (fst p)"
  shows "map_of (merged_process_environment eq inherited overrides) k = map_of inherited k"
  using assms(2)
proof (induction overrides arbitrary: inherited)
  case (Cons p ps)
  then have "k \<noteq> fst p" using assms(1) by auto
  then show ?case
    using Cons override_lookup [of eq "fst p" inherited "snd p" k] assms(1)
    by (simp add: merged_process_environment_def)
qed (simp add: merged_process_environment_def)

lemma merged_append:
  "merged_process_environment eq inherited (ps @ qs) =
     merged_process_environment eq (merged_process_environment eq inherited ps) qs"
  by (simp add: merged_process_environment_def)

text \<open>Layering overrides over the inherited environment, for any reflexive comparison of names (on
  Windows one that ignores case): a name that no override matches keeps its inherited value; an
  override that no later one matches has its value in the result, and no other spelling of its
  name remains.\<close>

theorem environment_overrides:
  assumes "\<And>x. eq x x" and "overrides = ps @ (name, v) # qs"
  shows "((\<forall>p\<in>set overrides. \<not> eq k (fst p)) \<longrightarrow>
       map_of (merged_process_environment eq inherited overrides) k = map_of inherited k) \<and>
     ((\<forall>q\<in>set qs. \<not> eq name (fst q)) \<longrightarrow>
       map_of (merged_process_environment eq inherited overrides) name = Some v) \<and>
     (eq k name \<and> k \<noteq> name \<and> (\<forall>q\<in>set qs. \<not> eq k (fst q)) \<longrightarrow>
       map_of (merged_process_environment eq inherited overrides) k = None)"
proof -
  have other: "map_of (merged_process_environment eq env os) j = map_of env j" if "\<forall>p\<in>set os. \<not> eq j (fst p)" for env os j
    using merged_lookup_other [of eq, OF assms(1) that] .
  have "merged_process_environment eq inherited overrides =
      merged_process_environment eq (set_environment_override eq (merged_process_environment eq inherited ps) name v) qs"
    by (simp add: assms(2) merged_process_environment_def)
  then have last: "map_of (merged_process_environment eq inherited overrides) j =
      map_of (set_environment_override eq (merged_process_environment eq inherited ps) name v) j"
    if "\<forall>q\<in>set qs. \<not> eq j (fst q)" for j using other [OF that] by simp
  show ?thesis
    using other [of overrides k inherited] last [of name] last [of k]
    by (simp add: override_lookup [of eq name, OF assms(1)])
qed

theorem environment_overrides_witness:
  "map_of (merged_process_environment (=) [(''PATH'', ''a''), (''MODE'', ''slow'')] [(''MODE'', ''fast'')]) ''PATH'' = Some ''a'' \<and>
   map_of (merged_process_environment (=) [(''PATH'', ''a''), (''MODE'', ''slow'')] [(''MODE'', ''fast'')]) ''MODE'' = Some ''fast''"
  using environment_overrides [of "(=)" "[(''MODE'', ''fast'')]" "[]" "''MODE''" "''fast''" "[]" "''PATH''"
      "[(''PATH'', ''a''), (''MODE'', ''slow'')]"] by simp

end
