(* ===== verification/Post_Processor.thy ===== *)
theory Post_Processor
  imports Client_Types "HOL-Library.Sublist"
begin

text \<open>
  \<open>src/qwen_tts_bridge/audio/post_processor.cpp\<close>: the chain of streaming PCM post-processors and the
  callback adapter around it. A processor is an object behind an interface: its operations on its own
  state, each of which may throw and leave the state as it is then. The chain runs them one after the
  other; the adapter turns the callbacks of a request into the calls of the wrapped callbacks.
\<close>

section \<open>Processors\<close>

datatype AudioTerminalReason = ReasonCompleted | ReasonCancelled | ReasonError

text \<open>What an operation throws: a \<open>std::exception\<close> with its text, or something else (\<open>None\<close>).\<close>

type_synonym exn = "string option"

record 's IAudioPostProcessor =
  pp_process :: "PcmChunk \<Rightarrow> 's \<Rightarrow> (exn + PcmChunk list) \<times> 's"
  pp_finish :: "AudioTerminalReason \<Rightarrow> 's \<Rightarrow> (exn + PcmChunk list) \<times> 's"
  pp_reset :: "'s \<Rightarrow> 's"

type_synonym 's processor_stage = "'s IAudioPostProcessor \<times> 's"

record 's AudioPostProcessorChain =
  ch_processors :: "'s processor_stage list"
  ch_started :: bool
  ch_finished :: bool

definition new_chain :: "'s AudioPostProcessorChain" where
  "new_chain = \<lparr>ch_processors = [], ch_started = False, ch_finished = False\<rparr>"

section \<open>The chain\<close>

text \<open>The inner loop of \<open>process_range\<close>: one stage over the chunks of the stage before it.\<close>

fun process_stage :: "'s IAudioPostProcessor \<Rightarrow> PcmChunk list \<Rightarrow> 's \<Rightarrow> (exn + PcmChunk list) \<times> 's" where
  "process_stage ops [] s = (Inr [], s)"
| "process_stage ops (c # cs) s =
     (case pp_process ops c s of
        (Inl e, s') \<Rightarrow> (Inl e, s')
      | (Inr emitted, s') \<Rightarrow>
          (case process_stage ops cs s' of
             (Inl e, s'') \<Rightarrow> (Inl e, s'')
           | (Inr rest, s'') \<Rightarrow> (Inr (emitted @ rest), s'')))"

text \<open>\<open>process_range\<close> from a given stage on.\<close>

fun process_range :: "'s processor_stage list \<Rightarrow> PcmChunk list \<Rightarrow> (exn + PcmChunk list) \<times> 's processor_stage list" where
  "process_range [] chunks = (Inr chunks, [])"
| "process_range ((ops, s) # ps) chunks =
     (case process_stage ops chunks s of
        (Inl e, s') \<Rightarrow> (Inl e, (ops, s') # ps)
      | (Inr chunks', s') \<Rightarrow> (let (r, ps') = process_range ps chunks' in (r, (ops, s') # ps')))"

lemma length_process_range: "length (snd (process_range ps chunks)) = length ps"
  by (induction ps chunks rule: process_range.induct) (auto split: prod.splits sum.splits)

text \<open>The loop of \<open>finish\<close>: every stage is finished and what it releases runs through the later stages
  before these are finished in turn.\<close>

function finish_range :: "AudioTerminalReason \<Rightarrow> 's processor_stage list \<Rightarrow> (exn + PcmChunk list) \<times> 's processor_stage list" where
  "finish_range reason [] = (Inr [], [])"
| "finish_range reason ((ops, s) # ps) =
     (case pp_finish ops reason s of
        (Inl e, s') \<Rightarrow> (Inl e, (ops, s') # ps)
      | (Inr chunks, s') \<Rightarrow>
          (case process_range ps chunks of
             (Inl e, ps') \<Rightarrow> (Inl e, (ops, s') # ps')
           | (Inr out, ps') \<Rightarrow>
               (case finish_range reason ps' of
                  (Inl e, ps'') \<Rightarrow> (Inl e, (ops, s') # ps'')
                | (Inr rest, ps'') \<Rightarrow> (Inr (out @ rest), (ops, s') # ps''))))"
  by pat_completeness auto
termination
proof (relation "measure (\<lambda>(reason, ps). length ps)")
  fix reason :: AudioTerminalReason and ops :: "'s IAudioPostProcessor" and s s' :: 's
    and ps ps' :: "'s processor_stage list" and x r and chunks out :: "PcmChunk list" and y
  assume "(r, ps') = process_range ps chunks"
  then have "length ps' = length ps" using length_process_range [of ps chunks] by (metis snd_conv)
  then show "((reason, ps'), (reason, (ops, s) # ps)) \<in> measure (\<lambda>(reason, ps). length ps)" by simp
qed auto

datatype chain_error = NullProcessor | ProcessorsAfterStart

definition chain_add ::
  "'s processor_stage option \<Rightarrow> 's AudioPostProcessorChain \<Rightarrow> chain_error + 's AudioPostProcessorChain" where
  "chain_add processor ch =
     (case processor of
        None \<Rightarrow> Inl NullProcessor
      | Some p \<Rightarrow> if ch_started ch then Inl ProcessorsAfterStart
                  else Inr (ch\<lparr>ch_processors := ch_processors ch @ [p]\<rparr>))"

definition chain_process ::
  "PcmChunk \<Rightarrow> 's AudioPostProcessorChain \<Rightarrow> (exn + PcmChunk list) \<times> 's AudioPostProcessorChain" where
  "chain_process chunk ch =
     (let ch = ch\<lparr>ch_started := True\<rparr> in
      if ch_finished ch then (Inr [], ch)
      else (let (r, ps) = process_range (ch_processors ch) [chunk] in (r, ch\<lparr>ch_processors := ps\<rparr>)))"

definition chain_finish ::
  "AudioTerminalReason \<Rightarrow> 's AudioPostProcessorChain \<Rightarrow> (exn + PcmChunk list) \<times> 's AudioPostProcessorChain" where
  "chain_finish reason ch =
     (let ch = ch\<lparr>ch_started := True\<rparr> in
      if ch_finished ch then (Inr [], ch)
      else (let (r, ps) = finish_range reason (ch_processors ch) in
            (r, ch\<lparr>ch_finished := True, ch_processors := ps\<rparr>)))"

definition chain_reset :: "'s AudioPostProcessorChain \<Rightarrow> 's AudioPostProcessorChain" where
  "chain_reset ch =
     ch\<lparr>ch_processors := map (\<lambda>(ops, s). (ops, pp_reset ops s)) (ch_processors ch),
        ch_started := False, ch_finished := False\<rparr>"

definition chain_empty :: "'s AudioPostProcessorChain \<Rightarrow> bool" where
  "chain_empty ch \<longleftrightarrow> ch_processors ch = []"

section \<open>The callback adapter\<close>

record AdapterState =
  ad_terminal :: bool
  ad_request_id :: RequestId

definition exception_message :: "exn \<Rightarrow> string" where
  "exception_message e = (case e of Some what \<Rightarrow> what | None \<Rightarrow> ''unknown exception'')"

definition make_post_processing_error :: "AdapterState \<Rightarrow> exn \<Rightarrow> RequestId \<Rightarrow> TtsError" where
  "make_post_processing_error a e fallback =
     \<lparr>te_request_id = (if ad_request_id a \<noteq> 0 then ad_request_id a else fallback),
      te_category = ''client_error'', te_code = ''audio_post_processing_failed'',
      te_message = ''audio post-processing failed: '' @ exception_message e\<rparr>"

definition timing_of :: "PcmChunk \<Rightarrow> SpeechTimingChunk" where
  "timing_of c = \<lparr>st_request_id = pcm_request_id c, st_first_sample = first_sample c,
     st_sample_count = sample_count c, st_sample_rate = sample_rate (pcm_format c)\<rparr>"

definition emit_chunks :: "TtsCallbacks \<Rightarrow> PcmChunk list \<Rightarrow> CallbackCall list" where
  "emit_chunks cb chunks =
     (if \<not> on_audio cb \<and> \<not> on_timing cb then []
      else concat (map (\<lambda>c. (if on_audio cb then [AudioCall c] else []) @
                            (if on_timing cb \<and> sample_count c \<noteq> 0 then [TimingCall (timing_of c)] else [])) chunks))"

definition emit_error :: "TtsCallbacks \<Rightarrow> TtsError \<Rightarrow> CallbackCall list" where
  "emit_error cb e = (if on_error cb then [ErrorCall e] else [])"

text \<open>The bodies of the wrapped callbacks: the calls they make, in order, when none of these throws.\<close>

definition adapter_audio ::
  "TtsCallbacks \<Rightarrow> PcmChunk \<Rightarrow> AdapterState \<times> 's AudioPostProcessorChain \<Rightarrow>
     CallbackCall list \<times> AdapterState \<times> 's AudioPostProcessorChain" where
  "adapter_audio cb chunk st =
     (case st of (a, ch) \<Rightarrow>
        if ad_terminal a then ([], a, ch)
        else
          (let a = (if ad_request_id a = 0 then a\<lparr>ad_request_id := pcm_request_id chunk\<rparr> else a) in
           case chain_process chunk ch of
             (Inl e, ch') \<Rightarrow>
               (emit_error cb (make_post_processing_error a e (pcm_request_id chunk)), a\<lparr>ad_terminal := True\<rparr>, ch')
           | (Inr out, ch') \<Rightarrow> (emit_chunks cb out, a, ch')))"

definition adapter_terminal ::
  "TtsCallbacks \<Rightarrow> AudioTerminalReason \<Rightarrow> CallbackCall list \<Rightarrow> RequestId \<Rightarrow>
     AdapterState \<times> 's AudioPostProcessorChain \<Rightarrow> CallbackCall list \<times> AdapterState \<times> 's AudioPostProcessorChain" where
  "adapter_terminal cb reason final fallback st =
     (case st of (a, ch) \<Rightarrow>
        case chain_finish reason ch of
          (Inl e, ch') \<Rightarrow> (emit_error cb (make_post_processing_error a e fallback), a\<lparr>ad_terminal := True\<rparr>, ch')
        | (Inr out, ch') \<Rightarrow> (emit_chunks cb out @ final, a\<lparr>ad_terminal := True\<rparr>, ch'))"

fun adapter_event ::
  "TtsCallbacks \<Rightarrow> CallbackCall \<Rightarrow> AdapterState \<times> 's AudioPostProcessorChain \<Rightarrow>
     CallbackCall list \<times> AdapterState \<times> 's AudioPostProcessorChain" where
  "adapter_event cb (TextPreparedCall p) st = (if on_text_prepared cb then [TextPreparedCall p] else [], st)"
| "adapter_event cb (AudioCall chunk) st = adapter_audio cb chunk st"
| "adapter_event cb (TimingCall timing) st = ([], st)"
| "adapter_event cb CompletedCall st =
     (if ad_terminal (fst st) then ([], st)
      else adapter_terminal cb ReasonCompleted (if on_completed cb then [CompletedCall] else []) (ad_request_id (fst st)) st)"
| "adapter_event cb (CompletionMetadataCall c) st =
     (if \<not> ad_terminal (fst st) \<and> on_completion_metadata cb then [CompletionMetadataCall c] else [], st)"
| "adapter_event cb CancelledCall st =
     (if ad_terminal (fst st) then ([], st)
      else adapter_terminal cb ReasonCancelled (if on_cancelled cb then [CancelledCall] else []) (ad_request_id (fst st)) st)"
| "adapter_event cb (ErrorCall e) st =
     (if ad_terminal (fst st) then ([], st)
      else
        (let a = (if ad_request_id (fst st) = 0 then (fst st)\<lparr>ad_request_id := te_request_id e\<rparr> else fst st) in
         adapter_terminal cb ReasonError (emit_error cb e) (te_request_id e) (a, snd st)))"

text \<open>\<open>with_audio_post_processing\<close>: the wrapped callbacks; timing is produced by the adapter itself.\<close>

definition wrapped_callbacks :: TtsCallbacks where
  "wrapped_callbacks = \<lparr>on_text_prepared = True, on_audio = True, on_timing = False, on_completed = True,
     on_completion_metadata = True, on_cancelled = True, on_error = True\<rparr>"

record 's Adapter =
  ap_callbacks :: TtsCallbacks
  ap_events :: "CallbackCall list"
  ap_dispatching :: bool
  ap_state :: "AdapterState \<times> 's AudioPostProcessorChain"
  ap_log :: "CallbackCall list"
  ap_rethrows :: bool

definition with_audio_post_processing :: "'s AudioPostProcessorChain \<Rightarrow> TtsCallbacks \<Rightarrow> 's Adapter" where
  "with_audio_post_processing ch cb =
     \<lparr>ap_callbacks = cb, ap_events = [], ap_dispatching = False,
      ap_state = (\<lparr>ad_terminal = False, ad_request_id = 0\<rparr>, ch), ap_log = [], ap_rethrows = False\<rparr>"

text \<open>\<open>dispatch_event\<close>: a call of a wrapped callback, possibly from inside a wrapped one or from another
  thread, appends an event; whoever finds no dispatcher running becomes it and runs events until
  the queue is empty. A call that a running event makes may throw (the index says which): the rest
  of that event is skipped and the first exception is rethrown when the queue is empty.\<close>

datatype AdapterAction = Arrive CallbackCall | RunNext "nat option" | FinishDispatch

fun adapter_step :: "AdapterAction \<Rightarrow> 's Adapter \<Rightarrow> 's Adapter option" where
  "adapter_step (Arrive call) ap = Some (ap\<lparr>ap_events := ap_events ap @ [call], ap_dispatching := True\<rparr>)"
| "adapter_step (RunNext throws) ap =
     (case ap_events ap of
        [] \<Rightarrow> None
      | call # calls \<Rightarrow>
          if \<not> ap_dispatching ap then None
          else
            (let (made, st) = adapter_event (ap_callbacks ap) call (ap_state ap) in
             Some (case throws of
                     None \<Rightarrow> ap\<lparr>ap_events := calls, ap_state := st, ap_log := ap_log ap @ made\<rparr>
                   | Some k \<Rightarrow> ap\<lparr>ap_events := calls, ap_state := st, ap_log := ap_log ap @ take (Suc k) made,
                                  ap_rethrows := ap_rethrows ap \<or> k < length made\<rparr>)))"
| "adapter_step FinishDispatch ap =
     (if ap_events ap = [] \<and> ap_dispatching ap then Some (ap\<lparr>ap_dispatching := False, ap_rethrows := False\<rparr>) else None)"

fun adapter_run :: "AdapterAction list \<Rightarrow> 's Adapter \<Rightarrow> 's Adapter option" where
  "adapter_run [] ap = Some ap"
| "adapter_run (a # acts) ap = Option.bind (adapter_step a ap) (adapter_run acts)"

section \<open>What the wrapped callbacks see\<close>

fun ends_request :: "CallbackCall \<Rightarrow> bool" where
  "ends_request CompletedCall = True"
| "ends_request CancelledCall = True"
| "ends_request (ErrorCall e) = True"
| "ends_request c = False"

fun streams_data :: "CallbackCall \<Rightarrow> bool" where
  "streams_data (AudioCall c) = True"
| "streams_data (TimingCall t) = True"
| "streams_data (CompletionMetadataCall m) = True"
| "streams_data c = False"

text \<open>One terminal call at most, and no audio, timing or metadata after it.\<close>

fun terminal_is_last :: "CallbackCall list \<Rightarrow> bool" where
  "terminal_is_last [] = True"
| "terminal_is_last (c # cs) =
     (if ends_request c then \<not> (\<exists>d\<in>set cs. ends_request d \<or> streams_data d) else terminal_is_last cs)"

lemma terminal_is_last_append:
  "(\<forall>c\<in>set xs. \<not> ends_request c) \<Longrightarrow> terminal_is_last (xs @ ys) = terminal_is_last ys"
  by (induction xs) auto

lemma terminal_is_last_quiet:
  "terminal_is_last xs \<Longrightarrow> (\<forall>c\<in>set ys. \<not> ends_request c \<and> \<not> streams_data c) \<Longrightarrow> terminal_is_last (xs @ ys)"
proof (induction xs)
  case Nil
  then show ?case by (induction ys) auto
qed auto

lemma emit_chunks_no_end: "c \<in> set (emit_chunks cb chunks) \<Longrightarrow> \<not> ends_request c"
  by (auto simp: emit_chunks_def split: if_splits)

text \<open>The calls of one event and the flag it leaves: before the terminal flag is set no call ends the
  request; once it is set only the prepared text passes.\<close>

definition event_made :: "bool \<Rightarrow> CallbackCall list \<Rightarrow> bool \<Rightarrow> bool" where
  "event_made before made after \<longleftrightarrow>
     (before \<longrightarrow> after \<and> (\<forall>c\<in>set made. \<not> ends_request c \<and> \<not> streams_data c)) \<and>
     (\<not> after \<longrightarrow> (\<forall>c\<in>set made. \<not> ends_request c)) \<and>
     (\<forall>c\<in>set (butlast made). \<not> ends_request c)"

lemma butlast_short: "length final \<le> 1 \<Longrightarrow> c \<in> set (butlast (xs @ final)) \<Longrightarrow> c \<in> set xs"
  by (cases final) (auto dest: in_set_butlastD)

lemma length_emit_error: "length (emit_error cb e) \<le> 1"
  by (simp add: emit_error_def)

lemma adapter_terminal_made:
  assumes "adapter_terminal cb reason final fallback st = (made, a', ch')" and "length final \<le> 1"
  shows "ad_terminal a' \<and> (\<forall>c\<in>set (butlast made). \<not> ends_request c)"
proof -
  have "\<not> ends_request c" if "c \<in> set (butlast (emit_chunks cb out @ final))" for c out
    using butlast_short [OF assms(2) that] by (rule emit_chunks_no_end)
  then show ?thesis
    using assms(1) by (auto simp: adapter_terminal_def emit_error_def split: prod.splits sum.splits if_splits)
qed

lemma adapter_audio_made:
  assumes "adapter_audio cb chunk (a, ch) = (made, a', ch')"
  shows "event_made (ad_terminal a) made (ad_terminal a')"
  using assms emit_chunks_no_end [of _ cb]
  by (auto simp: adapter_audio_def event_made_def emit_error_def Let_def dest: in_set_butlastD
      split: prod.splits sum.splits if_splits)

lemma adapter_event_made:
  assumes "adapter_event cb call (a, ch) = (made, a', ch')"
  shows "event_made (ad_terminal a) made (ad_terminal a')"
proof -
  have terminal: "event_made False made (ad_terminal a')"
    if "adapter_terminal cb reason final fallback st = (made, a', ch')" "length final \<le> 1"
    for reason final fallback and st :: "AdapterState \<times> 'a AudioPostProcessorChain"
    using adapter_terminal_made [OF that] by (simp add: event_made_def)
  show ?thesis
  proof (cases call)
    case (AudioCall chunk)
    then show ?thesis using assms by (simp add: adapter_audio_made)
  next
    case CompletedCall
    then show ?thesis using assms terminal by (auto simp: event_made_def split: if_splits)
  next
    case CancelledCall
    then show ?thesis using assms terminal by (auto simp: event_made_def split: if_splits)
  next
    case (ErrorCall e)
    then show ?thesis
      using assms terminal [OF _ length_emit_error]
      by (cases "ad_terminal a") (auto simp: event_made_def Let_def split: if_splits)
  qed (use assms in \<open>auto simp: event_made_def split: if_splits\<close>)
qed

definition adapter_inv :: "'s Adapter \<Rightarrow> bool" where
  "adapter_inv ap \<longleftrightarrow> terminal_is_last (ap_log ap) \<and>
     (\<not> ad_terminal (fst (ap_state ap)) \<longrightarrow> (\<forall>c\<in>set (ap_log ap). \<not> ends_request c))"

lemma event_made_prefix:
  assumes "event_made before made after" and "prefix part made"
  shows "event_made before part after"
proof -
  obtain rest where rest: "made = part @ rest" using assms(2) by (auto simp: prefix_def)
  have "c \<in> set (butlast made)" if "c \<in> set (butlast part)" for c
    using that unfolding rest by (auto simp: butlast_append dest: in_set_butlastD)
  then show ?thesis using assms(1) by (auto simp: event_made_def rest)
qed

lemma terminal_is_last_single: "(\<forall>c\<in>set (butlast xs). \<not> ends_request c) \<Longrightarrow> terminal_is_last xs"
  by (induction xs) (auto split: if_splits)

lemma adapter_inv_log:
  assumes "terminal_is_last made0" and "\<not> before \<longrightarrow> (\<forall>c\<in>set made0. \<not> ends_request c)" and "event_made before made after"
  shows "terminal_is_last (made0 @ made) \<and> (\<not> after \<longrightarrow> (\<forall>c\<in>set (made0 @ made). \<not> ends_request c))"
proof (cases before)
  case True
  then show ?thesis using assms terminal_is_last_quiet by (auto simp: event_made_def)
next
  case False
  then show ?thesis
    using assms terminal_is_last_append [of made0 made] terminal_is_last_single [of made] by (auto simp: event_made_def)
qed

lemma adapter_inv_step:
  assumes "adapter_inv ap" and "adapter_step act ap = Some ap'"
  shows "adapter_inv ap'"
proof (cases act)
  case (RunNext throws)
  then obtain call calls where ev: "ap_events ap = call # calls" using assms(2) by (auto split: list.splits)
  obtain made a' ch' where run: "adapter_event (ap_callbacks ap) call (fst (ap_state ap), snd (ap_state ap)) = (made, a', ch')"
    by (cases "adapter_event (ap_callbacks ap) call (ap_state ap)") auto
  have "event_made (ad_terminal (fst (ap_state ap))) part (ad_terminal a')" if "prefix part made" for part
    using event_made_prefix [OF adapter_event_made [OF run] that] .
  then have part: "adapter_inv (ap\<lparr>ap_events := calls, ap_state := (a', ch'), ap_log := ap_log ap @ part\<rparr>)"
    if "prefix part made" for part
    using adapter_inv_log [of "ap_log ap" "ad_terminal (fst (ap_state ap))" part "ad_terminal a'"] assms(1) that
    by (simp add: adapter_inv_def)
  show ?thesis
  proof (cases throws)
    case None
    then show ?thesis using assms(2) RunNext ev run part [of made] by (auto split: if_splits)
  next
    case (Some k)
    then show ?thesis
      using assms(2) RunNext ev run part [OF take_is_prefix, of "Suc k"]
      by (auto simp: adapter_inv_def split: if_splits)
  qed
qed (use assms in \<open>auto simp: adapter_inv_def split: if_splits\<close>)

lemma adapter_inv_run: "adapter_inv ap \<Longrightarrow> adapter_run acts ap = Some ap' \<Longrightarrow> adapter_inv ap'"
proof (induction acts arbitrary: ap)
  case (Cons a acts)
  then obtain u where "adapter_step a ap = Some u" "adapter_run acts u = Some ap'"
    by (auto simp: Option.bind_eq_Some_conv)
  then show ?case using Cons adapter_inv_step by blast
qed simp

text \<open>C31. Whatever the processors do, whatever the wrapped callbacks throw, and in whatever order and from
  wherever the callbacks of the request are called: the application sees at most one terminal
  callback, and no audio, timing or completion metadata after it.\<close>

theorem adapter_one_terminal:
  assumes "adapter_run acts (with_audio_post_processing ch cb) = Some ap"
  shows "terminal_is_last (ap_log ap)"
proof -
  have "adapter_inv (with_audio_post_processing ch cb)"
    by (simp add: adapter_inv_def with_audio_post_processing_def)
  then show ?thesis using adapter_inv_run [OF _ assms] by (simp add: adapter_inv_def)
qed

text \<open>A processor that throws on its second chunk, for concrete runs.\<close>

definition failing_processor :: "nat IAudioPostProcessor" where
  "failing_processor =
     \<lparr>pp_process = (\<lambda>c n. if n = 0 then (Inr [c], 1) else (Inl (Some ''bad sample''), n)),
      pp_finish = (\<lambda>r n. (Inr [], n)), pp_reset = (\<lambda>n. 0)\<rparr>"

definition failing_chain :: "nat AudioPostProcessorChain" where
  "failing_chain = new_chain\<lparr>ch_processors := [(failing_processor, 0)]\<rparr>"

definition every_callback :: TtsCallbacks where
  "every_callback = \<lparr>on_text_prepared = True, on_audio = True, on_timing = True, on_completed = True,
     on_completion_metadata = True, on_cancelled = True, on_error = True\<rparr>"

definition sample_chunk :: PcmChunk where
  "sample_chunk = \<lparr>pcm_request_id = 5, pcm_format = default_audio_format, pcm_bytes = [1, 2], first_sample = 0,
     sample_count = 1\<rparr>"

lemma failing_run:
  "\<exists>ap. adapter_run [Arrive (AudioCall sample_chunk), RunNext None, Arrive (AudioCall sample_chunk), Arrive CompletedCall,
      RunNext None, RunNext None, FinishDispatch] (with_audio_post_processing failing_chain every_callback) = Some ap \<and>
     ap_log ap = [AudioCall sample_chunk, TimingCall (timing_of sample_chunk),
       ErrorCall \<lparr>te_request_id = 5, te_category = ''client_error'', te_code = ''audio_post_processing_failed'',
         te_message = ''audio post-processing failed: bad sample''\<rparr>]"
  by (simp add: with_audio_post_processing_def failing_chain_def new_chain_def every_callback_def
      failing_processor_def adapter_audio_def chain_process_def Let_def emit_chunks_def emit_error_def
      make_post_processing_error_def exception_message_def) (simp add: sample_chunk_def)

theorem adapter_one_terminal_witness:
  "\<exists>ap. adapter_run [Arrive (AudioCall sample_chunk), RunNext None, Arrive (AudioCall sample_chunk), Arrive CompletedCall,
      RunNext None, RunNext None, FinishDispatch] (with_audio_post_processing failing_chain every_callback) = Some ap \<and>
     length (ap_log ap) = 3 \<and> terminal_is_last (ap_log ap)"
proof -
  obtain ap where "adapter_run [Arrive (AudioCall sample_chunk), RunNext None, Arrive (AudioCall sample_chunk),
      Arrive CompletedCall, RunNext None, RunNext None, FinishDispatch]
      (with_audio_post_processing failing_chain every_callback) = Some ap" "length (ap_log ap) = 3"
    using failing_run by auto
  then show ?thesis using adapter_one_terminal [of _ failing_chain every_callback] by blast
qed

text \<open>When the application sets its terminal callbacks and none of its callbacks throws, the terminal
  flag is set together with the terminal call.\<close>

definition ends_heard :: "TtsCallbacks \<Rightarrow> bool" where
  "ends_heard cb \<longleftrightarrow> on_completed cb \<and> on_cancelled cb \<and> on_error cb"

lemma adapter_terminal_heard:
  assumes "adapter_terminal cb reason final fallback st = (made, a', ch')" and "ends_heard cb"
    and "\<exists>c\<in>set final. ends_request c"
  shows "ad_terminal a' \<and> (\<exists>c\<in>set made. ends_request c)"
  using assms by (auto simp: adapter_terminal_def emit_error_def ends_heard_def split: prod.splits sum.splits)

lemma adapter_event_heard:
  assumes "adapter_event cb call (a, ch) = (made, a', ch')" and "ends_heard cb"
  shows "(ends_request call \<longrightarrow> ad_terminal a') \<and> (ad_terminal a' \<longrightarrow> ad_terminal a \<or> (\<exists>c\<in>set made. ends_request c)) \<and>
     (ad_terminal a \<longrightarrow> ad_terminal a')"
proof (cases "ad_terminal a")
  case True
  then show ?thesis
    using assms(1) adapter_event_made [OF assms(1)] by (auto simp: event_made_def)
next
  case False
  have heard: "on_completed cb" "on_cancelled cb" "on_error cb" using assms(2) by (simp_all add: ends_heard_def)
  show ?thesis
  proof (cases call)
    case (AudioCall chunk)
    then show ?thesis
      using assms(1) False heard
      by (auto simp: adapter_audio_def emit_error_def Let_def split: prod.splits sum.splits if_splits)
  next
    case CompletedCall
    then show ?thesis using assms False heard adapter_terminal_heard by fastforce
  next
    case CancelledCall
    then show ?thesis using assms False heard adapter_terminal_heard by fastforce
  next
    case (ErrorCall e)
    then obtain b where "adapter_terminal cb ReasonError (emit_error cb e) (te_request_id e) (b, ch) = (made, a', ch')"
      using assms(1) False by (auto simp: Let_def split: if_splits)
    then show ?thesis
      using adapter_terminal_heard assms(2) heard False ErrorCall by (fastforce simp: emit_error_def)
  qed (use assms(1) False in \<open>auto split: if_splits\<close>)
qed

definition heard_inv :: "bool \<Rightarrow> 's Adapter \<Rightarrow> bool" where
  "heard_inv owed ap \<longleftrightarrow> ends_heard (ap_callbacks ap) \<and>
     (ad_terminal (fst (ap_state ap)) \<longrightarrow> (\<exists>c\<in>set (ap_log ap). ends_request c)) \<and>
     (owed \<longrightarrow> ad_terminal (fst (ap_state ap)) \<or> (\<exists>c\<in>set (ap_events ap). ends_request c))"

lemma heard_inv_step:
  assumes "heard_inv owed ap" and "adapter_step act ap = Some ap'" and "\<forall>k. act \<noteq> RunNext (Some k)"
  shows "heard_inv (owed \<or> (\<exists>c. act = Arrive c \<and> ends_request c)) ap'"
proof (cases act)
  case (RunNext throws)
  then have none: "throws = None" using assms(3) by (cases throws) auto
  obtain call calls where ev: "ap_events ap = call # calls" using assms(2) RunNext by (auto split: list.splits)
  obtain made a' ch' where run: "adapter_event (ap_callbacks ap) call (fst (ap_state ap), snd (ap_state ap)) = (made, a', ch')"
    by (cases "adapter_event (ap_callbacks ap) call (ap_state ap)") auto
  then show ?thesis
    using assms(1,2) RunNext none ev adapter_event_heard [OF run] by (auto simp: heard_inv_def split: if_splits)
qed (use assms in \<open>auto simp: heard_inv_def split: if_splits\<close>)

lemma heard_inv_run:
  "heard_inv owed ap \<Longrightarrow> adapter_run acts ap = Some ap' \<Longrightarrow> \<forall>k. RunNext (Some k) \<notin> set acts \<Longrightarrow>
     heard_inv (owed \<or> (\<exists>c. Arrive c \<in> set acts \<and> ends_request c)) ap'"
proof (induction acts arbitrary: ap owed)
  case (Cons a acts)
  obtain u where u: "adapter_step a ap = Some u" "adapter_run acts u = Some ap'"
    using Cons.prems(2) by (auto simp: Option.bind_eq_Some_conv)
  have "heard_inv (owed \<or> (\<exists>c. a = Arrive c \<and> ends_request c)) u"
    using heard_inv_step [OF Cons.prems(1) u(1)] Cons.prems(3) by auto
  from Cons.IH [OF this u(2)] Cons.prems(3) show ?case
    by (elim meta_impE) (auto simp: heard_inv_def)
qed simp

lemma terminal_is_last_count: "terminal_is_last cs \<Longrightarrow> c \<in> set cs \<Longrightarrow> ends_request c \<Longrightarrow> length (filter ends_request cs) = 1"
  by (induction cs) (auto simp: filter_empty_conv split: if_splits)

text \<open>C32. The adapter loses no terminal event: when the application has set its terminal callbacks and its
  callbacks do not throw, then after a terminal event has arrived and the queue has been run,
  exactly one terminal callback has been made, also when a processor threw.\<close>

theorem adapter_delivers_terminal:
  assumes "adapter_run acts (with_audio_post_processing ch cb) = Some ap" and "ap_events ap = []"
    and "on_completed cb" and "on_cancelled cb" and "on_error cb"
    and "\<forall>k. RunNext (Some k) \<notin> set acts" and "Arrive c \<in> set acts" and "ends_request c"
  shows "length (filter ends_request (ap_log ap)) = 1"
proof -
  have "heard_inv False (with_audio_post_processing ch cb)"
    using assms(3-5) by (simp add: heard_inv_def with_audio_post_processing_def ends_heard_def)
  from heard_inv_run [OF this assms(1,6)] have "\<exists>c\<in>set (ap_log ap). ends_request c"
    using assms(2,7,8) by (auto simp: heard_inv_def)
  moreover have "adapter_inv (with_audio_post_processing ch cb)"
    by (simp add: adapter_inv_def with_audio_post_processing_def)
  then have "terminal_is_last (ap_log ap)" using adapter_inv_run [OF _ assms(1)] by (simp add: adapter_inv_def)
  ultimately show ?thesis using terminal_is_last_count by blast
qed

theorem adapter_delivers_terminal_witness:
  "\<exists>ap. adapter_run [Arrive (AudioCall sample_chunk), RunNext None, Arrive (AudioCall sample_chunk), Arrive CompletedCall,
      RunNext None, RunNext None, FinishDispatch] (with_audio_post_processing failing_chain every_callback) = Some ap \<and>
     length (filter ends_request (ap_log ap)) = 1"
proof -
  let ?acts = "[Arrive (AudioCall sample_chunk), RunNext None, Arrive (AudioCall sample_chunk), Arrive CompletedCall,
      RunNext None, RunNext None, FinishDispatch]"
  obtain ap where run: "adapter_run ?acts (with_audio_post_processing failing_chain every_callback) = Some ap"
    using failing_run by blast
  then have "ap_events ap = []"
    by (auto simp: Option.bind_eq_Some_conv split: if_splits)
  then show ?thesis
    using adapter_delivers_terminal [OF run, of CompletedCall] run by (auto simp: every_callback_def)
qed

section \<open>Processors that keep every byte\<close>

text \<open>
  What the interface asks of a processor that buffers: every byte that goes in comes out in order or
  is still held, and finishing after an error releases what is held, unchanged. A chain of such
  processors then loses nothing and reorders nothing.
\<close>

definition chunk_bytes :: "PcmChunk list \<Rightarrow> byte list" where
  "chunk_bytes cs = concat (map pcm_bytes cs)"

lemma chunk_bytes_simps [simp]:
  "chunk_bytes [] = []" "chunk_bytes (c # cs) = pcm_bytes c @ chunk_bytes cs"
  "chunk_bytes (cs @ ds) = chunk_bytes cs @ chunk_bytes ds"
  by (simp_all add: chunk_bytes_def)

fun process_chunks ::
  "PcmChunk list \<Rightarrow> 's AudioPostProcessorChain \<Rightarrow> (exn + PcmChunk list) \<times> 's AudioPostProcessorChain" where
  "process_chunks [] ch = (Inr [], ch)"
| "process_chunks (c # cs) ch =
     (case chain_process c ch of
        (Inl e, ch') \<Rightarrow> (Inl e, ch')
      | (Inr out, ch') \<Rightarrow>
          (case process_chunks cs ch' of
             (Inl e, ch'') \<Rightarrow> (Inl e, ch'')
           | (Inr outs, ch'') \<Rightarrow> (Inr (out @ outs), ch'')))"

locale retaining_stage =
  fixes ops :: "'s IAudioPostProcessor"
    and ready :: "'s \<Rightarrow> bool"
    and held :: "'s \<Rightarrow> byte list"
  assumes process_keeps: "ready s \<Longrightarrow> pp_process ops c s = (Inr out, s') \<Longrightarrow>
      ready s' \<and> held s @ pcm_bytes c = chunk_bytes out @ held s'"
    and error_releases: "ready s \<Longrightarrow> pp_finish ops ReasonError s = (Inr out, s') \<Longrightarrow> chunk_bytes out = held s"
begin

definition pipeline :: "'s processor_stage list \<Rightarrow> bool" where
  "pipeline ps \<longleftrightarrow> (\<forall>p\<in>set ps. fst p = ops \<and> ready (snd p))"

text \<open>A later stage holds earlier bytes.\<close>

definition pipeline_held :: "'s processor_stage list \<Rightarrow> byte list" where
  "pipeline_held ps = concat (rev (map (\<lambda>p. held (snd p)) ps))"

lemma stage_keeps:
  "ready s \<Longrightarrow> process_stage ops cs s = (Inr out, s') \<Longrightarrow>
     ready s' \<and> held s @ chunk_bytes cs = chunk_bytes out @ held s'"
proof (induction cs arbitrary: s out)
  case (Cons c cs)
  obtain em s1 rest where st: "pp_process ops c s = (Inr em, s1)" "process_stage ops cs s1 = (Inr rest, s')"
    "out = em @ rest" using Cons.prems(2) by (auto split: prod.splits sum.splits)
  note k = process_keeps [OF Cons.prems(1) st(1)]
  then have "ready s' \<and> held s1 @ chunk_bytes cs = chunk_bytes rest @ held s'" using Cons.IH st(2) by blast
  then show ?case
    using k st(3) append_assoc [of "held s" "pcm_bytes c" "chunk_bytes cs"] by simp
qed simp

lemma range_keeps:
  "pipeline ps \<Longrightarrow> process_range ps cs = (Inr out, ps') \<Longrightarrow>
     pipeline ps' \<and> pipeline_held ps @ chunk_bytes cs = chunk_bytes out @ pipeline_held ps'"
proof (induction ps arbitrary: cs ps')
  case (Cons p ps)
  obtain s where p: "p = (ops, s)" "ready s" "pipeline ps" using Cons.prems(1) by (cases p) (auto simp: pipeline_def)
  obtain mid s1 ps1 where st: "process_stage ops cs s = (Inr mid, s1)" "process_range ps mid = (Inr out, ps1)"
    "ps' = (ops, s1) # ps1" using Cons.prems(2) p(1) by (auto split: prod.splits sum.splits)
  have "ready s1 \<and> held s @ chunk_bytes cs = chunk_bytes mid @ held s1" by (rule stage_keeps [OF p(2) st(1)])
  moreover have "pipeline ps1 \<and> pipeline_held ps @ chunk_bytes mid = chunk_bytes out @ pipeline_held ps1"
    by (rule Cons.IH [OF p(3) st(2)])
  ultimately show ?case
    using append_assoc [of "pipeline_held ps" "chunk_bytes mid" "held s1"]
    by (simp add: p(1) st(3) pipeline_held_def pipeline_def)
qed (simp add: pipeline_def pipeline_held_def)

lemma finish_releases:
  "pipeline ps \<Longrightarrow> finish_range ReasonError ps = (Inr out, ps') \<Longrightarrow> chunk_bytes out = pipeline_held ps"
proof (induction "length ps" arbitrary: ps out ps')
  case (Suc n)
  then obtain p qs where ps: "ps = p # qs" by (cases ps) auto
  then obtain s where p: "p = (ops, s)" "ready s" "pipeline qs" using Suc.prems(1) by (cases p) (auto simp: pipeline_def)
  obtain rel s1 mid qs1 rest qs2 where st: "pp_finish ops ReasonError s = (Inr rel, s1)"
    "process_range qs rel = (Inr mid, qs1)" "finish_range ReasonError qs1 = (Inr rest, qs2)" "out = mid @ rest"
    using Suc.prems(2) ps p(1) by (auto split: prod.splits sum.splits)
  note k = range_keeps [OF p(3) st(2)]
  have "n = length qs1" using Suc.hyps(2) ps length_process_range [of qs rel] st(2) by simp
  then have "chunk_bytes rest = pipeline_held qs1" using Suc.hyps(1) k st(3) by blast
  then show ?case
    using k error_releases [OF p(2) st(1)] st(4) by (simp add: ps p(1) pipeline_held_def)
qed (simp add: pipeline_held_def)

lemma chain_process_keeps:
  assumes "pipeline (ch_processors ch)" and "\<not> ch_finished ch" and "chain_process c ch = (Inr out, ch')"
  shows "pipeline (ch_processors ch') \<and> \<not> ch_finished ch' \<and>
     pipeline_held (ch_processors ch) @ pcm_bytes c = chunk_bytes out @ pipeline_held (ch_processors ch')"
  using assms range_keeps [of "ch_processors ch" "[c]"]
  by (auto simp: chain_process_def Let_def split: prod.splits)

lemma chunks_keep:
  "pipeline (ch_processors ch) \<Longrightarrow> \<not> ch_finished ch \<Longrightarrow> process_chunks cs ch = (Inr out, ch') \<Longrightarrow>
     pipeline (ch_processors ch') \<and> \<not> ch_finished ch' \<and>
     pipeline_held (ch_processors ch) @ chunk_bytes cs = chunk_bytes out @ pipeline_held (ch_processors ch')"
proof (induction cs arbitrary: ch out)
  case (Cons c cs)
  obtain o1 ch1 o2 where st: "chain_process c ch = (Inr o1, ch1)" "process_chunks cs ch1 = (Inr o2, ch')" "out = o1 @ o2"
    using Cons.prems(3) by (auto split: prod.splits sum.splits)
  note k = chain_process_keeps [OF Cons.prems(1,2) st(1)]
  then have "pipeline (ch_processors ch') \<and> \<not> ch_finished ch' \<and>
     pipeline_held (ch_processors ch1) @ chunk_bytes cs = chunk_bytes o2 @ pipeline_held (ch_processors ch')"
    using Cons.IH st(2) by blast
  then show ?case
    using k st(3) append_assoc [of "pipeline_held (ch_processors ch)" "pcm_bytes c" "chunk_bytes cs"] by simp
qed simp

lemma chain_lossless:
  assumes "pipeline (ch_processors ch)" and "\<not> ch_finished ch" and "pipeline_held (ch_processors ch) = []"
    and "process_chunks cs ch = (Inr out, ch')" and "chain_finish ReasonError ch' = (Inr rest, ch'')"
  shows "chunk_bytes (out @ rest) = chunk_bytes cs"
proof -
  note k = chunks_keep [OF assms(1,2,4)]
  obtain ps where "finish_range ReasonError (ch_processors ch') = (Inr rest, ps)"
    using assms(5) k by (auto simp: chain_finish_def Let_def split: prod.splits if_splits)
  then show ?thesis using finish_releases k assms(3) by (metis append_Nil chunk_bytes_simps(3))
qed

end

end
