(* ===== verification/Terminal_Fade.thy ===== *)
theory Terminal_Fade
  imports Post_Processor Floating_Point
begin

text \<open>
  \<open>src/qwen_tts_bridge/audio/terminal_fade_post_processor.cpp\<close>: the processor that holds back the tail
  of a stream of 16-bit samples, fades it out at the end of the stream and appends silence. The
  samples are shaped in \<open>double\<close> arithmetic.
\<close>

section \<open>Fading\<close>

text \<open>Two bytes in memory as a 16-bit sample; the targets are little-endian.\<close>

definition read_s16 :: "byte list \<Rightarrow> nat \<Rightarrow> u16" where
  "read_s16 bs i = ucast (bs ! i) OR push_bit 8 (ucast (bs ! Suc i))"

definition write_s16 :: "nat \<Rightarrow> u16 \<Rightarrow> byte list \<Rightarrow> byte list" where
  "write_s16 i v bs = bs[i := ucast v, Suc i := ucast (drop_bit 8 v)]"

definition fade_gain :: "nat \<Rightarrow> nat \<Rightarrow> rat" where
  "fade_gain frames n =
     (if frames = 1 then 0
      else round_double (round_double (of_nat (frames - 1 - n)) / round_double (of_nat (frames - 1))))"

definition shape_sample :: "rat \<Rightarrow> u16 \<Rightarrow> u16" where
  "shape_sample gain sample =
     word_of_int (max (- 32768) (min 32767 (lround (round_double (of_int (sint sample) * gain)))))"

definition fade_sample_at :: "rat \<Rightarrow> nat \<Rightarrow> byte list \<Rightarrow> byte list" where
  "fade_sample_at gain i bs = write_s16 i (shape_sample gain (read_s16 bs i)) bs"

definition fade_bytes :: "nat \<Rightarrow> byte list \<Rightarrow> byte list" where
  "fade_bytes chans bs =
     (let frame_size = chans * 2; frames = length bs div frame_size in
      fold (\<lambda>n bs. fold (\<lambda>channel bs. fade_sample_at (fade_gain frames n) (n * frame_size + channel * 2) bs)
              [0..<chans] bs)
        [0..<frames] bs)"

section \<open>The processor\<close>

record TerminalFadeOptions =
  fade_ms :: u32
  completion_silence_ms :: u32
  cancellation_silence_ms :: u32

record TerminalFadePostProcessor =
  tf_options :: TerminalFadeOptions
  tf_format :: "AudioFormat option"
  tf_request_id :: RequestId
  tf_frame_bytes :: nat
  tf_hold_bytes :: nat
  tf_pending_first_sample :: u64
  tf_pending_sample_count :: u64
  tf_received_audio :: bool
  tf_finished :: bool
  tf_pending :: "byte list"

definition kMaxDurationMs :: u32 where "kMaxDurationMs = 600000"

definition new_terminal_fade :: "TerminalFadeOptions \<Rightarrow> string + TerminalFadePostProcessor" where
  "new_terminal_fade options =
     (if fade_ms options > kMaxDurationMs \<or> completion_silence_ms options > kMaxDurationMs \<or>
         cancellation_silence_ms options > kMaxDurationMs
      then Inl ''audio terminal durations must not exceed 600000 ms''
      else Inr \<lparr>tf_options = options, tf_format = None, tf_request_id = 0, tf_frame_bytes = 0, tf_hold_bytes = 0,
                tf_pending_first_sample = 0, tf_pending_sample_count = 0, tf_received_audio = False,
                tf_finished = False, tf_pending = []\<rparr>)"

text \<open>The number of samples fits 64 bits: the product of two 32-bit numbers does.\<close>

definition checked_duration_bytes :: "AudioFormat \<Rightarrow> nat \<Rightarrow> u32 \<Rightarrow> string + nat" where
  "checked_duration_bytes f frame_size duration_ms =
     (let samples = (unat (sample_rate f) * unat duration_ms + 500) div 1000 in
      if frame_size \<noteq> 0 \<and> samples > (2 ^ 64 - 1) div frame_size then Inl ''audio terminal duration is too large''
      else Inr (samples * frame_size))"

definition tf_validate_chunk :: "PcmChunk \<Rightarrow> TerminalFadePostProcessor \<Rightarrow> string + unit" where
  "tf_validate_chunk c s =
     (if the (tf_format s) \<noteq> pcm_format c then Inl ''audio format changed inside a post-processed stream''
      else if tf_request_id s \<noteq> pcm_request_id c then Inl ''request ID changed inside a post-processed stream''
      else if length (pcm_bytes c) mod tf_frame_bytes s \<noteq> 0 then
        Inl ''PCM chunk does not contain complete sample frames''
      else if sample_count c \<noteq> 0 \<and> unat (sample_count c) \<noteq> length (pcm_bytes c) div tf_frame_bytes s then
        Inl ''PCM chunk sample_count does not match its payload''
      else if tf_received_audio s \<and> sample_count c \<noteq> 0 \<and>
          first_sample c \<noteq> tf_pending_first_sample s + tf_pending_sample_count s then
        Inl ''PCM chunk sample timeline is not contiguous''
      else Inr ())"

text \<open>An exception in the middle leaves the members that were assigned before it.\<close>

definition tf_configure :: "PcmChunk \<Rightarrow> TerminalFadePostProcessor \<Rightarrow> (string + unit) \<times> TerminalFadePostProcessor" where
  "tf_configure c s =
     (if sample_format (pcm_format c) \<noteq> ''s16le'' then
        (Inl ''terminal fade post-processor supports only s16le PCM'', s)
      else if sample_rate (pcm_format c) = 0 \<or> channels (pcm_format c) = 0 then
        (Inl ''terminal fade post-processor requires a valid PCM format'', s)
      else
        (let s = s\<lparr>tf_format := Some (pcm_format c), tf_request_id := pcm_request_id c,
                   tf_frame_bytes := unat (channels (pcm_format c)) * 2\<rparr> in
         case checked_duration_bytes (pcm_format c) (tf_frame_bytes s) (fade_ms (tf_options s)) of
           Inl e \<Rightarrow> (Inl e, s)
         | Inr hold \<Rightarrow> (let s = s\<lparr>tf_hold_bytes := hold\<rparr> in (tf_validate_chunk c s, s))))"

text \<open>\<open>process\<close> after the checks.\<close>

definition tf_accept :: "PcmChunk \<Rightarrow> TerminalFadePostProcessor \<Rightarrow> PcmChunk list \<times> TerminalFadePostProcessor" where
  "tf_accept c s =
     (if pcm_bytes c = [] then ([], s)
      else
        (let chunk_samples = (if sample_count c \<noteq> 0 then ucast (sample_count c)
                              else of_nat (length (pcm_bytes c) div tf_frame_bytes s) :: u64);
             s = s\<lparr>tf_received_audio := True,
                   tf_pending_first_sample := (if tf_pending s = [] then first_sample c else tf_pending_first_sample s),
                   tf_pending_sample_count := tf_pending_sample_count s + chunk_samples,
                   tf_pending := tf_pending s @ pcm_bytes c\<rparr> in
         if length (tf_pending s) \<le> tf_hold_bytes s then ([], s)
         else
           (let emitted_bytes = length (tf_pending s) - tf_hold_bytes s;
                count = (of_nat (emitted_bytes div tf_frame_bytes s) :: u32) in
            ([\<lparr>pcm_request_id = tf_request_id s, pcm_format = the (tf_format s),
               pcm_bytes = take emitted_bytes (tf_pending s), first_sample = tf_pending_first_sample s,
               sample_count = count\<rparr>],
             s\<lparr>tf_pending := drop emitted_bytes (tf_pending s),
               tf_pending_first_sample := tf_pending_first_sample s + ucast count,
               tf_pending_sample_count := tf_pending_sample_count s - min (tf_pending_sample_count s) (ucast count)\<rparr>))))"

definition tf_process ::
  "PcmChunk \<Rightarrow> TerminalFadePostProcessor \<Rightarrow> (exn + PcmChunk list) \<times> TerminalFadePostProcessor" where
  "tf_process c s =
     (if tf_finished s then (Inr [], s)
      else
        (let (r, s) = (if tf_format s = None then tf_configure c s else (tf_validate_chunk c s, s)) in
         case r of
           Inl e \<Rightarrow> (Inl (Some e), s)
         | Inr _ \<Rightarrow> (let (out, s) = tf_accept c s in (Inr out, s))))"

definition apply_fade :: "TerminalFadePostProcessor \<Rightarrow> TerminalFadePostProcessor" where
  "apply_fade s =
     (if tf_pending s = [] \<or> fade_ms (tf_options s) = 0 then s
      else s\<lparr>tf_pending := fade_bytes (unat (channels (the (tf_format s)))) (tf_pending s)\<rparr>)"

definition tf_finish ::
  "AudioTerminalReason \<Rightarrow> TerminalFadePostProcessor \<Rightarrow> (exn + PcmChunk list) \<times> TerminalFadePostProcessor" where
  "tf_finish reason s =
     (if tf_finished s then (Inr [], s)
      else
        (let s = s\<lparr>tf_finished := True\<rparr> in
         if \<not> tf_received_audio s \<or> tf_format s = None then (Inr [], s\<lparr>tf_pending := []\<rparr>)
         else
           (let (s, silence_ms) =
                  (if reason \<noteq> ReasonError
                   then (apply_fade s, if reason = ReasonCompleted then completion_silence_ms (tf_options s)
                                       else cancellation_silence_ms (tf_options s))
                   else (s, 0)) in
            case checked_duration_bytes (the (tf_format s)) (tf_frame_bytes s) silence_ms of
              Inl e \<Rightarrow> (Inl (Some e), s)
            | Inr padding \<Rightarrow>
                (let bytes = tf_pending s @ replicate padding 0 in
                 (Inr (if bytes = [] then []
                       else [\<lparr>pcm_request_id = tf_request_id s, pcm_format = the (tf_format s), pcm_bytes = bytes,
                              first_sample = tf_pending_first_sample s,
                              sample_count = of_nat (length bytes div tf_frame_bytes s)\<rparr>]),
                  s\<lparr>tf_pending := []\<rparr>)))))"

definition tf_reset :: "TerminalFadePostProcessor \<Rightarrow> TerminalFadePostProcessor" where
  "tf_reset s =
     s\<lparr>tf_format := None, tf_request_id := 0, tf_frame_bytes := 0, tf_hold_bytes := 0, tf_pending_first_sample := 0,
       tf_pending_sample_count := 0, tf_received_audio := False, tf_finished := False, tf_pending := []\<rparr>"

definition terminal_fade :: "TerminalFadePostProcessor IAudioPostProcessor" where
  "terminal_fade = \<lparr>pp_process = tf_process, pp_finish = tf_finish, pp_reset = tf_reset\<rparr>"

section \<open>The processor keeps every byte\<close>

definition tf_ready :: "TerminalFadePostProcessor \<Rightarrow> bool" where
  "tf_ready s \<longleftrightarrow> \<not> tf_finished s \<and> (tf_pending s \<noteq> [] \<longrightarrow> tf_received_audio s \<and> tf_format s \<noteq> None)"

lemma tf_accept_keeps:
  "tf_accept c s = (out, s') \<Longrightarrow> tf_pending s @ pcm_bytes c = chunk_bytes out @ tf_pending s' \<and>
     tf_finished s' = tf_finished s \<and> tf_format s' = tf_format s \<and>
     (tf_received_audio s' \<longleftrightarrow> tf_received_audio s \<or> pcm_bytes c \<noteq> [])"
  by (auto simp: tf_accept_def Let_def simp del: take_append drop_append split: if_splits)

lemma tf_configure_keeps:
  "tf_configure c s = (r, s') \<Longrightarrow> tf_pending s' = tf_pending s \<and> tf_finished s' = tf_finished s \<and>
     tf_received_audio s' = tf_received_audio s \<and> (r = Inr u \<longrightarrow> tf_format s' = Some (pcm_format c))"
  by (auto simp: tf_configure_def Let_def split: if_splits sum.splits)

lemma no_silence: "checked_duration_bytes f n 0 = Inr 0"
  by (simp add: checked_duration_bytes_def)

interpretation fade_stage: retaining_stage terminal_fade tf_ready tf_pending
proof
  fix s s' :: TerminalFadePostProcessor and c out
  assume ready: "tf_ready s" and run: "pp_process terminal_fade c s = (Inr out, s')"
  obtain s1 where s1: "tf_accept c s1 = (out, s')" "tf_pending s1 = tf_pending s" "\<not> tf_finished s1"
    "tf_received_audio s1 = tf_received_audio s" "tf_format s1 \<noteq> None"
    using run ready tf_configure_keeps [of c s]
    by (auto simp: terminal_fade_def tf_process_def tf_ready_def split: if_splits sum.splits prod.splits)
  then show "tf_ready s' \<and> tf_pending s @ pcm_bytes c = chunk_bytes out @ tf_pending s'"
    using tf_accept_keeps [OF s1(1)] ready by (auto simp: tf_ready_def)
next
  fix s s' :: TerminalFadePostProcessor and out
  assume "tf_ready s" and "pp_finish terminal_fade ReasonError s = (Inr out, s')"
  then show "chunk_bytes out = tf_pending s"
    by (auto simp: terminal_fade_def tf_finish_def tf_ready_def no_silence Let_def split: if_splits)
qed

text \<open>C35. A chain of terminal-fade processors that is finished after an error has passed on exactly the
  bytes that went in, in order, however they were cut into chunks.\<close>

theorem fade_chain_lossless_on_error:
  assumes "ch_processors ch = map (\<lambda>s. (terminal_fade, s)) fades"
    and "\<forall>s\<in>set fades. \<exists>options. new_terminal_fade options = Inr s" and "\<not> ch_finished ch"
    and "process_chunks cs ch = (Inr out, ch')" and "chain_finish ReasonError ch' = (Inr rest, ch'')"
  shows "chunk_bytes (out @ rest) = chunk_bytes cs"
proof -
  have fresh: "tf_ready s \<and> tf_pending s = []" if "s \<in> set fades" for s
    using assms(2) that by (auto simp: new_terminal_fade_def tf_ready_def split: if_splits)
  have "fade_stage.pipeline (ch_processors ch)" "fade_stage.pipeline_held (ch_processors ch) = []"
    using fresh by (auto simp: assms(1) fade_stage.pipeline_def fade_stage.pipeline_held_def)
  then show ?thesis using fade_stage.chain_lossless assms(3-5) by blast
qed

section \<open>What fading does to the samples\<close>

lemma read_write_s16: "Suc i < length bs \<Longrightarrow> read_s16 (write_s16 i v bs) i = v"
  by (rule bit_word_eqI)
     (auto simp: read_s16_def write_s16_def bit_or_iff bit_push_bit_iff bit_unsigned_iff bit_drop_bit_eq possible_bit_word
       dest: bit_imp_le_length)

lemma read_write_s16_other: "j \<noteq> i \<Longrightarrow> j \<noteq> Suc i \<Longrightarrow> Suc j \<noteq> i \<Longrightarrow> read_s16 (write_s16 i v bs) j = read_s16 bs j"
  by (simp add: read_s16_def write_s16_def nth_list_update)

lemma length_fade_sample_at [simp]: "length (fade_sample_at g i bs) = length bs"
  by (simp add: fade_sample_at_def write_s16_def)

lemma upt_rows: "concat (map (\<lambda>f. map (\<lambda>c. f * w + c) [0..<w]) [0..<h]) = [0..<h * w]"
proof (induction h)
  case (Suc h)
  have "map (\<lambda>c. h * w + c) [0..<w] = [h * w..<h * w + w]"
    using map_add_upt [of "h * w" w] by (simp add: add.commute)
  then show ?case using Suc upt_add_eq_append [of 0 "h * w" w] by (simp add: add.commute)
qed simp

lemma fold_rows:
  "fold (\<lambda>f. fold (\<lambda>c. g f (f * w + c)) [0..<w]) [0..<h] =
     fold (\<lambda>i. g (i div w) i) [0..<h * w]"
proof -
  have inner: "fold (\<lambda>c. g f (f * w + c)) [0..<w] = fold (\<lambda>i. g (i div w) i) (map (\<lambda>c. f * w + c) [0..<w])" for f
    unfolding fold_map by (rule ext, rule List.fold_cong) auto
  have "fold (\<lambda>f. fold (\<lambda>i. g (i div w) i) (map (\<lambda>c. f * w + c) [0..<w])) [0..<h] =
      fold (\<lambda>i. g (i div w) i) (concat (map (\<lambda>f. map (\<lambda>c. f * w + c) [0..<w]) [0..<h]))" for h
    by (induction h) simp_all
  then show ?thesis unfolding inner upt_rows .
qed

lemma fade_bytes_flat:
  "fade_bytes w bs =
     fold (\<lambda>i. fade_sample_at (fade_gain (length bs div (w * 2)) (i div w)) (2 * i)) [0..<length bs div (w * 2) * w] bs"
  unfolding fade_bytes_def Let_def
    fold_rows [symmetric, where g = "\<lambda>f i. fade_sample_at (fade_gain (length bs div (w * 2)) f) (2 * i)"]
  by (simp add: add_mult_distrib2 mult.assoc mult.commute [of _ 2] mult.left_commute [of _ 2])

lemma sample_room: "2 * (n div (w * 2) * w) \<le> (n :: nat)"
proof -
  have "2 * (n div (w * 2) * w) = n div (w * 2) * (w * 2)" by simp
  then show ?thesis by (simp only: div_times_less_eq_dividend)
qed

lemma fold_fade:
  assumes "2 * n \<le> length bs"
  shows "length (fold (\<lambda>i. fade_sample_at (g i) (2 * i)) [0..<n] bs) = length bs \<and>
     (\<forall>j. 2 * j + 1 < length bs \<longrightarrow> read_s16 (fold (\<lambda>i. fade_sample_at (g i) (2 * i)) [0..<n] bs) (2 * j) =
        (if j < n then shape_sample (g j) (read_s16 bs (2 * j)) else read_s16 bs (2 * j)))"
  using assms
proof (induction n)
  case (Suc n)
  define xs where "xs = fold (\<lambda>i. fade_sample_at (g i) (2 * i)) [0..<n] bs"
  have IH: "length xs = length bs" "\<And>j. 2 * j + 1 < length bs \<Longrightarrow> read_s16 xs (2 * j) =
      (if j < n then shape_sample (g j) (read_s16 bs (2 * j)) else read_s16 bs (2 * j))"
    using Suc by (simp_all add: xs_def)
  have "read_s16 (fade_sample_at (g n) (2 * n) xs) (2 * j) =
      (if j < Suc n then shape_sample (g j) (read_s16 bs (2 * j)) else read_s16 bs (2 * j))"
    if "2 * j + 1 < length bs" for j
  proof (cases "j = n")
    case True
    then show ?thesis using IH(1) IH(2) [of n] that by (simp add: fade_sample_at_def read_write_s16)
  next
    case False
    then have "read_s16 (fade_sample_at (g n) (2 * n) xs) (2 * j) = read_s16 xs (2 * j)"
      unfolding fade_sample_at_def by (intro read_write_s16_other) presburger+
    then show ?thesis using IH(2) [OF that] False by simp
  qed
  then show ?case using IH(1) by (simp add: xs_def)
qed simp

lemma length_fade_bytes [simp]: "length (fade_bytes w bs) = length bs"
  using fold_fade [OF sample_room] by (simp add: fade_bytes_flat)

text \<open>The fade loop, which updates the bytes in place, turns sample \<open>i\<close> of the tail into that sample
  times the gain of its frame, rounded and limited to 16 bits, and touches nothing else.\<close>

theorem faded_samples:
  assumes "i < length bs div (w * 2) * w"
  shows "read_s16 (fade_bytes w bs) (2 * i) =
     shape_sample (fade_gain (length bs div (w * 2)) (i div w)) (read_s16 bs (2 * i)) \<and>
     length (fade_bytes w bs) = length bs"
proof -
  let ?n = "length bs div (w * 2) * w"
  have room: "2 * ?n \<le> length bs" by (rule sample_room)
  then have "2 * i + 1 < length bs" using assms by linarith
  then show ?thesis using fold_fade [OF room] assms by (simp add: fade_bytes_flat)
qed

lemma fade_gain_bounds:
  assumes "frames < 2 ^ 53"
  shows "0 \<le> fade_gain frames n \<and> fade_gain frames n \<le> 1"
proof (cases "frames \<le> 1")
  case True
  then show ?thesis
    using round_double_nonneg [of 0] by (cases "frames = 1") (auto simp: fade_gain_def round_double_def)
next
  case False
  define a where "a = frames - 1 - n"
  define b where "b = frames - 1"
  have ab: "a \<le> b" "0 < b" "b < 2 ^ 53" using False assms by (simp_all add: a_def b_def)
  have exact: "round_double (of_nat a) = of_nat a" "round_double (of_nat b) = of_nat b"
    using round_double_int [of "int a"] round_double_int [of "int b"] ab by simp_all
  have "(of_nat a :: rat) / of_nat b \<le> of_int 1" "(0 :: rat) \<le> of_nat a / of_nat b"
    using ab by (simp_all add: divide_le_eq)
  then have "round_double (of_nat a / of_nat b) \<le> of_int 1" "0 \<le> round_double (of_nat a / of_nat b)"
    by (rule round_double_le_int) (simp_all add: round_double_nonneg)
  moreover have "fade_gain frames n = round_double (of_nat a / of_nat b)"
    using False exact unfolding fade_gain_def a_def b_def by (simp only: if_False) auto
  ultimately show ?thesis by simp
qed

lemma rounded_between:
  assumes "0 \<le> gain" and "gain \<le> 1" and "- 32768 \<le> k" and "k < 32768"
  shows "of_int (min 0 k) \<le> round_double (of_int k * gain) \<and> round_double (of_int k * gain) \<le> of_int (max 0 k)"
proof (cases "0 \<le> k")
  case True
  then have "0 \<le> of_int k * gain" "of_int k * gain \<le> of_int k" using assms(1,2) by (simp_all add: mult_left_le)
  then show ?thesis
    using round_double_le_int [of "of_int k * gain" k] round_double_nonneg [of "of_int k * gain"] True assms by simp
next
  case False
  define m where "m = - k"
  have "0 \<le> m" "m < 2 ^ 53" using False assms(3) by (simp_all add: m_def)
  then have "0 \<le> of_int m * gain" "of_int m * gain \<le> of_int m" using assms(1,2) by (simp_all add: mult_left_le)
  moreover have "of_int k * gain = - (of_int m * gain)" by (simp add: m_def)
  ultimately have "round_double (of_int k * gain) = - round_double (of_int m * gain)"
    "round_double (of_int m * gain) \<le> of_int m" "0 \<le> round_double (of_int m * gain)"
    using round_double_le_int [of "of_int m * gain" m] round_double_nonneg [of "of_int m * gain"] \<open>m < 2 ^ 53\<close>
    by (simp_all add: round_double_uminus)
  moreover have "min 0 k = - m" "max 0 k = 0" using False by (simp_all add: m_def)
  ultimately show ?thesis by simp
qed

lemma shaped_between:
  assumes "0 \<le> gain" and "gain \<le> 1"
  shows "sint (shape_sample gain v) \<in> {min 0 (sint v)..max 0 (sint v)}"
proof -
  define k where "k = sint v"
  have range: "- 32768 \<le> k" "k < 32768" using sint_range_size [of v] by (simp_all add: word_size k_def)
  define z where "z = lround (round_double (of_int k * gain))"
  have z: "min 0 k \<le> z" "z \<le> max 0 k"
    using lround_bounds rounded_between [OF assms range] by (auto simp: z_def)
  then have "max (- 32768) (min 32767 z) = z" using range by auto
  then have "shape_sample gain v = word_of_int z" unfolding shape_sample_def k_def [symmetric] z_def by simp
  moreover have "sint (word_of_int z :: u16) = z" 
    using z range by (auto simp: sint_sbintrunc' signed_take_bit_int_eq_self_iff)
  ultimately show ?thesis using z by (simp add: k_def)
qed

lemma shape_silence: "shape_sample 0 v = 0"
proof -
  have "lround 0 = 0" using lround_bounds [of 0 0 0] by simp
  then show ?thesis by (simp add: shape_sample_def round_double_def)
qed

text \<open>C34. Fading never makes a sample louder, never changes its sign and never has to clip: every sample
  ends up between zero and its old value, and the samples of the last frame are zero.\<close>

theorem fade_only_attenuates:
  assumes "i < length bs div (w * 2) * w" and "length bs div (w * 2) < 2 ^ 53"
  shows "sint (read_s16 (fade_bytes w bs) (2 * i)) \<in>
       {min 0 (sint (read_s16 bs (2 * i)))..max 0 (sint (read_s16 bs (2 * i)))} \<and>
     (i div w = length bs div (w * 2) - 1 \<longrightarrow> read_s16 (fade_bytes w bs) (2 * i) = 0)"
proof -
  let ?frames = "length bs div (w * 2)"
  have room: "2 * (?frames * w) \<le> length bs" by (rule sample_room)
  then have shaped: "read_s16 (fade_bytes w bs) (2 * i) =
      shape_sample (fade_gain ?frames (i div w)) (read_s16 bs (2 * i))"
    using fold_fade [OF room] assms(1) by (simp add: fade_bytes_flat)
  have "fade_gain ?frames (?frames - 1) = 0" by (simp add: fade_gain_def round_double_def)
  then show ?thesis
    using shaped shaped_between fade_gain_bounds [OF assms(2), of "i div w"] by (simp add: shape_silence)
qed

section \<open>The output of a completed stream\<close>

fun tf_process_all ::
  "PcmChunk list \<Rightarrow> TerminalFadePostProcessor \<Rightarrow> (exn + PcmChunk list) \<times> TerminalFadePostProcessor" where
  "tf_process_all [] s = (Inr [], s)"
| "tf_process_all (c # cs) s =
     (case tf_process c s of
        (Inl e, s') \<Rightarrow> (Inl e, s')
      | (Inr out, s') \<Rightarrow>
          (case tf_process_all cs s' of
             (Inl e, s'') \<Rightarrow> (Inl e, s'')
           | (Inr outs, s'') \<Rightarrow> (Inr (out @ outs), s'')))"

text \<open>Between two calls the processor holds the last bytes of what it was given, as many as the fade
  needs.\<close>

definition tf_tracks :: "TerminalFadeOptions \<Rightarrow> AudioFormat \<Rightarrow> byte list \<Rightarrow> PcmChunk list \<Rightarrow> TerminalFadePostProcessor \<Rightarrow> bool" where
  "tf_tracks options f bytes out s \<longleftrightarrow>
     tf_options s = options \<and> \<not> tf_finished s \<and> bytes = chunk_bytes out @ tf_pending s \<and>
     (tf_received_audio s \<longleftrightarrow> bytes \<noteq> []) \<and>
     (tf_format s = None \<and> bytes = [] \<or>
      tf_format s = Some f \<and> tf_frame_bytes s = unat (channels f) * 2 \<and>
      checked_duration_bytes f (unat (channels f) * 2) (fade_ms options) = Inr (tf_hold_bytes s) \<and>
      length (tf_pending s) = min (tf_hold_bytes s) (length bytes))"

lemma tf_accept_fields:
  "tf_accept c s = (out, s') \<Longrightarrow> tf_options s' = tf_options s \<and> tf_frame_bytes s' = tf_frame_bytes s \<and>
     tf_hold_bytes s' = tf_hold_bytes s \<and>
     (length (tf_pending s) \<le> tf_hold_bytes s \<longrightarrow>
        length (tf_pending s') = min (tf_hold_bytes s) (length (tf_pending s) + length (pcm_bytes c)))"
  by (auto simp: tf_accept_def Let_def min_def simp del: take_append drop_append split: if_splits)

lemma tf_tracks_format:
  "tf_tracks options f bytes out s \<Longrightarrow> tf_format s = Some g \<or> bytes \<noteq> [] \<Longrightarrow>
     tf_format s = Some f \<and> tf_frame_bytes s = unat (channels f) * 2 \<and>
     checked_duration_bytes f (unat (channels f) * 2) (fade_ms options) = Inr (tf_hold_bytes s) \<and>
     length (tf_pending s) = min (tf_hold_bytes s) (length bytes)"
  unfolding tf_tracks_def by (metis option.distinct(1) option.inject)

lemma tf_tracks_state:
  "tf_tracks options f bytes out s \<Longrightarrow> tf_options s = options \<and> \<not> tf_finished s \<and>
     bytes = chunk_bytes out @ tf_pending s \<and> (tf_received_audio s \<longleftrightarrow> bytes \<noteq> [])"
  unfolding tf_tracks_def by blast

lemma tf_accept_tracks:
  assumes tr: "tf_tracks options f bytes out s" and f: "tf_format s = Some f" and run: "tf_accept c s = (out', s')"
  shows "tf_tracks options f (bytes @ pcm_bytes c) (out @ out') s'"
proof -
  note k = tf_accept_keeps [OF run] tf_accept_fields [OF run]
  have s: "tf_frame_bytes s = unat (channels f) * 2" "length (tf_pending s) = min (tf_hold_bytes s) (length bytes)"
    "checked_duration_bytes f (unat (channels f) * 2) (fade_ms options) = Inr (tf_hold_bytes s)"
    using tf_tracks_format [OF tr] f by blast+
  note st = tf_tracks_state [OF tr]
  have "length (tf_pending s') = min (tf_hold_bytes s) (length (tf_pending s) + length (pcm_bytes c))"
    using k(2) s(2) by simp
  then have "length (tf_pending s') = min (tf_hold_bytes s') (length (bytes @ pcm_bytes c))"
    using k(2) by (simp add: s(2) min_def)
  moreover have "bytes @ pcm_bytes c = chunk_bytes (out @ out') @ tf_pending s'"
    using conjunct1 [OF k(1)] st by simp
  moreover have "tf_format s' = Some f" "\<not> tf_finished s'" "tf_received_audio s' \<longleftrightarrow> bytes @ pcm_bytes c \<noteq> []"
    using k(1) st f by auto
  moreover have "tf_options s' = options" "tf_frame_bytes s' = unat (channels f) * 2" "tf_hold_bytes s' = tf_hold_bytes s"
    using k(2) st s(1) by simp_all
  ultimately show ?thesis using s(3) unfolding tf_tracks_def by metis
qed

lemma tf_configure_tracks:
  assumes "tf_tracks options f bytes out s" and "tf_format s = None" and "tf_configure c s = (Inr u, s')"
    and "pcm_format c = f"
  shows "tf_tracks options f bytes out s' \<and> tf_format s' = Some f"
  using assms by (auto simp: tf_tracks_def tf_configure_def Let_def split: if_splits sum.splits)

lemma tf_process_tracks:
  assumes tr: "tf_tracks options f bytes out s" and run: "tf_process c s = (Inr out', s')" and "pcm_format c = f"
  shows "tf_tracks options f (bytes @ pcm_bytes c) (out @ out') s'"
proof (cases "tf_format s")
  case None
  then obtain s1 u where "tf_configure c s = (Inr u, s1)" "tf_accept c s1 = (out', s')"
    using run tr by (auto simp: tf_process_def tf_tracks_def split: prod.splits sum.splits if_splits)
  then show ?thesis using tf_configure_tracks [OF tr None _ assms(3)] tf_accept_tracks by blast
next
  case (Some g)
  then have "g = f" "tf_accept c s = (out', s')"
    using run tr by (auto simp: tf_process_def tf_tracks_def split: prod.splits sum.splits if_splits)
  then show ?thesis using tf_accept_tracks [OF tr] Some by simp
qed

lemma tf_process_all_tracks:
  "tf_tracks options f bytes out s \<Longrightarrow> tf_process_all cs s = (Inr out', s') \<Longrightarrow> \<forall>c\<in>set cs. pcm_format c = f \<Longrightarrow>
     tf_tracks options f (bytes @ chunk_bytes cs) (out @ out') s'"
proof (induction cs arbitrary: s bytes out out')
  case (Cons c cs)
  obtain o1 s1 o2 where st: "tf_process c s = (Inr o1, s1)" "tf_process_all cs s1 = (Inr o2, s')" "out' = o1 @ o2"
    using Cons.prems(2) by (auto split: prod.splits sum.splits)
  have "tf_tracks options f (bytes @ pcm_bytes c) (out @ o1) s1"
    using tf_process_tracks [OF Cons.prems(1) st(1)] Cons.prems(3) by simp
  from Cons.IH [OF this st(2)] Cons.prems(3) show ?case by (simp add: st(3))
qed simp

text \<open>C33. What a completed stream sounds like, however its audio was cut into chunks: all of it up to the
  fade is passed on unchanged, the last \<open>fade_ms\<close> of it (or all, if it is shorter) is faded, and the
  configured silence follows.\<close>

theorem terminal_fade_output:
  assumes "new_terminal_fade options = Inr s" and "tf_process_all cs s = (Inr out, s')"
    and "\<forall>c\<in>set cs. pcm_format c = f" and "chunk_bytes cs \<noteq> []"
    and "tf_finish ReasonCompleted s' = (Inr rest, s'')"
  shows "\<exists>hold silence before tail.
     checked_duration_bytes f (unat (channels f) * 2) (fade_ms options) = Inr hold \<and>
     checked_duration_bytes f (unat (channels f) * 2) (completion_silence_ms options) = Inr silence \<and>
     chunk_bytes cs = before @ tail \<and> length tail = min hold (length (chunk_bytes cs)) \<and>
     chunk_bytes (out @ rest) = before @ fade_bytes (unat (channels f)) tail @ replicate silence 0"
proof -
  have "tf_tracks options f [] [] s"
    using assms(1) by (auto simp: tf_tracks_def new_terminal_fade_def split: if_splits)
  then have tr: "tf_tracks options f (chunk_bytes cs) out s'"
    using tf_process_all_tracks [OF _ assms(2,3)] by fastforce
  note st = tf_tracks_state [OF tr] and fm = tf_tracks_format [OF tr, OF disjI2, OF assms(4)]
  have zero: "fade_bytes w [] = []" for w by (simp add: fade_bytes_def)
  have "tf_pending s' = []" if "fade_ms options = 0"
  proof -
    have "tf_hold_bytes s' = 0" using fm that no_silence by simp
    then show ?thesis using fm by simp
  qed
  then have fade: "tf_pending (apply_fade (s'\<lparr>tf_finished := True\<rparr>)) = fade_bytes (unat (channels f)) (tf_pending s')"
    using st fm zero by (auto simp: apply_fade_def)
  have keeps: "tf_format (apply_fade t) = tf_format t" "tf_frame_bytes (apply_fade t) = tf_frame_bytes t"
    "tf_options (apply_fade t) = tf_options t" for t by (simp_all add: apply_fade_def)
  have s': "\<not> tf_finished s'" "tf_received_audio s'" "tf_format s' = Some f" "tf_frame_bytes s' = unat (channels f) * 2"
    "tf_options s' = options" using st fm assms(4) by simp_all
  obtain silence where sil: "checked_duration_bytes f (unat (channels f) * 2) (completion_silence_ms options) = Inr silence"
    and rest: "chunk_bytes rest = fade_bytes (unat (channels f)) (tf_pending s') @ replicate silence 0"
    using assms(5) s' fade by (auto simp: tf_finish_def keeps Let_def split: if_splits sum.splits)
  have "chunk_bytes (out @ rest) = chunk_bytes out @ fade_bytes (unat (channels f)) (tf_pending s') @ replicate silence 0"
    by (simp add: rest)
  then show ?thesis using sil st fm by blast
qed

section \<open>Concrete streams\<close>

definition short_fade :: TerminalFadeOptions where
  "short_fade = \<lparr>fade_ms = 1, completion_silence_ms = 1, cancellation_silence_ms = 0\<rparr>"

definition fresh_fade :: TerminalFadePostProcessor where
  "fresh_fade = \<lparr>tf_options = short_fade, tf_format = None, tf_request_id = 0, tf_frame_bytes = 0, tf_hold_bytes = 0,
     tf_pending_first_sample = 0, tf_pending_sample_count = 0, tf_received_audio = False, tf_finished = False,
     tf_pending = []\<rparr>"

definition slow_format :: AudioFormat where
  "slow_format = \<lparr>sample_format = ''s16le'', sample_rate = 1000, channels = 1\<rparr>"

definition two_frames :: PcmChunk where
  "two_frames = \<lparr>pcm_request_id = 5, pcm_format = slow_format, pcm_bytes = [1, 2, 3, 4], first_sample = 0, sample_count = 2\<rparr>"

definition held_fade :: TerminalFadePostProcessor where
  "held_fade = fresh_fade\<lparr>tf_format := Some slow_format, tf_request_id := 5, tf_frame_bytes := 2, tf_hold_bytes := 2,
     tf_received_audio := True, tf_pending_first_sample := 1, tf_pending_sample_count := 1, tf_pending := [3, 4]\<rparr>"

definition first_frame :: PcmChunk where
  "first_frame = two_frames\<lparr>pcm_bytes := [1, 2], sample_count := 1\<rparr>"

lemma fresh_fade_new: "new_terminal_fade short_fade = Inr fresh_fade"
  by (simp add: new_terminal_fade_def short_fade_def kMaxDurationMs_def fresh_fade_def)

lemma two_frames_processed: "tf_process two_frames fresh_fade = (Inr [first_frame], held_fade)"
  by (simp add: tf_process_def tf_configure_def tf_validate_chunk_def tf_accept_def two_frames_def fresh_fade_def
      first_frame_def held_fade_def slow_format_def short_fade_def checked_duration_bytes_def Let_def)

lemma held_fade_finished:
  "tf_finish ReasonError held_fade =
     (Inr [two_frames\<lparr>pcm_bytes := [3, 4], first_sample := 1, sample_count := 1\<rparr>],
      held_fade\<lparr>tf_finished := True, tf_pending := []\<rparr>)"
  "\<exists>rest s. tf_finish ReasonCompleted held_fade = (Inr rest, s)"
  by (simp_all add: tf_finish_def held_fade_def fresh_fade_def two_frames_def no_silence Let_def apply_fade_def
      checked_duration_bytes_def slow_format_def short_fade_def)

definition fade_chain :: "TerminalFadePostProcessor AudioPostProcessorChain" where
  "fade_chain = \<lparr>ch_processors = [(terminal_fade, fresh_fade)], ch_started = False, ch_finished = False\<rparr>"

theorem fade_chain_lossless_on_error_witness:
  "\<exists>out rest ch' ch''. process_chunks [two_frames] fade_chain = (Inr out, ch') \<and>
     chain_finish ReasonError ch' = (Inr rest, ch'') \<and> chunk_bytes (out @ rest) = [1, 2, 3, 4]"
proof -
  obtain out ch' where run: "process_chunks [two_frames] fade_chain = (Inr out, ch')"
    and ch': "ch' = fade_chain\<lparr>ch_started := True, ch_processors := [(terminal_fade, held_fade)]\<rparr>"
    by (simp add: fade_chain_def chain_process_def Let_def terminal_fade_def two_frames_processed)
  obtain rest ch'' where fin: "chain_finish ReasonError ch' = (Inr rest, ch'')"
    by (simp add: ch' fade_chain_def chain_finish_def Let_def terminal_fade_def held_fade_finished)
  have "ch_processors fade_chain = map (\<lambda>s. (terminal_fade, s)) [fresh_fade]" "\<not> ch_finished fade_chain"
    by (simp_all add: fade_chain_def)
  then have "chunk_bytes (out @ rest) = chunk_bytes [two_frames]"
    using fade_chain_lossless_on_error [OF _ _ _ run fin, of "[fresh_fade]"] fresh_fade_new by auto
  then show ?thesis using run fin by (auto simp: two_frames_def)
qed

theorem terminal_fade_output_witness:
  "\<exists>out s' rest s''. tf_process_all [two_frames] fresh_fade = (Inr out, s') \<and>
     tf_finish ReasonCompleted s' = (Inr rest, s'') \<and> chunk_bytes (out @ rest) = [1, 2] @ fade_bytes 1 [3, 4] @ [0, 0]"
proof -
  have run: "tf_process_all [two_frames] fresh_fade = (Inr [first_frame], held_fade)"
    by (simp add: two_frames_processed)
  obtain rest s'' where fin: "tf_finish ReasonCompleted held_fade = (Inr rest, s'')" using held_fade_finished(2) by blast
  have bytes: "chunk_bytes [two_frames] = [1, 2, 3, 4]" and f: "\<forall>c\<in>set [two_frames]. pcm_format c = slow_format"
    by (simp_all add: two_frames_def)
  have dur: "checked_duration_bytes slow_format (unat (channels slow_format) * 2) 1 = Inr 2"
    by (simp add: checked_duration_bytes_def slow_format_def)
  obtain before tail where split: "[1, 2, 3, 4] = before @ tail" "length tail = 2"
    and out: "chunk_bytes ([first_frame] @ rest) = before @ fade_bytes 1 tail @ replicate 2 0"
    using terminal_fade_output [OF fresh_fade_new run f _ fin] bytes dur
    by (auto simp: short_fade_def slow_format_def)
  have "length [1, 2, 3, 4 :: byte] = length before + length tail" unfolding split(1) by simp
  then have "length before = 2" using split(2) by simp
  then have "before = [1, 2]" "tail = [3, 4]" using split by (auto simp: length_Suc_unfold numeral_2_eq_2)
  then show ?thesis using run fin out by (auto simp: numeral_2_eq_2)
qed

theorem faded_samples_witness:
  "read_s16 (fade_bytes 1 [10, 0, 20, 0]) 0 =
     shape_sample (fade_gain (length [10, 0, 20, 0 :: byte] div 2) 0) (read_s16 [10, 0, 20, 0] 0)"
  using faded_samples [of 0 "[10, 0, 20, 0]" 1] by simp

theorem fade_only_attenuates_witness:
  "read_s16 (fade_bytes 1 [10, 0, 20, 0]) 2 = 0 \<and>
   sint (read_s16 (fade_bytes 1 [10, 0, 20, 0]) 0) \<in> {min 0 (sint (read_s16 [10, 0, 20, 0] 0))..max 0 (sint (read_s16 [10, 0, 20, 0] 0))}"
  using fade_only_attenuates [of 1 "[10, 0, 20, 0]" 1] fade_only_attenuates [of 0 "[10, 0, 20, 0]" 1] by simp

end
