(* ===== verification/Playout_Cursor.thy ===== *)
theory Playout_Cursor
  imports Terminal_Fade
begin

text \<open>
  \<open>src/qwen_tts_bridge/audio/playout_cursor.cpp\<close>: what is played when playback is interrupted. From the
  buffers of the sink, which stand at absolute frame positions, the frames at the cursor are copied for
  the length of the fade and faded out. The specification is the list of all frames with their
  positions; gaps between buffers are allowed.
\<close>

section \<open>The operation\<close>

record PlayoutBuffer =
  pb_chunk :: PcmChunk
  pb_start_frame :: u64

definition cursor_frame_bytes :: "AudioFormat \<Rightarrow> string + nat" where
  "cursor_frame_bytes f =
     (if sample_format f \<noteq> ''s16le'' \<or> sample_rate f = 0 \<or> channels f = 0
      then Inl ''playout cursor fade requires valid s16le PCM'' else Inr (unat (channels f) * 2))"

text \<open>The product of two 32-bit numbers fits 64 bits, also with the rounding term.\<close>

definition cursor_fade_frames :: "AudioFormat \<Rightarrow> u32 \<Rightarrow> nat" where
  "cursor_fade_frames f fade = (unat (sample_rate f) * unat fade + 999) div 1000"

definition buffer_count :: "nat \<Rightarrow> PlayoutBuffer \<Rightarrow> nat" where
  "buffer_count fb b = length (pcm_bytes (pb_chunk b)) div fb"

definition buffer_end :: "nat \<Rightarrow> PlayoutBuffer \<Rightarrow> nat" where
  "buffer_end fb b = unat (pb_start_frame b) + buffer_count fb b"

definition check_formats :: "AudioFormat \<Rightarrow> nat \<Rightarrow> PlayoutBuffer list \<Rightarrow> string + unit" where
  "check_formats f fb buffers =
     (if \<exists>b\<in>set buffers. f \<noteq> pcm_format (pb_chunk b) \<or> length (pcm_bytes (pb_chunk b)) mod fb \<noteq> 0
      then Inl ''playout cursor buffers must share a complete PCM format'' else Inr ())"

fun check_order :: "nat \<Rightarrow> nat option \<Rightarrow> PlayoutBuffer list \<Rightarrow> string + unit" where
  "check_order fb previous_end [] = Inr ()"
| "check_order fb previous_end (b # bs) =
     (if buffer_count fb b > 2 ^ 64 - 1 - unat (pb_start_frame b) then
        Inl ''playout cursor buffer frame range overflows''
      else if (case previous_end of None \<Rightarrow> False | Some e \<Rightarrow> unat (pb_start_frame b) < e) then
        Inl ''playout cursor buffers must be ordered and non-overlapping''
      else check_order fb (Some (buffer_end fb b)) bs)"

text \<open>The first buffer that ends after the cursor, with the offset of the cursor in it.\<close>

fun seek_cursor :: "nat \<Rightarrow> nat \<Rightarrow> PlayoutBuffer list \<Rightarrow> (nat \<times> PlayoutBuffer list) option" where
  "seek_cursor fb cursor [] = None"
| "seek_cursor fb cursor (b # bs) =
     (if cursor \<ge> buffer_end fb b then seek_cursor fb cursor bs
      else Some (if cursor > unat (pb_start_frame b) then cursor - unat (pb_start_frame b) else 0, b # bs))"

fun copy_frames :: "nat \<Rightarrow> nat \<Rightarrow> nat \<Rightarrow> PlayoutBuffer list \<Rightarrow> byte list" where
  "copy_frames fb remaining offset [] = []"
| "copy_frames fb remaining offset (b # bs) =
     (if remaining = 0 then []
      else if offset \<ge> buffer_count fb b then copy_frames fb remaining 0 bs
      else
        (let copied = min remaining (buffer_count fb b - offset) in
         take (copied * fb) (drop (offset * fb) (pcm_bytes (pb_chunk b))) @
           copy_frames fb (remaining - copied) 0 bs))"

text \<open>The part after the checks.\<close>

definition fade_at_cursor :: "AudioFormat \<Rightarrow> nat \<Rightarrow> nat \<Rightarrow> nat \<Rightarrow> PlayoutBuffer list \<Rightarrow> PcmChunk option" where
  "fade_at_cursor f fb frames cursor buffers =
     (case seek_cursor fb cursor buffers of
        None \<Rightarrow> None
      | Some (offset, rest) \<Rightarrow>
          (let bytes = copy_frames fb frames offset rest in
           if bytes = [] then None
           else Some \<lparr>pcm_request_id = pcm_request_id (pb_chunk (hd rest)), pcm_format = f,
                      pcm_bytes = fade_bytes (unat (channels f)) bytes, first_sample = 0, sample_count = 0\<rparr>))"

definition make_playout_cursor_fade :: "PlayoutBuffer list \<Rightarrow> u64 \<Rightarrow> u32 \<Rightarrow> string + PcmChunk option" where
  "make_playout_cursor_fade buffers cursor fade =
     (if buffers = [] \<or> fade = 0 then Inr None
      else
        (let f = pcm_format (pb_chunk (hd buffers)) in
         and_then (cursor_frame_bytes f) (\<lambda>fb.
         if cursor_fade_frames f fade = 0 then Inr None
         else
           and_then (check_formats f fb buffers) (\<lambda>_.
           and_then (check_order fb None buffers) (\<lambda>_.
           Inr (fade_at_cursor f fb (cursor_fade_frames f fade) (unat cursor) buffers))))))"

section \<open>All frames with their positions\<close>

definition buffer_frames :: "nat \<Rightarrow> PlayoutBuffer \<Rightarrow> (nat \<times> byte list) list" where
  "buffer_frames fb b =
     map (\<lambda>i. (unat (pb_start_frame b) + i, take fb (drop (i * fb) (pcm_bytes (pb_chunk b))))) [0..<buffer_count fb b]"

definition frames_from_cursor :: "nat \<Rightarrow> nat \<Rightarrow> PlayoutBuffer list \<Rightarrow> (nat \<times> byte list) list" where
  "frames_from_cursor fb cursor buffers =
     filter (\<lambda>p. cursor \<le> fst p) (concat (map (buffer_frames fb) buffers))"

lemma length_buffer_frames [simp]: "length (buffer_frames fb b) = buffer_count fb b"
  by (simp add: buffer_frames_def)

lemma less_div_mult: "i < n div fb \<Longrightarrow> 0 < fb \<Longrightarrow> i * fb < (n :: nat)"
  using mult_le_mono1 [of "Suc i" "n div fb" fb] div_times_less_eq_dividend [of n fb] by (simp del: div_times_less_eq_dividend)

lemma buffer_frame_nonempty: "0 < fb \<Longrightarrow> p \<in> set (buffer_frames fb b) \<Longrightarrow> snd p \<noteq> []"
  by (auto simp: buffer_frames_def buffer_count_def dest: less_div_mult simp flip: not_less)

text \<open>Consecutive frames of one buffer are one slice of its bytes.\<close>

lemma slice_frames:
  "k + offset \<le> n \<Longrightarrow> n * fb \<le> length bs \<Longrightarrow>
   concat (map (\<lambda>i. take fb (drop (i * fb) bs)) [offset..<offset + k]) = take (k * fb) (drop (offset * fb) bs)"
proof (induction k)
  case (Suc k)
  have "take (Suc k * fb) (drop (offset * fb) bs) =
      take (k * fb) (drop (offset * fb) bs) @ take fb (drop (k * fb) (drop (offset * fb) bs))"
    by (metis add.commute mult_Suc take_add)
  moreover have "drop (k * fb) (drop (offset * fb) bs) = drop ((offset + k) * fb) bs"
    by (simp add: add_mult_distrib add.commute)
  ultimately show ?case using Suc by simp
qed simp

lemma buffer_slice:
  assumes "offset + k \<le> buffer_count fb b"
  shows "concat (map snd (take k (drop offset (buffer_frames fb b)))) =
     take (k * fb) (drop (offset * fb) (pcm_bytes (pb_chunk b)))"
proof -
  have "take k (drop offset [0..<buffer_count fb b]) = [offset..<offset + k]"
    using assms by (simp add: take_upt)
  moreover have "buffer_count fb b * fb \<le> length (pcm_bytes (pb_chunk b))"
    by (simp add: buffer_count_def)
  ultimately show ?thesis
    using slice_frames [of k offset "buffer_count fb b" fb] assms
    by (simp add: buffer_frames_def take_map drop_map o_def add.commute)
qed

text \<open>The copying loop takes the first frames of the buffers after the offset.\<close>

lemma copy_frames_spec:
  "copy_frames fb remaining offset bs =
     concat (map snd (take remaining (drop offset (buffer_frames fb (hd bs)) @
       concat (map (buffer_frames fb) (tl bs)))))"
  if "bs \<noteq> []"
  using that
proof (induction fb remaining offset bs rule: copy_frames.induct)
  case (2 fb remaining offset b bs)
  have rest: "copy_frames fb k 0 bs = concat (map snd (take k (concat (map (buffer_frames fb) bs))))"
    if "bs \<noteq> [] \<Longrightarrow> copy_frames fb k 0 bs = concat (map snd (take k (drop 0 (buffer_frames fb (hd bs)) @
       concat (map (buffer_frames fb) (tl bs)))))" for k
    using that by (cases bs) simp_all
  consider "remaining = 0" | "remaining \<noteq> 0" "offset \<ge> buffer_count fb b" | "remaining \<noteq> 0" "offset < buffer_count fb b"
    by linarith
  then show ?case
  proof cases
    case 2
    then show ?thesis using rest [of remaining] "2.IH"(1) by simp
  next
    case 3
    define copied where "copied = min remaining (buffer_count fb b - offset)"
    have "copy_frames fb (remaining - copied) 0 bs =
        concat (map snd (take (remaining - copied) (concat (map (buffer_frames fb) bs))))"
      using rest [of "remaining - copied"] "2.IH"(2) 3 by (simp add: copied_def)
    moreover have "take (copied * fb) (drop (offset * fb) (pcm_bytes (pb_chunk b))) =
        concat (map snd (take remaining (drop offset (buffer_frames fb b))))"
    proof -
      have "take copied (drop offset (buffer_frames fb b)) = take remaining (drop offset (buffer_frames fb b))"
        by (cases "remaining \<le> buffer_count fb b - offset") (simp_all add: copied_def)
      then show ?thesis using buffer_slice [of offset copied fb b] 3 by (simp add: copied_def)
    qed
    moreover have "remaining - copied = remaining - (buffer_count fb b - offset)" by (simp add: copied_def)
    ultimately show ?thesis using 3 by (simp add: copied_def [symmetric] Let_def)
  qed simp
qed simp

text \<open>Ordered buffers: every frame after a buffer stands at or after its end.\<close>

lemma check_order_starts:
  "check_order fb (Some e) bs = Inr u \<Longrightarrow> p \<in> set (concat (map (buffer_frames fb) bs)) \<Longrightarrow> e \<le> fst p"
proof (induction bs arbitrary: e)
  case (Cons b bs)
  have order: "e \<le> unat (pb_start_frame b)" "check_order fb (Some (buffer_end fb b)) bs = Inr u"
    using Cons.prems(1) by (auto split: if_splits)
  show ?case
  proof (cases "p \<in> set (buffer_frames fb b)")
    case True
    then show ?thesis using order(1) by (auto simp: buffer_frames_def)
  next
    case False
    then show ?thesis using Cons.IH [OF order(2)] Cons.prems(2) order(1) by (auto simp: buffer_end_def)
  qed
qed simp

lemma filter_buffer_frames:
  "filter (\<lambda>p. cursor \<le> fst p) (buffer_frames fb b) =
     drop (cursor - unat (pb_start_frame b)) (buffer_frames fb b)"
proof -
  have "filter (\<lambda>i. cursor \<le> s + i) [0..<n] = drop (cursor - s) [0..<n]" for s n
    by (induction n) (auto simp: not_le)
  then show ?thesis by (simp add: buffer_frames_def filter_map o_def drop_map)
qed

lemma seek_cursor_spec:
  assumes "check_order fb previous bs = Inr u"
  shows "case seek_cursor fb cursor bs of
     None \<Rightarrow> frames_from_cursor fb cursor bs = []
   | Some (offset, rest) \<Rightarrow> rest \<noteq> [] \<and> hd rest = hd (filter (\<lambda>b. cursor < buffer_end fb b) bs) \<and>
       frames_from_cursor fb cursor bs =
         drop offset (buffer_frames fb (hd rest)) @ concat (map (buffer_frames fb) (tl rest))"
  using assms
proof (induction bs arbitrary: previous)
  case (Cons b bs)
  have order: "check_order fb (Some (buffer_end fb b)) bs = Inr u"
    using Cons.prems by (auto split: if_splits)
  show ?case
  proof (cases "cursor \<ge> buffer_end fb b")
    case True
    then have "filter (\<lambda>p. cursor \<le> fst p) (buffer_frames fb b) = []"
      by (auto simp: filter_buffer_frames buffer_end_def)
    then show ?thesis using Cons.IH [OF order] True by (auto simp: frames_from_cursor_def split: option.splits)
  next
    case False
    have "filter (\<lambda>p. cursor \<le> fst p) (concat (map (buffer_frames fb) bs)) = concat (map (buffer_frames fb) bs)"
      using check_order_starts [OF order] False by (fastforce simp: filter_id_conv)
    then show ?thesis using False by (auto simp: frames_from_cursor_def filter_buffer_frames)
  qed
qed (simp add: frames_from_cursor_def)

section \<open>What is played at an interruption\<close>

text \<open>When the buffers pass the checks, an interruption plays the first frames at or after the cursor, in
  the order of their positions and never more of them than the fade lasts, faded out; when there is no
  such frame there is nothing to play. The chunk carries the identifier of the first buffer that ends
  after the cursor.
\<close>

theorem cursor_fade_selects_frames:
  assumes run: "make_playout_cursor_fade buffers cursor fade = Inr r" and "buffers \<noteq> []" and "fade \<noteq> 0"
  shows "r =
     (let f = pcm_format (pb_chunk (hd buffers)); fb = unat (channels f) * 2;
          played = take (cursor_fade_frames f fade) (frames_from_cursor fb (unat cursor) buffers) in
      if played = [] then None
      else Some \<lparr>pcm_request_id = pcm_request_id (pb_chunk (hd (filter (\<lambda>b. unat cursor < buffer_end fb b) buffers))),
                 pcm_format = f, pcm_bytes = fade_bytes (unat (channels f)) (concat (map snd played)),
                 first_sample = 0, sample_count = 0\<rparr>)"
proof -
  define f where "f = pcm_format (pb_chunk (hd buffers))"
  define fb where "fb = unat (channels f) * 2"
  define n where "n = cursor_fade_frames f fade"
  have ok: "cursor_frame_bytes f = Inr fb" using run assms(2,3)
    by (auto simp: make_playout_cursor_fade_def and_then_Inr_conv f_def [symmetric] cursor_frame_bytes_def fb_def split: if_splits)
  then have fb: "fb > 0" by (auto simp: cursor_frame_bytes_def fb_def unat_gt_0 split: if_splits)
  show ?thesis
  proof (cases "n = 0")
    case True
    then show ?thesis using run assms(2,3) ok
      by (auto simp: make_playout_cursor_fade_def and_then_Inr_conv f_def [symmetric] n_def fb_def)
  next
    case False
    have order: "check_order fb None buffers = Inr ()" and r: "r = fade_at_cursor f fb n (unat cursor) buffers"
      using run assms(2,3) False ok
      by (simp_all add: make_playout_cursor_fade_def and_then_Inr_conv f_def [symmetric] n_def [symmetric])
    have full: "snd p \<noteq> []" if "p \<in> set (frames_from_cursor fb (unat cursor) buffers)" for p
      using that buffer_frame_nonempty [OF fb, of p] by (auto simp: frames_from_cursor_def)
    let ?played = "take n (frames_from_cursor fb (unat cursor) buffers)"
    have "\<forall>p\<in>set ?played. snd p \<noteq> []" using full in_set_takeD by fast
    then have empty: "concat (map snd ?played) = [] \<longleftrightarrow> ?played = []" by (cases ?played) auto
    show ?thesis
    proof (cases "seek_cursor fb (unat cursor) buffers")
      case None
      then show ?thesis using seek_cursor_spec [OF order, of "unat cursor"] r
        by (simp add: fade_at_cursor_def f_def [symmetric] fb_def [symmetric] n_def [symmetric])
    next
      case (Some p)
      obtain offset rest where p: "p = (offset, rest)" by (cases p)
      note s = seek_cursor_spec [OF order, of "unat cursor"]
      have copy: "copy_frames fb n offset rest = concat (map snd ?played)"
        using s Some p copy_frames_spec [of rest fb n offset] by simp
      have first: "hd rest = hd (filter (\<lambda>b. unat cursor < buffer_end fb b) buffers)" using s Some p by simp
      show ?thesis
        by (simp only: r fade_at_cursor_def Some p option.case prod.case copy first Let_def empty f_def [symmetric]
            fb_def [symmetric] n_def [symmetric])
    qed
  qed
qed

text \<open>Two buffers with a gap; the cursor stands in the first one, and the fade is long enough for both.\<close>

definition cursor_buffers :: "PlayoutBuffer list" where
  "cursor_buffers =
     [\<lparr>pb_chunk = two_frames, pb_start_frame = 10\<rparr>,
      \<lparr>pb_chunk = two_frames\<lparr>pcm_request_id := 6, pcm_bytes := [5, 6]\<rparr>, pb_start_frame = 20\<rparr>]"

theorem cursor_fade_selects_frames_witness:
  "make_playout_cursor_fade cursor_buffers 11 2 =
     Inr (Some \<lparr>pcm_request_id = 5, pcm_format = slow_format, pcm_bytes = fade_bytes 1 [3, 4, 5, 6],
       first_sample = 0, sample_count = 0\<rparr>)"
proof -
  have "\<exists>r. make_playout_cursor_fade cursor_buffers 11 2 = Inr r"
    by (simp add: make_playout_cursor_fade_def cursor_buffers_def two_frames_def slow_format_def cursor_frame_bytes_def
        check_formats_def buffer_count_def buffer_end_def and_then_Inr_conv Let_def cursor_fade_frames_def)
  then obtain r where run: "make_playout_cursor_fade cursor_buffers 11 2 = Inr r" ..
  have frames: "cursor_fade_frames slow_format 2 = 2" "frames_from_cursor 2 11 cursor_buffers = [(11, [3, 4]), (20, [5, 6])]"
    by (simp_all add: cursor_fade_frames_def frames_from_cursor_def cursor_buffers_def buffer_frames_def buffer_count_def
        two_frames_def slow_format_def upt_conv_Cons)
  have first: "pcm_format (pb_chunk (hd cursor_buffers)) = slow_format" "channels slow_format = 1"
    "hd (filter (\<lambda>b. 11 < buffer_end 2 b) cursor_buffers) = hd cursor_buffers"
    "pcm_request_id (pb_chunk (hd cursor_buffers)) = 5"
    by (simp_all add: cursor_buffers_def two_frames_def slow_format_def buffer_end_def buffer_count_def)
  have "cursor_buffers \<noteq> []" by (simp add: cursor_buffers_def)
  then show ?thesis using cursor_fade_selects_frames [OF run] run first by (simp add: Let_def frames)
qed

end
