(* ===== verification/Save_Wav.thy ===== *)
theory Save_Wav
  imports Wav_Writer Post_Processor
begin

text \<open>
  \<open>src/qwen_tts_bridge/audio/save_wav_callbacks.cpp\<close>: callbacks that stream the audio of a request into
  a WAV file and report how it ended. The callbacks run one after the other on the dispatcher thread;
  another thread may give the operation up at any time (\<open>mark_save_wav_finished\<close> with \<open>false\<close>), in
  particular between the critical sections of a callback. How the writes end is an argument.
\<close>

section \<open>State and callbacks\<close>

record SaveWavState =
  sw_terminal :: bool
  sw_success :: bool
  sw_message :: string
  sw_audio_chunks :: nat
  sw_audio_bytes :: nat
  sw_writer :: WavWriter

definition new_save_wav :: "WavWriter \<Rightarrow> SaveWavState" where
  "new_save_wav w = \<lparr>sw_terminal = False, sw_success = False, sw_message = '''', sw_audio_chunks = 0,
     sw_audio_bytes = 0, sw_writer = w\<rparr>"

definition mark_save_wav_finished :: "bool \<Rightarrow> string \<Rightarrow> SaveWavState \<Rightarrow> SaveWavState" where
  "mark_save_wav_finished success m st =
     (if sw_terminal st then st else st\<lparr>sw_terminal := True, sw_success := success, sw_message := m\<rparr>)"

text \<open>Another thread gives up with this message, or does nothing.\<close>

definition give_up :: "string option \<Rightarrow> SaveWavState \<Rightarrow> SaveWavState" where
  "give_up m st = (case m of None \<Rightarrow> st | Some what \<Rightarrow> mark_save_wav_finished False what st)"

text \<open>\<open>wait_for_save_wav_terminal\<close>: with a zero timeout it returns once the state is terminal, otherwise
  when the time is over at the latest; the result is whether the state is terminal then.\<close>

definition wait_for_save_wav_terminal :: "nat \<Rightarrow> bool \<Rightarrow> SaveWavState \<Rightarrow> bool option" where
  "wait_for_save_wav_terminal timeout_ms elapsed st =
     (if sw_terminal st then Some True
      else if timeout_ms = 0 then None
      else if elapsed then Some False else None)"

definition save_on_audio ::
  "AudioFormat \<Rightarrow> WriteEnv \<Rightarrow> string option \<Rightarrow> string option \<Rightarrow> PcmChunk \<Rightarrow> SaveWavState \<Rightarrow> SaveWavState" where
  "save_on_audio expected env before_write after_write chunk st =
     (if sw_terminal st then st
      else if pcm_format chunk \<noteq> expected then
        mark_save_wav_finished False ''worker produced an unexpected PCM format'' st
      else
        (let st = give_up before_write st in
         if sw_terminal st then st
         else
           (case write_pcm env (Some (pcm_bytes chunk)) (length (pcm_bytes chunk)) (sw_writer st) of
              (Inl e, w) \<Rightarrow> mark_save_wav_finished False e (give_up after_write (st\<lparr>sw_writer := w\<rparr>))
            | (Inr _, w) \<Rightarrow>
                (let st = give_up after_write (st\<lparr>sw_writer := w\<rparr>) in
                 if sw_terminal st then st
                 else st\<lparr>sw_audio_chunks := Suc (sw_audio_chunks st),
                         sw_audio_bytes := sw_audio_bytes st + length (pcm_bytes chunk)\<rparr>))))"

text \<open>How a call of \<open>close\<close> ends: the two writes of the patch and the flush.\<close>

type_synonym CloseEnv = "WriteEnv \<times> WriteEnv \<times> bool"

fun close_with :: "CloseEnv \<Rightarrow> WavWriter \<Rightarrow> WavResult" where
  "close_with (env1, env2, flushed) w = wav_close env1 env2 flushed w"

definition save_on_completed :: "CloseEnv \<Rightarrow> string option \<Rightarrow> SaveWavState \<Rightarrow> SaveWavState" where
  "save_on_completed env after_close st =
     (if sw_terminal st then st
      else
        (case close_with env (sw_writer st) of
           (Inl e, w) \<Rightarrow> mark_save_wav_finished False e (give_up after_close (st\<lparr>sw_writer := w\<rparr>))
         | (Inr _, w) \<Rightarrow> mark_save_wav_finished True ''completed'' (give_up after_close (st\<lparr>sw_writer := w\<rparr>))))"

definition close_writer_ignoring_errors :: "CloseEnv \<Rightarrow> SaveWavState \<Rightarrow> SaveWavState" where
  "close_writer_ignoring_errors env st = st\<lparr>sw_writer := snd (close_with env (sw_writer st))\<rparr>"

definition save_on_cancelled :: "CloseEnv \<Rightarrow> SaveWavState \<Rightarrow> SaveWavState" where
  "save_on_cancelled env st =
     mark_save_wav_finished False ''request was cancelled'' (close_writer_ignoring_errors env st)"

definition save_on_error :: "CloseEnv \<Rightarrow> TtsError \<Rightarrow> SaveWavState \<Rightarrow> SaveWavState" where
  "save_on_error env e st =
     mark_save_wav_finished False (te_category e @ ''/'' @ te_code e @ '': '' @ te_message e)
       (close_writer_ignoring_errors env st)"

text \<open>The environment of one callback, and the callbacks \<open>make_save_wav_callbacks\<close> builds; the others are
  not set.\<close>

record SaveEnv =
  se_before :: "string option"
  se_write :: WriteEnv
  se_close :: CloseEnv
  se_first :: "string option"
  se_second :: "string option"

fun save_wav_call :: "AudioFormat \<Rightarrow> SaveEnv \<Rightarrow> CallbackCall \<Rightarrow> SaveWavState \<Rightarrow> SaveWavState" where
  "save_wav_call f env (AudioCall chunk) st = save_on_audio f (se_write env) (se_first env) (se_second env) chunk st"
| "save_wav_call f env CompletedCall st = save_on_completed (se_close env) (se_second env) st"
| "save_wav_call f env CancelledCall st = save_on_cancelled (se_close env) st"
| "save_wav_call f env (ErrorCall e) st = save_on_error (se_close env) e st"
| "save_wav_call f env _ st = st"

fun save_wav_run :: "AudioFormat \<Rightarrow> (SaveEnv \<times> CallbackCall) list \<Rightarrow> SaveWavState \<Rightarrow> SaveWavState" where
  "save_wav_run f [] st = st"
| "save_wav_run f ((env, call) # calls) st = save_wav_run f calls (save_wav_call f env call (give_up (se_before env) st))"

section \<open>Successful writes\<close>

lemma stream_write_good: "of_good (stream_write env bytes f) \<Longrightarrow> of_good f \<and> env = None"
  by (auto simp: stream_write_def split: if_splits option.splits)

lemma stream_seek_good [simp]: "of_good (stream_seek pos f) = of_good f"
  by (simp add: stream_seek_def)

lemma write_pcm_succeeds:
  assumes w: "wav_open w pcm" and run: "write_pcm env (Some data) (length data) w = (Inr u, w')"
  shows "wav_open w' (pcm @ data) \<and> same_format w' w"
proof (cases "data = []")
  case True
  then show ?thesis using assms by (simp add: write_pcm_def wav_open_def same_format_def split: if_splits)
next
  case False
  have max: "(ucast ((- 1 :: u32) - kRiffSizeWithoutData) :: u64) = 4294967259"
    by (simp add: kRiffSizeWithoutData_def)
  have c: "length data mod unat (ww_block_align w) = 0" "\<not> ww_data_size w > 4294967259"
    "\<not> length data > unat (4294967259 - ww_data_size w)" "of_good (stream_write env data (ww_file w))"
    using run False by (auto simp: write_pcm_def max Let_def ensure_stream_ok_def split: if_splits)
  have "unat (4294967259 - ww_data_size w) = 4294967259 - unat (ww_data_size w)"
    using c(2) by (simp add: unat_sub not_less)
  moreover have "unat (ww_data_size w) = length pcm" "length pcm \<le> 4294967259" using w by (simp_all add: wav_open_def)
  ultimately have "length pcm + length data \<le> 4294967259" using c(3) by linarith
  then obtain w1 where "write_pcm None (Some data) (length data) w = (Inr (), w1)" "wav_open w1 (pcm @ data)" "same_format w1 w"
    using write_pcm_open [OF w c(1)] by blast
  then show ?thesis using run stream_write_good [OF c(4)] by auto
qed

lemma wav_close_succeeds:
  assumes w: "wav_open w pcm" and run: "wav_close env1 env2 flushed w = (Inr u, w')"
  shows "ww_closed w' \<and>
     of_bytes (ww_file w') = wav_header w (byte_rate_of w) (of_nat (36 + length pcm)) (of_nat (length pcm)) @ pcm"
proof -
  have "\<not> ww_closed w" using w by (simp add: wav_open_def)
  then have "env1 = None \<and> env2 = None \<and> flushed"
    using run
    by (auto simp: wav_close_def patch_header_def ensure_stream_ok_def Let_def dest!: stream_write_good
        split: if_splits sum.splits prod.splits)
  then show ?thesis using wav_close_open [OF w] run by auto
qed

section \<open>What success means\<close>

fun audio_before_end :: "(SaveEnv \<times> CallbackCall) list \<Rightarrow> byte list" where
  "audio_before_end [] = []"
| "audio_before_end ((env, call) # calls) =
     (if ends_request call then []
      else (case call of AudioCall c \<Rightarrow> pcm_bytes c | _ \<Rightarrow> []) @ audio_before_end calls)"

text \<open>A state in which \<open>pcm\<close> has been written, and one in which the file is finished.\<close>

definition saving :: "WavWriter \<Rightarrow> byte list \<Rightarrow> SaveWavState \<Rightarrow> bool" where
  "saving w pcm st \<longleftrightarrow> \<not> sw_terminal st \<and> \<not> sw_success st \<and> wav_open (sw_writer st) pcm \<and>
     same_format (sw_writer st) w \<and> sw_audio_bytes st = length pcm"

definition saved :: "WavWriter \<Rightarrow> byte list \<Rightarrow> SaveWavState \<Rightarrow> bool" where
  "saved w pcm st \<longleftrightarrow> sw_terminal st \<and> ww_closed (sw_writer st) \<and> sw_audio_bytes st = length pcm \<and>
     of_bytes (ww_file (sw_writer st)) = wav_header w (byte_rate_of w) (of_nat (36 + length pcm)) (of_nat (length pcm)) @ pcm"

definition gave_up :: "SaveWavState \<Rightarrow> bool" where
  "gave_up st \<longleftrightarrow> sw_terminal st \<and> \<not> sw_success st"

lemma mark_finished_terminal [simp]: "sw_terminal (mark_save_wav_finished b m st)"
  by (simp add: mark_save_wav_finished_def)

lemma gave_up_simps [simp]:
  "gave_up st \<Longrightarrow> gave_up (mark_save_wav_finished b m st)" "gave_up st \<Longrightarrow> gave_up (give_up m' st)"
  by (auto simp: gave_up_def mark_save_wav_finished_def give_up_def split: option.split)

lemma give_up_cases: "saving w pcm st \<Longrightarrow> saving w pcm (give_up m st) \<or> gave_up (give_up m st)"
  by (auto simp: saving_def gave_up_def give_up_def mark_save_wav_finished_def split: option.split)

lemma saved_give_up: "saved w pcm st \<Longrightarrow> give_up m st = st"
  by (auto simp: saved_def give_up_def mark_save_wav_finished_def split: option.split)

lemma mark_failed: "\<not> sw_success st \<Longrightarrow> gave_up (mark_save_wav_finished False m st)"
  by (simp add: gave_up_def mark_save_wav_finished_def)

lemma give_up_no_success: "\<not> sw_success st \<Longrightarrow> \<not> sw_success (give_up m st)"
  by (simp add: give_up_def mark_save_wav_finished_def split: option.split)

lemma closed_close: "ww_closed w \<Longrightarrow> close_with env w = (Inr (), w)"
  by (cases env) (simp add: wav_close_def)

lemma audio_step:
  assumes "saving w pcm st"
  shows "saving w (pcm @ pcm_bytes c) (save_on_audio f env m1 m2 c st) \<or> gave_up (save_on_audio f env m1 m2 c st)"
proof -
  define st1 where "st1 = give_up m1 st"
  have ns: "\<not> sw_success st" "\<not> sw_terminal st" using assms by (simp_all add: saving_def)
  have st1: "gave_up st1 \<or> saving w pcm st1" using give_up_cases [OF assms] by (auto simp: st1_def)
  show ?thesis
  proof (cases "pcm_format c \<noteq> f \<or> sw_terminal st1")
    case True
    then show ?thesis
      using ns st1 mark_failed by (auto simp: save_on_audio_def Let_def st1_def [symmetric] saving_def)
  next
    case False
    then have s1: "saving w pcm st1" using st1 by (auto simp: gave_up_def)
    obtain r w' where wr: "write_pcm env (Some (pcm_bytes c)) (length (pcm_bytes c)) (sw_writer st1) = (r, w')"
      by (cases "write_pcm env (Some (pcm_bytes c)) (length (pcm_bytes c)) (sw_writer st1)")
    have ns1: "\<not> sw_success (st1\<lparr>sw_writer := w'\<rparr>)" using s1 by (simp add: saving_def)
    show ?thesis
    proof (cases r)
      case (Inl e)
      then show ?thesis
        using False ns wr mark_failed give_up_no_success [OF ns1]
        by (simp add: save_on_audio_def Let_def st1_def [symmetric])
    next
      case (Inr u)
      have "wav_open w' (pcm @ pcm_bytes c)" "same_format w' w"
        using write_pcm_succeeds [of "sw_writer st1" pcm env "pcm_bytes c" u w'] s1 wr Inr
        by (auto simp: saving_def same_format_def)
      moreover define st2 where "st2 = give_up m2 (st1\<lparr>sw_writer := w'\<rparr>)"
      moreover have "st2 = st1\<lparr>sw_writer := w'\<rparr> \<or> gave_up st2"
        using s1 by (auto simp: st2_def give_up_def mark_save_wav_finished_def gave_up_def saving_def split: option.split)
      ultimately show ?thesis
        using False ns wr Inr s1
        by (auto simp: save_on_audio_def Let_def st1_def [symmetric] saving_def gave_up_def)
    qed
  qed
qed

lemma completed_step:
  assumes "saving w pcm st"
  shows "saved w pcm (save_on_completed env m st) \<or> gave_up (save_on_completed env m st)"
proof -
  obtain e1 e2 fl where env: "env = (e1, e2, fl)" by (cases env)
  obtain r w' where cl: "wav_close e1 e2 fl (sw_writer st) = (r, w')" by (cases "wav_close e1 e2 fl (sw_writer st)")
  have st: "\<not> sw_terminal st" "\<not> sw_success (st\<lparr>sw_writer := w'\<rparr>)" "wav_open (sw_writer st) pcm"
    "same_format (sw_writer st) w" "sw_audio_bytes st = length pcm"
    using assms by (simp_all add: saving_def)
  define st1 where "st1 = give_up m (st\<lparr>sw_writer := w'\<rparr>)"
  have st1: "st1 = st\<lparr>sw_writer := w'\<rparr> \<or> gave_up st1"
    using st(1,2) by (auto simp: st1_def give_up_def mark_save_wav_finished_def gave_up_def split: option.split)
  show ?thesis
  proof (cases r)
    case (Inl e)
    then show ?thesis
      using st(1) cl mark_failed give_up_no_success [OF st(2)] by (simp add: save_on_completed_def env)
  next
    case (Inr u)
    note ok = wav_close_succeeds [OF st(3) cl [unfolded Inr]] same_format_header [OF st(4)]
    show ?thesis
      using st1
    proof
      assume "st1 = st\<lparr>sw_writer := w'\<rparr>"
      then have "save_on_completed env m st =
          st\<lparr>sw_writer := w', sw_terminal := True, sw_success := True, sw_message := ''completed''\<rparr>"
        using st(1) cl Inr by (simp add: save_on_completed_def env st1_def [symmetric] mark_save_wav_finished_def)
      then show ?thesis using ok st(5) by (simp add: saved_def)
    next
      assume "gave_up st1"
      then show ?thesis using st(1) cl Inr by (simp add: save_on_completed_def env st1_def [symmetric])
    qed
  qed
qed

lemma cancel_or_error_step:
  assumes "\<not> sw_success st"
  shows "gave_up (save_on_cancelled env st)" "gave_up (save_on_error env e st)"
  using assms by (simp_all add: save_on_cancelled_def save_on_error_def close_writer_ignoring_errors_def mark_failed)

lemma gave_up_stays: "gave_up st \<Longrightarrow> gave_up (save_wav_call f env call st)"
  by (cases call) (auto simp: save_on_audio_def save_on_completed_def gave_up_def cancel_or_error_step [unfolded gave_up_def])

lemma gave_up_run: "gave_up st \<Longrightarrow> gave_up (save_wav_run f calls st)"
  by (induction calls arbitrary: st) (auto simp: gave_up_stays)

lemma saved_stays: "saved w pcm st \<Longrightarrow> save_wav_call f env call st = st"
  by (cases call)
    (auto simp: saved_def save_on_audio_def save_on_completed_def save_on_cancelled_def save_on_error_def
      close_writer_ignoring_errors_def mark_save_wav_finished_def closed_close)

lemma saved_run: "saved w pcm st \<Longrightarrow> save_wav_run f calls st = st"
  by (induction calls arbitrary: st) (auto simp: saved_give_up saved_stays)

lemma run_from_saving:
  "saving w pcm st \<Longrightarrow> sw_success (save_wav_run f calls st) \<Longrightarrow>
   saved w (pcm @ audio_before_end calls) (save_wav_run f calls st)"
proof (induction calls arbitrary: pcm st)
  case Nil
  then show ?case by (simp add: saving_def)
next
  case (Cons ec calls)
  obtain env call where ec: "ec = (env, call)" by (cases ec)
  define st1 where "st1 = give_up (se_before env) st"
  define st2 where "st2 = save_wav_call f env call st1"
  have run: "save_wav_run f (ec # calls) st = save_wav_run f calls st2" by (simp add: ec st1_def st2_def)
  have no: "\<not> gave_up st2" using gave_up_run [of st2 f calls] Cons.prems(2) by (auto simp: run gave_up_def)
  then have s1: "saving w pcm st1"
    using give_up_cases [OF Cons.prems(1)] gave_up_stays unfolding st1_def st2_def by blast
  show ?case
  proof (cases "ends_request call")
    case True
    have "saved w pcm st2"
      using True no s1 completed_step [OF s1, of "se_close env" "se_second env"] cancel_or_error_step [of st1 "se_close env"]
      by (cases call) (auto simp: st2_def saving_def)
    then show ?thesis using True saved_run [of w pcm st2 f calls] unfolding run by (simp add: ec)
  next
    case False
    have "saving w (pcm @ (case call of AudioCall c \<Rightarrow> pcm_bytes c | _ \<Rightarrow> [])) st2"
      using False no s1 audio_step [OF s1, of _ f "se_write env" "se_first env" "se_second env"]
      by (cases call) (auto simp: st2_def)
    from Cons.IH [OF this] Cons.prems(2) False show ?thesis unfolding run by (simp add: ec)
  qed
qed

section \<open>The saved file\<close>

text \<open>C36. Whatever the callbacks, the writes and the threads that give up do: when the operation reports
  success, the file is closed and holds exactly the final header and the audio delivered before the end
  of the request, in order, and the byte counter is the length of that audio. Nothing that happens after
  the success changes the file.
\<close>

theorem saved_wav_complete:
  assumes "new_wav_writer can_open env path rate chans bits = Inr w"
    and "sw_success (save_wav_run f calls (new_save_wav w))"
  shows "sw_terminal (save_wav_run f calls (new_save_wav w)) \<and>
     ww_closed (sw_writer (save_wav_run f calls (new_save_wav w))) \<and>
     sw_audio_bytes (save_wav_run f calls (new_save_wav w)) = length (audio_before_end calls) \<and>
     of_bytes (ww_file (sw_writer (save_wav_run f calls (new_save_wav w)))) =
       wav_header w (byte_rate_of w) (of_nat (36 + length (audio_before_end calls)))
         (of_nat (length (audio_before_end calls))) @ audio_before_end calls"
proof -
  have "saving w [] (new_save_wav w)"
    using new_wav_writer_open [OF assms(1)] by (simp add: saving_def new_save_wav_def same_format_def)
  from run_from_saving [OF this assms(2)] show ?thesis by (simp add: saved_def)
qed

text \<open>A chunk and the end of the request, with writes that succeed.\<close>

definition fair_writes :: SaveEnv where
  "fair_writes = \<lparr>se_before = None, se_write = None, se_close = (None, None, True), se_first = None,
     se_second = None\<rparr>"

theorem saved_wav_complete_witness:
  "\<exists>w. new_wav_writer True None ''a'' 24000 1 16 = Inr w \<and>
     of_bytes (ww_file (sw_writer (save_wav_run (pcm_format sample_chunk) [(fair_writes, AudioCall sample_chunk),
       (fair_writes, CompletedCall)] (new_save_wav w)))) =
     wav_header w (byte_rate_of w) (of_nat (36 + length (pcm_bytes sample_chunk)))
       (of_nat (length (pcm_bytes sample_chunk))) @ pcm_bytes sample_chunk"
proof -
  let ?calls = "[(fair_writes, AudioCall sample_chunk), (fair_writes, CompletedCall)]"
  obtain w where w: "new_wav_writer True None ''a'' 24000 1 16 = Inr w"
    by (simp add: new_wav_writer_def is_supported_bits_per_sample_def write_header_def checked_u32_def Let_def
        kRiffSizeWithoutData_def ensure_stream_ok_def stream_write_def and_then_Inr_conv)
  then have o: "wav_open w []" "ww_block_align w = 2" using new_wav_writer_open [OF w] by simp_all
  then obtain w1 where w1: "write_pcm None (Some (pcm_bytes sample_chunk)) (length (pcm_bytes sample_chunk)) w = (Inr (), w1)"
      "wav_open w1 (pcm_bytes sample_chunk)"
    using write_pcm_open [OF o(1), of "pcm_bytes sample_chunk"] by (auto simp: sample_chunk_def)
  obtain w2 where w2: "wav_close None None True w1 = (Inr (), w2)" using wav_close_open [OF w1(2)] by blast
  have "sw_success (save_wav_run (pcm_format sample_chunk) ?calls (new_save_wav w))"
    by (simp add: new_save_wav_def save_on_audio_def save_on_completed_def fair_writes_def give_up_def w1(1) w2
        mark_save_wav_finished_def)
  from saved_wav_complete [OF w this] w show ?thesis by auto
qed

end
