(* ===== verification/Voice_Store.thy ===== *)
theory Voice_Store
  imports Wav_Reader
begin

text \<open>
  The directory in which \<open>worker/native/qwentts/prepared_voice_reference.cpp\<close> publishes a prepared voice,
  and the file operations of that file. An operation may throw, and the process may be terminated in the
  middle of it; a script of faults says what happens at each call. A file that is being written may be
  left with part of its data; a rename happens or does not happen. Names are relative to the directory,
  and the messages of exceptions name files in the same way.
\<close>

section \<open>The directory\<close>

text \<open>At a call: nothing unusual; the call throws; the process dies. For a write the number says how much
  of the data reached the file (\<open>None\<close>: the file was not even opened), for the other calls whether they
  had taken effect when the process died.\<close>

datatype Fault = NoFault | Throws "nat option" | Dies "nat option"

record VoiceStore =
  vs_files :: "string \<Rightarrow> byte list option"
  vs_dirs :: "string list"
  vs_quarantined :: "string \<Rightarrow> string \<Rightarrow> byte list option"
  vs_reparse :: "string \<Rightarrow> bool"
  vs_faults :: "Fault list"
  vs_speaker_published :: bool
  vs_rvq_published :: bool
  vs_manifest_committed :: bool

datatype VoiceError = RuntimeError string | LibraryError

datatype 'a Outcome = Returned 'a | Threw VoiceError | Died

type_synonym 'a action = "VoiceStore \<Rightarrow> 'a Outcome \<times> VoiceStore"

section \<open>Sequencing\<close>

definition give :: "'a \<Rightarrow> 'a action" where
  "give x s = (Returned x, s)"

definition fail_with :: "string \<Rightarrow> 'a action" where
  "fail_with m s = (Threw (RuntimeError m), s)"

definition bnd :: "'a action \<Rightarrow> ('a \<Rightarrow> 'b action) \<Rightarrow> 'b action" where
  "bnd m k s =
     (case m s of (Returned x, s') \<Rightarrow> k x s' | (Threw e, s') \<Rightarrow> (Threw e, s') | (Died, s') \<Rightarrow> (Died, s'))"

definition on_throw :: "'a action \<Rightarrow> (VoiceError \<Rightarrow> 'a action) \<Rightarrow> 'a action" where
  "on_throw m h s = (case m s of (Threw e, s') \<Rightarrow> h e s' | r \<Rightarrow> r)"

fun do_all :: "unit action list \<Rightarrow> unit action" where
  "do_all [] = give ()"
| "do_all (a # as) = bnd a (\<lambda>_. do_all as)"

definition lift_result :: "VoiceError + 'a \<Rightarrow> 'a action" where
  "lift_result r s = (case r of Inl e \<Rightarrow> (Threw e, s) | Inr x \<Rightarrow> (Returned x, s))"

definition next_fault :: "VoiceStore \<Rightarrow> Fault \<times> VoiceStore" where
  "next_fault s = (case vs_faults s of [] \<Rightarrow> (NoFault, s) | f # fs \<Rightarrow> (f, s\<lparr>vs_faults := fs\<rparr>))"

section \<open>File operations\<close>

definition put_file :: "string \<Rightarrow> byte list option \<Rightarrow> VoiceStore \<Rightarrow> VoiceStore" where
  "put_file name c s = s\<lparr>vs_files := (vs_files s)(name := c)\<rparr>"

text \<open>A call of the system that changes none of the files here, also the hooks that tests use to throw or
  terminate at a given point.\<close>

definition system_call :: "unit action" where
  "system_call s =
     (case next_fault s of
        (NoFault, s) \<Rightarrow> (Returned (), s)
      | (Throws _, s) \<Rightarrow> (Threw LibraryError, s)
      | (Dies _, s) \<Rightarrow> (Died, s))"

definition write_bytes :: "string \<Rightarrow> byte list \<Rightarrow> unit action" where
  "write_bytes name data s =
     (let unable = ''unable to write prepared voice artifact: ''; unfinished = ''unable to finish prepared voice artifact: '' in
      case next_fault s of
        (NoFault, s) \<Rightarrow> (Returned (), put_file name (Some data) s)
      | (Throws None, s) \<Rightarrow> (Threw (RuntimeError (unable @ name)), s)
      | (Throws (Some n), s) \<Rightarrow>
          (Threw (RuntimeError ((if n < length data then unable else unfinished) @ name)),
           put_file name (Some (take n data)) s)
      | (Dies None, s) \<Rightarrow> (Died, s)
      | (Dies (Some n), s) \<Rightarrow> (Died, put_file name (Some (take n data)) s))"

definition move_file :: "string \<Rightarrow> string \<Rightarrow> VoiceStore \<Rightarrow> VoiceStore" where
  "move_file a b s = s\<lparr>vs_files := (vs_files s)(a := None, b := vs_files s a)\<rparr>"

definition rename_file :: "string \<Rightarrow> string \<Rightarrow> unit action" where
  "rename_file a b s =
     (case next_fault s of
        (NoFault, s) \<Rightarrow> if vs_files s a = None then (Threw LibraryError, s) else (Returned (), move_file a b s)
      | (Throws _, s) \<Rightarrow> (Threw LibraryError, s)
      | (Dies None, s) \<Rightarrow> (Died, s)
      | (Dies (Some _), s) \<Rightarrow> (Died, if vs_files s a = None then s else move_file a b s))"

text \<open>\<open>remove_if_exists\<close> ignores an error.\<close>

definition remove_if_exists :: "string \<Rightarrow> unit action" where
  "remove_if_exists name s =
     (case next_fault s of
        (NoFault, s) \<Rightarrow> (Returned (), put_file name None s)
      | (Throws _, s) \<Rightarrow> (Returned (), s)
      | (Dies None, s) \<Rightarrow> (Died, s)
      | (Dies (Some _), s) \<Rightarrow> (Died, put_file name None s))"

text \<open>The empty name stands for the directory and everything above it.\<close>

definition reject_reparse_point :: "string \<Rightarrow> unit action" where
  "reject_reparse_point name s =
     (if vs_reparse s name then fail_with (''prepared voice path must not be a reparse point: '' @ name) s
      else give () s)"

definition reject_reparse_ancestors :: "string \<Rightarrow> unit action" where
  "reject_reparse_ancestors name = bnd (reject_reparse_point name) (\<lambda>_. reject_reparse_point [])"

definition kMaxManifestBytes :: nat where "kMaxManifestBytes = 1024 * 1024"

definition kMaxSpeakerBytes :: nat where "kMaxSpeakerBytes = 16 * 1024 * 1024"

definition kMaxRvqBytes :: nat where "kMaxRvqBytes = 256 * 1024 * 1024"

definition read_bounded_file :: "string \<Rightarrow> nat \<Rightarrow> nat \<Rightarrow> byte list action" where
  "read_bounded_file name expected_size maximum_size =
     bnd (reject_reparse_ancestors name) (\<lambda>_ s.
       case vs_files s name of
         None \<Rightarrow> fail_with (''prepared voice artifact is missing: '' @ name) s
       | Some bytes \<Rightarrow>
           if length bytes = 0 \<or> length bytes \<noteq> expected_size \<or> length bytes > maximum_size \<or>
              length bytes > 2 ^ 63 - 1
           then fail_with (''prepared voice artifact size mismatch: '' @ name) s
           else
             (case next_fault s of
                (NoFault, s) \<Rightarrow> (Returned bytes, s)
              | (Throws _, s) \<Rightarrow> fail_with (''unable to read prepared voice artifact: '' @ name) s
              | (Dies _, s) \<Rightarrow> (Died, s)))"

definition read_bounded_text_file :: "string \<Rightarrow> nat \<Rightarrow> string action" where
  "read_bounded_text_file name maximum_size =
     bnd (reject_reparse_ancestors name) (\<lambda>_ s.
       case vs_files s name of
         None \<Rightarrow> fail_with (''prepared voice manifest is missing: '' @ name) s
       | Some bytes \<Rightarrow>
           if length bytes > maximum_size \<or> length bytes > 2 ^ 63 - 1
           then fail_with (''prepared voice manifest is too large: '' @ name) s
           else
             (case next_fault s of
                (NoFault, s) \<Rightarrow> (Returned (map byte_char bytes), s)
              | (Throws _, s) \<Rightarrow> fail_with (''unable to read prepared voice manifest: '' @ name) s
              | (Dies _, s) \<Rightarrow> (Died, s)))"

text \<open>The contents of a file, for \<open>sha256_file\<close> and for reading a stream to its end.\<close>

definition file_bytes :: "string \<Rightarrow> byte list action" where
  "file_bytes name s =
     (case next_fault s of
        (NoFault, s) \<Rightarrow> (case vs_files s name of None \<Rightarrow> (Threw LibraryError, s) | Some bytes \<Rightarrow> (Returned bytes, s))
      | (Throws _, s) \<Rightarrow> (Threw LibraryError, s)
      | (Dies _, s) \<Rightarrow> (Died, s))"

section \<open>What holds after an action\<close>

text \<open>From \<open>P\<close>, the action returns with \<open>Q\<close>, throws with \<open>E\<close> or dies with \<open>D\<close>.\<close>

definition triple ::
  "(VoiceStore \<Rightarrow> bool) \<Rightarrow> 'a action \<Rightarrow> ('a \<Rightarrow> VoiceStore \<Rightarrow> bool) \<Rightarrow> (VoiceStore \<Rightarrow> bool) \<Rightarrow> (VoiceStore \<Rightarrow> bool) \<Rightarrow> bool" where
  "triple P m Q E D \<longleftrightarrow>
     (\<forall>s. P s \<longrightarrow> (case m s of (Returned x, s') \<Rightarrow> Q x s' | (Threw e, s') \<Rightarrow> E s' | (Died, s') \<Rightarrow> D s'))"

named_theorems triples \<open>what file operations keep\<close>

lemma triple_bnd:
  "triple P m R E D \<Longrightarrow> (\<And>x. triple (R x) (k x) Q E D) \<Longrightarrow> triple P (bnd m k) Q E D"
  by (fastforce simp: triple_def bnd_def split: prod.splits Outcome.splits)

lemma triple_give: "triple P (give x) (\<lambda>y s. y = x \<and> P s) E D"
  by (simp add: triple_def give_def)

lemma triple_pre: "triple P m Q E D \<Longrightarrow> (\<And>s. P' s \<Longrightarrow> P s) \<Longrightarrow> triple P' m Q E D"
  by (simp add: triple_def)

lemma triple_post:
  "triple P m Q E D \<Longrightarrow> (\<And>x s. Q x s \<Longrightarrow> Q' x s) \<Longrightarrow> (\<And>s. E s \<Longrightarrow> E' s) \<Longrightarrow> (\<And>s. D s \<Longrightarrow> D' s) \<Longrightarrow>
   triple P m Q' E' D'"
  by (fastforce simp: triple_def split: prod.splits Outcome.splits)

lemma triple_do_all_Cons:
  "triple P a (\<lambda>_. R) E D \<Longrightarrow> triple R (do_all as) Q E D \<Longrightarrow> triple P (do_all (a # as)) Q E D"
  by (simp add: triple_bnd)

lemma triple_on_throw:
  "triple P m Q E D \<Longrightarrow> (\<And>e. triple E (h e) Q E' D) \<Longrightarrow> triple P (on_throw m h) Q E' D"
  by (fastforce simp: triple_def on_throw_def split: prod.splits Outcome.splits)

lemma triple_lift: "triple P (lift_result r) (\<lambda>x s. r = Inr x \<and> P s) P D"
  by (auto simp: triple_def lift_result_def split: sum.splits)

lemma triple_result:
  "triple P m Q E D \<Longrightarrow> P s \<Longrightarrow> m s = (r, s') \<Longrightarrow>
   case r of Returned x \<Rightarrow> Q x s' | Threw e \<Rightarrow> E s' | Died \<Rightarrow> D s'"
  by (fastforce simp: triple_def split: Outcome.splits)

end
