(* ===== verification/Rvq_Codes.thy ===== *)
theory Rvq_Codes
  imports Prelude
begin

text \<open>
  The packing of codec codes in \<open>worker/native/qwentts/prepared_voice_reference.cpp\<close>: \<open>pack_codes\<close> and
  \<open>unpack_codes\<close> move 11-bit codes through a 64-bit accumulator into bytes and back. Both are related to
  one number, the little-endian value of the codes to the base 2048 and of the bytes to the base 256.
\<close>

unbundle bit_operations_syntax

section \<open>The two loops\<close>

definition kRvqCodeBits :: nat where "kRvqCodeBits = 11"

definition kMaxRvqCode :: int where "kMaxRvqCode = 2 ^ kRvqCodeBits - 1"

text \<open>The state of the packing loop: the output vector, the index of the next byte, the accumulator and
  the number of bits in it.\<close>

type_synonym pack_state = "byte list \<times> nat \<times> u64 \<times> nat"

fun pack_flush :: "byte list \<Rightarrow> nat \<Rightarrow> u64 \<Rightarrow> nat \<Rightarrow> pack_state" where
  "pack_flush output output_index accumulator bits =
     (if 8 \<le> bits
      then pack_flush (output[output_index := ucast (accumulator AND 0xff)]) (Suc output_index)
             (drop_bit 8 accumulator) (bits - 8)
      else (output, output_index, accumulator, bits))"

declare pack_flush.simps [simp del]

fun pack_loop :: "int list \<Rightarrow> pack_state \<Rightarrow> string + pack_state" where
  "pack_loop [] s = Inr s"
| "pack_loop (code # codes) (output, output_index, accumulator, bits) =
     (if code < 0 \<or> code > kMaxRvqCode then Inl ''prepared voice RVQ code is outside the 11-bit range''
      else pack_loop codes
             (pack_flush output output_index (accumulator OR push_bit bits (word_of_int code)) (bits + kRvqCodeBits)))"

definition pack_codes :: "int list \<Rightarrow> string + byte list" where
  "pack_codes codes =
     (let total_bits = length codes * kRvqCodeBits in
      and_then (pack_loop codes (replicate ((total_bits + 7) div 8) 0, 0, 0, 0))
        (\<lambda>(output, output_index, accumulator, bits).
           Inr (if 0 < bits then output[output_index := ucast (accumulator AND 0xff)] else output)))"

text \<open>The inner loop of \<open>unpack_codes\<close> fills the accumulator; the input is what is left of the bytes.\<close>

function unpack_fill :: "byte list \<Rightarrow> u64 \<Rightarrow> nat \<Rightarrow> string + byte list \<times> u64 \<times> nat" where
  "unpack_fill bytes accumulator bits =
     (if bits < kRvqCodeBits
      then (case bytes of
              [] \<Rightarrow> Inl ''prepared voice RVQ stream is truncated''
            | b # bs \<Rightarrow> unpack_fill bs (accumulator OR push_bit bits (ucast b)) (bits + 8))
      else Inr (bytes, accumulator, bits))"
  by pat_completeness auto
termination by (relation "measure (\<lambda>(bytes, accumulator, bits). length bytes)") auto

declare unpack_fill.simps [simp del]

fun unpack_loop :: "nat \<Rightarrow> byte list \<Rightarrow> u64 \<Rightarrow> nat \<Rightarrow> string + int list" where
  "unpack_loop 0 bytes accumulator bits = Inr []"
| "unpack_loop (Suc count) bytes accumulator bits =
     and_then (unpack_fill bytes accumulator bits) (\<lambda>(bytes, accumulator, bits).
     and_then (unpack_loop count bytes (drop_bit kRvqCodeBits accumulator) (bits - kRvqCodeBits)) (\<lambda>codes.
     Inr (uint (accumulator AND word_of_int kMaxRvqCode) # codes)))"

definition unpack_codes :: "byte list \<Rightarrow> nat \<Rightarrow> string + int list" where
  "unpack_codes bytes count = unpack_loop count bytes 0 0"

section \<open>The accumulator as a number\<close>

lemma or_push_bit_nat: "a < 2 ^ n \<Longrightarrow> a OR push_bit n b = a + 2 ^ n * (b :: nat)"
proof -
  assume "a < 2 ^ n"
  then have "take_bit n a = a" by (simp add: take_bit_nat_eq_self)
  then have "bit a i \<Longrightarrow> i < n" for i by (metis bit_take_bit_iff)
  then have "a AND push_bit n b = 0"
    by (intro bit_eqI) (auto simp: bit_and_iff bit_push_bit_iff_nat dest: leD)
  then show ?thesis by (simp add: disjunctive_add_eq_or [symmetric] push_bit_nat_def mult.commute)
qed

lemma unat_or_push_bit:
  fixes a w :: u64
  assumes "unat a < 2 ^ n" and "unat w < 2 ^ m" and "n + m \<le> 64"
  shows "unat (a OR push_bit n w) = unat a + 2 ^ n * unat w"
proof -
  have "2 ^ n * unat w < 2 ^ n * 2 ^ m" using assms(2) by simp
  also have "\<dots> \<le> 2 ^ 64" using power_increasing [OF assms(3), of "2 :: nat"] by (simp only: power_add [symmetric])
  finally have "take_bit 64 (push_bit n (unat w)) = push_bit n (unat w)"
    by (simp add: take_bit_nat_eq_self push_bit_nat_def mult.commute)
  then show ?thesis using or_push_bit_nat [OF assms(1)] by (simp add: unsigned_or_eq unsigned_push_bit_eq)
qed

fun byte_value :: "byte list \<Rightarrow> nat" where
  "byte_value [] = 0"
| "byte_value (b # bs) = unat b + 2 ^ 8 * byte_value bs"

fun code_value :: "int list \<Rightarrow> nat" where
  "code_value [] = 0"
| "code_value (c # cs) = nat c + 2 ^ 11 * code_value cs"

fun code_digits :: "nat \<Rightarrow> nat \<Rightarrow> int list" where
  "code_digits 0 v = []"
| "code_digits (Suc n) v = int (v mod 2 ^ 11) # code_digits n (v div 2 ^ 11)"

definition valid_code :: "int \<Rightarrow> bool" where
  "valid_code c \<longleftrightarrow> 0 \<le> c \<and> c \<le> kMaxRvqCode"

lemma valid_code_bound: "valid_code c \<longleftrightarrow> 0 \<le> c \<and> nat c < 2 ^ 11"
  by (auto simp: valid_code_def kMaxRvqCode_def kRvqCodeBits_def)

lemma byte_value_append: "byte_value (xs @ ys) = byte_value xs + 2 ^ (8 * length xs) * byte_value ys"
  by (induction xs) (simp_all add: power_add distrib_left mult.assoc)

lemma code_value_append: "code_value (xs @ ys) = code_value xs + 2 ^ (11 * length xs) * code_value ys"
  by (induction xs) (simp_all add: power_add distrib_left mult.assoc)

lemma code_digits_value: "\<forall>c\<in>set cs. valid_code c \<Longrightarrow> code_digits (length cs) (code_value cs) = cs"
  by (induction cs) (simp_all add: valid_code_bound div_add1_eq)

section \<open>Packing\<close>

lemma unat_low_byte: "unat (ucast (w AND 0xff) :: byte) = unat (w :: u64) mod 2 ^ 8"
proof -
  have "w AND 0xff = take_bit 8 w" by (simp add: take_bit_eq_mask mask_eq_exp_minus_1)
  then have "unat (ucast (w AND 0xff) :: byte) = take_bit 8 (take_bit 8 (unat w))"
    by (simp only: unsigned_ucast_eq unsigned_take_bit_eq) simp
  then show ?thesis by (simp add: take_bit_eq_mod)
qed

lemma unat_drop: "unat (drop_bit n (w :: u64)) = unat w div 2 ^ n"
  using unsigned_less [of w, where 'a = nat]
  by (simp only: unsigned_drop_bit_eq) (simp add: drop_bit_eq_div take_bit_nat_eq_self)

lemma pack_flush_spec:
  "bits div 8 \<le> length rest \<Longrightarrow> unat acc < 2 ^ bits \<Longrightarrow>
   \<exists>written' acc'. pack_flush (written @ rest) (length written) acc bits =
       (written' @ drop (bits div 8) rest, length written', acc', bits mod 8) \<and>
     length written' = length written + bits div 8 \<and> unat acc' < 2 ^ (bits mod 8) \<and>
     byte_value written' + 2 ^ (8 * length written') * unat acc' =
       byte_value written + 2 ^ (8 * length written) * unat acc"
proof (induction bits arbitrary: written rest acc rule: less_induct)
  case (less bits)
  show ?case
  proof (cases "8 \<le> bits")
    case False
    then show ?thesis using less.prems by (auto simp: pack_flush.simps [of _ _ _ bits])
  next
    case True
    then obtain r rs where rest: "rest = r # rs" using less.prems(1) by (cases rest) auto
    define b :: byte where "b = ucast (acc AND 0xff)"
    have b: "unat b = unat acc mod 2 ^ 8" by (simp only: b_def unat_low_byte)
    have div: "bits div 8 = Suc ((bits - 8) div 8)" "bits mod 8 = (bits - 8) mod 8"
      using True by (simp_all add: le_div_geq le_mod_geq)
    have small: "unat (drop_bit 8 acc) < 2 ^ (bits - 8)"
    proof -
      have "unat acc < 2 ^ (bits - 8) * 2 ^ 8" using less.prems(2) True by (simp only: power_add [symmetric]) simp
      then show ?thesis unfolding unat_drop by (rule less_mult_imp_div_less)
    qed
    have step: "pack_flush (written @ rest) (length written) acc bits =
        pack_flush ((written @ [b]) @ rs) (length (written @ [b])) (drop_bit 8 acc) (bits - 8)"
      using True by (simp add: pack_flush.simps [of _ _ _ bits] rest b_def)
    have "byte_value (written @ [b]) + 2 ^ (8 * length (written @ [b])) * d =
        byte_value written + 2 ^ (8 * length written) * (unat b + 2 ^ 8 * d)" for d
      by (simp add: byte_value_append power_add distrib_left)
    from this [of "unat acc div 2 ^ 8"]
    have "byte_value (written @ [b]) + 2 ^ (8 * length (written @ [b])) * unat (drop_bit 8 acc) =
        byte_value written + 2 ^ (8 * length written) * unat acc"
      by (simp only: b unat_drop mod_mult_div_eq)
    moreover have "bits - 8 < bits" "(bits - 8) div 8 \<le> length rs"
      using True less.prems(1) by (simp_all add: rest div(1))
    moreover note less.IH [OF this small, of "written @ [b]"]
    ultimately show ?thesis unfolding step by (simp add: div rest)
  qed
qed

text \<open>The state of the packing loop after some codes: the bytes written and the bits in the accumulator
  hold their value; the rest of the vector is still zero.\<close>

definition packing :: "nat \<Rightarrow> int list \<Rightarrow> pack_state \<Rightarrow> bool" where
  "packing room codes s \<longleftrightarrow>
     (case s of (out, output_index, acc, bits) \<Rightarrow>
        \<exists>written. out = written @ replicate (room - length written) 0 \<and> output_index = length written \<and>
          length written \<le> room \<and> bits < 8 \<and> unat acc < 2 ^ bits \<and> 8 * length written + bits = 11 * length codes \<and>
          byte_value written + 2 ^ (8 * length written) * unat acc = code_value codes)"

lemma pack_step:
  assumes "packing room codes (out, output_index, acc, bits)" and "valid_code c"
    and "11 * Suc (length codes) \<le> 8 * room"
  shows "packing room (codes @ [c]) (pack_flush out output_index (acc OR push_bit bits (word_of_int c)) (bits + kRvqCodeBits))"
proof -
  obtain written where w: "out = written @ replicate (room - length written) 0" "output_index = length written"
    "length written \<le> room" "bits < 8" "unat acc < 2 ^ bits" "8 * length written + bits = 11 * length codes"
    "byte_value written + 2 ^ (8 * length written) * unat acc = code_value codes"
    using assms(1) by (auto simp: packing_def)
  define acc' :: u64 where "acc' = acc OR push_bit bits (word_of_int c)"
  have c: "0 \<le> c" "nat c < 2 ^ 11" using assms(2) by (simp_all add: valid_code_bound)
  have wc: "unat (word_of_int c :: u64) = nat c"
    using c by (simp add: unsigned_of_int take_bit_int_eq_self nat_less_iff)
  have acc': "unat acc' = unat acc + 2 ^ bits * nat c"
    using unat_or_push_bit [OF w(5), of "word_of_int c" 11] c(2) w(4) by (simp add: acc'_def wc)
  have "unat acc + 2 ^ bits * nat c < 2 ^ bits * Suc (nat c)" using w(5) by simp
  also have "\<dots> \<le> 2 ^ bits * 2 ^ 11" using c(2) by (intro mult_le_mono2) simp
  finally have small: "unat acc' < 2 ^ (bits + 11)" by (simp only: acc' power_add)
  have fits: "(bits + 11) div 8 \<le> length (replicate (room - length written) (0 :: byte))"
    using w(6) assms(3) by simp
  obtain written' acc'' where r: "pack_flush out output_index acc' (bits + 11) =
      (written' @ drop ((bits + 11) div 8) (replicate (room - length written) 0), length written', acc'', (bits + 11) mod 8)"
    "length written' = length written + (bits + 11) div 8" "unat acc'' < 2 ^ ((bits + 11) mod 8)"
    "byte_value written' + 2 ^ (8 * length written') * unat acc'' = byte_value written + 2 ^ (8 * length written) * unat acc'"
    using pack_flush_spec [OF fits small, of written] by (auto simp: w(1,2))
  have "byte_value written + 2 ^ (8 * length written) * unat acc' =
      code_value codes + 2 ^ (8 * length written + bits) * nat c"
    by (simp add: acc' distrib_left power_add mult.assoc flip: w(7))
  then have "byte_value written' + 2 ^ (8 * length written') * unat acc'' = code_value (codes @ [c])"
    by (simp add: r(4) code_value_append w(6))
  moreover have "8 * length written' + (bits + 11) mod 8 = 11 * length (codes @ [c])"
    using r(2) w(6) by simp
  moreover have "length written' \<le> room" using r(2) fits w(3) by simp
  moreover have "drop ((bits + 11) div 8) (replicate (room - length written) (0 :: byte)) = replicate (room - length written') 0"
    by (simp add: r(2))
  ultimately show ?thesis
    using r(3) unfolding packing_def kRvqCodeBits_def acc'_def [symmetric] r(1) prod.case
    by (intro exI [of _ written']) simp
qed

lemma pack_loop_spec:
  "packing room codes s \<Longrightarrow> \<forall>c\<in>set cs. valid_code c \<Longrightarrow> 11 * length (codes @ cs) \<le> 8 * room \<Longrightarrow>
   \<exists>s'. pack_loop cs s = Inr s' \<and> packing room (codes @ cs) s'"
proof (induction cs arbitrary: codes s)
  case (Cons c cs)
  obtain out output_index acc bits where s: "s = (out, output_index, acc, bits)" by (cases s)
  have v: "valid_code c" using Cons.prems(2) by simp
  have "packing room (codes @ [c]) (pack_flush out output_index (acc OR push_bit bits (word_of_int c)) (bits + kRvqCodeBits))"
    using pack_step [OF Cons.prems(1) [unfolded s] v] Cons.prems(3) by simp
  from Cons.IH [OF this] Cons.prems(2,3) v show ?case by (simp add: s valid_code_def not_less)
qed simp

lemma pack_codes_value:
  assumes "\<forall>c\<in>set codes. valid_code c"
  shows "\<exists>bytes. pack_codes codes = Inr bytes \<and> length bytes = (11 * length codes + 7) div 8 \<and>
     byte_value bytes = code_value codes"
proof -
  let ?room = "(11 * length codes + 7) div 8"
  have "packing ?room [] (replicate ?room 0, 0, 0, 0)" by (simp add: packing_def)
  moreover have "11 * length codes \<le> 8 * ?room" by presburger
  ultimately have "\<exists>s. pack_loop codes (replicate ?room 0, 0, 0, 0) = Inr s \<and> packing ?room codes s"
    using pack_loop_spec [of ?room "[]" _ codes] assms by simp
  then obtain out output_index acc bits where
    run: "pack_loop codes (replicate ?room 0, 0, 0, 0) = Inr (out, output_index, acc, bits)" and
    p: "packing ?room codes (out, output_index, acc, bits)"
    by fastforce
  obtain written where w: "out = written @ replicate (?room - length written) 0" "output_index = length written"
    "length written \<le> ?room" "bits < 8" "unat acc < 2 ^ bits" "8 * length written + bits = 11 * length codes"
    "byte_value written + 2 ^ (8 * length written) * unat acc = code_value codes"
    using p by (auto simp: packing_def)
  show ?thesis
  proof (cases "bits = 0")
    case True
    then have zero: "?room - length written = 0" "unat acc = 0" using w(5,6) by simp_all
    have "out = written" using w(1) by (simp only: zero(1) replicate_0 append_Nil2)
    then have "pack_codes codes = Inr written"
      using run True by (simp add: pack_codes_def kRvqCodeBits_def Let_def mult.commute [of "length codes"])
    moreover have "length written = ?room" using zero(1) w(3) by linarith
    ultimately show ?thesis using w(7) zero(2) by (intro exI [of _ written]) (simp only: mult_0_right add_0_right simp_thms)
  next
    case False
    have "?room = (8 * length written + bits + 7) div 8" by (simp only: w(6))
    then have one: "?room = Suc (length written)" using False w(4) by linarith
    have "out = written @ [0]" using w(1) by (simp only: one) simp
    then have "pack_codes codes = Inr (written @ [ucast (acc AND 0xff)])"
      using run False w(2) by (simp add: pack_codes_def kRvqCodeBits_def Let_def mult.commute [of "length codes"])
    moreover have "length written + 1 = ?room" using one by linarith
    moreover have "unat acc < 2 ^ 8" using w(4,5) power_increasing [of bits 8 "2 :: nat"] by simp
    then have "byte_value [ucast (acc AND 0xff)] = unat acc" by (simp add: unat_low_byte)
    then have "byte_value (written @ [ucast (acc AND 0xff)]) = code_value codes"
      by (simp only: byte_value_append w(7))
    ultimately show ?thesis by (intro exI [of _ "written @ [ucast (acc AND 0xff)]"]) simp
  qed
qed

section \<open>Unpacking\<close>

lemma unpack_fill_spec:
  "unat acc < 2 ^ bits \<Longrightarrow> bits \<le> 18 \<Longrightarrow> 11 \<le> 8 * length bytes + bits \<Longrightarrow>
   \<exists>bytes' acc' bits'. unpack_fill bytes acc bits = Inr (bytes', acc', bits') \<and> unat acc' < 2 ^ bits' \<and>
     11 \<le> bits' \<and> bits' \<le> 18 \<and> 8 * length bytes' + bits' = 8 * length bytes + bits \<and>
     unat acc' + 2 ^ bits' * byte_value bytes' = unat acc + 2 ^ bits * byte_value bytes"
proof (induction bytes arbitrary: acc bits)
  case Nil
  then show ?case by (auto simp: unpack_fill.simps kRvqCodeBits_def)
next
  case (Cons b bytes)
  show ?case
  proof (cases "bits < 11")
    case False
    then show ?thesis using Cons.prems by (auto simp: unpack_fill.simps [of "b # bytes"] kRvqCodeBits_def)
  next
    case True
    define acc' :: u64 where "acc' = acc OR push_bit bits (ucast b)"
    have b: "unat b < 2 ^ 8" "unat (ucast b :: u64) = unat b"
      using unsigned_less [of b, where 'a = nat] by (simp_all add: unsigned_ucast_eq take_bit_nat_eq_self)
    have acc': "unat acc' = unat acc + 2 ^ bits * unat b"
      using unat_or_push_bit [OF Cons.prems(1), of "ucast b" 8] b True by (simp add: acc'_def)
    have "unat acc + 2 ^ bits * unat b < 2 ^ bits * Suc (unat b)" using Cons.prems(1) by simp
    also have "\<dots> \<le> 2 ^ bits * 2 ^ 8" using b(1) by (intro mult_le_mono2) simp
    finally have small: "unat acc' < 2 ^ (bits + 8)" by (simp only: acc' power_add)
    have "unat acc' + 2 ^ (bits + 8) * byte_value bytes = unat acc + 2 ^ bits * byte_value (b # bytes)"
      by (simp add: acc' power_add distrib_left)
    with Cons.IH [OF small] Cons.prems(3) True show ?thesis
      by (simp add: unpack_fill.simps [of "b # bytes"] kRvqCodeBits_def acc'_def ac_simps)
  qed
qed

lemma unat_low_code: "uint (w AND word_of_int kMaxRvqCode) = int (unat (w :: u64) mod 2 ^ 11)"
proof -
  have "w AND word_of_int kMaxRvqCode = take_bit 11 w"
    by (simp add: kMaxRvqCode_def kRvqCodeBits_def take_bit_eq_mask mask_eq_exp_minus_1)
  then have "uint (w AND word_of_int kMaxRvqCode) = take_bit 11 (uint w)" by (simp only: unsigned_take_bit_eq)
  then show ?thesis by (simp add: take_bit_eq_mod zmod_int)
qed

lemma unpack_loop_spec:
  "unat acc < 2 ^ bits \<Longrightarrow> bits \<le> 18 \<Longrightarrow> 11 * count \<le> 8 * length bytes + bits \<Longrightarrow>
   unpack_loop count bytes acc bits = Inr (code_digits count (unat acc + 2 ^ bits * byte_value bytes))"
proof (induction count arbitrary: bytes acc bits)
  case (Suc count)
  obtain bytes' acc' bits' where f: "unpack_fill bytes acc bits = Inr (bytes', acc', bits')" "unat acc' < 2 ^ bits'"
    "11 \<le> bits'" "bits' \<le> 18" "8 * length bytes' + bits' = 8 * length bytes + bits"
    "unat acc' + 2 ^ bits' * byte_value bytes' = unat acc + 2 ^ bits * byte_value bytes"
    using unpack_fill_spec [OF Suc.prems(1,2), of bytes] Suc.prems(3) by auto
  have split: "(2 :: nat) ^ bits' = 2 ^ 11 * 2 ^ (bits' - 11)" using f(3) by (simp only: power_add [symmetric]) simp
  have "unat acc' < 2 ^ (bits' - 11) * 2 ^ 11" using f(2) by (simp only: split mult.commute)
  then have small: "unat (drop_bit 11 acc') < 2 ^ (bits' - 11)" unfolding unat_drop by (rule less_mult_imp_div_less)
  have "(unat acc' + 2 ^ bits' * v) mod 2 ^ 11 = unat acc' mod 2 ^ 11"
    "(unat acc' + 2 ^ bits' * v) div 2 ^ 11 = unat acc' div 2 ^ 11 + 2 ^ (bits' - 11) * v" for v
    unfolding split mult.assoc by simp_all
  note digits = this [of "byte_value bytes'", unfolded f(6)]
  have "unpack_loop count bytes' (drop_bit 11 acc') (bits' - 11) =
      Inr (code_digits count (unat (drop_bit 11 acc') + 2 ^ (bits' - 11) * byte_value bytes'))"
    using Suc.IH [OF small, of bytes'] f(3,4,5) Suc.prems(3) by simp
  then show ?case
    using f(1) by (simp only: unpack_loop.simps code_digits.simps and_then_Inr prod.case digits unat_drop unat_low_code
        kRvqCodeBits_def)
qed simp

section \<open>Round trip\<close>

text \<open>C40. Valid codes survive the packed file: \<open>pack_codes\<close> succeeds, produces the number of bytes the
  manifest announces, and \<open>unpack_codes\<close> with the number of codes gives the codes back; no bit of the
  64-bit accumulator is lost on the way.
\<close>

theorem rvq_codes_roundtrip:
  assumes "\<forall>c\<in>set codes. 0 \<le> c \<and> c \<le> kMaxRvqCode"
  shows "\<exists>bytes. pack_codes codes = Inr bytes \<and> length bytes = (length codes * kRvqCodeBits + 7) div 8 \<and>
     unpack_codes bytes (length codes) = Inr codes"
proof -
  have valid: "\<forall>c\<in>set codes. valid_code c" using assms by (simp add: valid_code_def)
  obtain bytes where b: "pack_codes codes = Inr bytes" "length bytes = (11 * length codes + 7) div 8"
    "byte_value bytes = code_value codes"
    using pack_codes_value [OF valid] by blast
  have "unpack_codes bytes (length codes) = Inr (code_digits (length codes) (code_value codes))"
    using unpack_loop_spec [of 0 0 "length codes" bytes] b(2,3) by (simp add: unpack_codes_def)
  then show ?thesis using b code_digits_value [OF valid] by (simp add: kRvqCodeBits_def mult.commute)
qed

theorem rvq_codes_roundtrip_witness:
  "\<exists>bytes. pack_codes [2047, 1, 5] = Inr bytes \<and> length bytes = 5 \<and> unpack_codes bytes 3 = Inr [2047, 1, 5]"
  using rvq_codes_roundtrip [of "[2047, 1, 5]"] by (simp add: kMaxRvqCode_def kRvqCodeBits_def numeral_3_eq_3)

text \<open>Every other list of codes is refused.\<close>

lemma pack_loop_valid: "pack_loop codes s = Inr s' \<Longrightarrow> \<forall>c\<in>set codes. valid_code c"
proof (induction codes arbitrary: s)
  case (Cons c codes)
  obtain a b d e where s: "s = (a, b, d, e)" by (cases s)
  have "valid_code c" using Cons.prems by (simp add: s valid_code_def split: if_splits)
  moreover obtain t where "pack_loop codes t = Inr s'" using Cons.prems by (simp add: s split: if_splits)
  ultimately show ?case using Cons.IH by simp
qed simp

lemma pack_codes_rejects: "(\<exists>bytes. pack_codes codes = Inr bytes) \<longleftrightarrow> (\<forall>c\<in>set codes. valid_code c)"
proof
  assume "\<exists>bytes. pack_codes codes = Inr bytes"
  then show "\<forall>c\<in>set codes. valid_code c"
    by (auto simp only: pack_codes_def and_then_Inr_conv Let_def dest!: pack_loop_valid)
qed (use pack_codes_value in blast)

end
