(* ===== verification/Voice_Reference.thy ===== *)
theory Voice_Reference
  imports Voice_Store Rvq_Codes
begin

text \<open>
  The manifest of a prepared voice and \<open>load_prepared_voice_reference\<close> of
  \<open>worker/native/qwentts/prepared_voice_reference.cpp\<close>: every identity, size and hash that is checked
  before speaker embedding and codes are handed to the engine. Parsing and printing of JSON and the
  SHA-256 digest are arguments.
\<close>

section \<open>Reading JSON\<close>

definition required_string :: "json \<Rightarrow> string \<Rightarrow> VoiceError + string" where
  "required_string obj name =
     (case find_field obj name of
        Some (JString v) \<Rightarrow>
          if v = [] then Inl (RuntimeError (''prepared voice manifest requires non-empty '' @ name)) else Inr v
      | _ \<Rightarrow> Inl (RuntimeError (''prepared voice manifest requires non-empty '' @ name)))"

text \<open>\<open>get<int>\<close> keeps the low 32 bits.\<close>

definition int_of_json :: "64 word \<Rightarrow> int" where
  "int_of_json w = sint (ucast w :: 32 word)"

definition required_integer :: "json \<Rightarrow> string \<Rightarrow> VoiceError + int" where
  "required_integer obj name =
     (case find_field obj name of
        Some (JUnsigned w) \<Rightarrow> Inr (int_of_json w)
      | Some (JInteger w) \<Rightarrow> Inr (int_of_json w)
      | _ \<Rightarrow> Inl (RuntimeError (''prepared voice manifest requires integer '' @ name)))"

definition required_size :: "json \<Rightarrow> string \<Rightarrow> VoiceError + nat" where
  "required_size obj name =
     (case find_field obj name of
        Some (JUnsigned w) \<Rightarrow> Inr (unat w)
      | _ \<Rightarrow> Inl (RuntimeError (''prepared voice manifest requires unsigned '' @ name)))"

text \<open>\<open>value\<close> with a default throws for a field of another type, \<open>at\<close> for a field that is missing.\<close>

definition string_or :: "string \<Rightarrow> json \<Rightarrow> string \<Rightarrow> VoiceError + string" where
  "string_or d obj name =
     (case find_field obj name of None \<Rightarrow> Inr d | Some (JString v) \<Rightarrow> Inr v | Some _ \<Rightarrow> Inl LibraryError)"

definition bool_or :: "bool \<Rightarrow> json \<Rightarrow> string \<Rightarrow> VoiceError + bool" where
  "bool_or d obj name =
     (case find_field obj name of None \<Rightarrow> Inr d | Some (JBool v) \<Rightarrow> Inr v | Some _ \<Rightarrow> Inl LibraryError)"

definition field_at :: "json \<Rightarrow> string \<Rightarrow> VoiceError + json" where
  "field_at obj name = (case find_field obj name of None \<Rightarrow> Inl LibraryError | Some v \<Rightarrow> Inr v)"

text \<open>A condition is evaluated from left to right and stops at the first part that is false or throws.\<close>

fun all_hold :: "(VoiceError + bool) list \<Rightarrow> VoiceError + bool" where
  "all_hold [] = Inr True"
| "all_hold (c # cs) = and_then c (\<lambda>b. if b then all_hold cs else Inr False)"

definition ensure :: "(VoiceError + bool) list \<Rightarrow> string \<Rightarrow> VoiceError + unit" where
  "ensure cs m = and_then (all_hold cs) (\<lambda>b. if b then Inr () else Inl (RuntimeError m))"

definition equals :: "VoiceError + 'a \<Rightarrow> 'a \<Rightarrow> VoiceError + bool" where
  "equals r v = and_then r (\<lambda>x. Inr (x = v))"

section \<open>Context and artifacts\<close>

record PreparedVoiceReferenceContext =
  pc_manifest :: string
  pc_reference_text :: string
  pc_x_vector_only :: bool
  pc_source_sha256 :: string
  pc_talker_sha256 :: string
  pc_codec_sha256 :: string
  pc_engine_commit :: string
  pc_abi_version :: int
  pc_num_codebooks :: int

text \<open>A binary32 number is its 32 bits.\<close>

record PreparedVoiceReferenceData =
  pd_speaker_embedding :: "u32 list"
  pd_codes :: "int list"
  pd_frames :: int
  pd_num_codebooks :: int
  pd_cache_key :: string

definition kMaxSpeakerDimension :: int where "kMaxSpeakerDimension = 2 ^ 20"

definition kMaxRvqCodebooks :: int where "kMaxRvqCodebooks = 64"

definition kMaxRvqFrames :: int where "kMaxRvqFrames = 2 ^ 20"

definition validate_context :: "PreparedVoiceReferenceContext \<Rightarrow> unit action" where
  "validate_context ctx =
     (if pc_engine_commit ctx = [] \<or> pc_abi_version ctx \<le> 0 \<or> pc_num_codebooks ctx \<le> 0 \<or>
         length (pc_talker_sha256 ctx) \<noteq> 64 \<or> length (pc_codec_sha256 ctx) \<noteq> 64 \<or>
         length (pc_source_sha256 ctx) \<noteq> 64
      then fail_with ''prepared voice context is incomplete''
      else reject_reparse_ancestors (pc_manifest ctx))"

text \<open>The components of a path; both separators of the target system count. A drive letter is a root
  name, a leading separator a root directory.\<close>

fun path_parts :: "string \<Rightarrow> string \<Rightarrow> string list" where
  "path_parts part [] = [part]"
| "path_parts part (c # cs) =
     (if c = CHR ''/'' \<or> c = CHR 0x5C then part # path_parts [] cs else path_parts (part @ [c]) cs)"

definition has_root :: "string \<Rightarrow> bool" where
  "has_root p \<longleftrightarrow>
     (case p of
        [] \<Rightarrow> False
      | c # cs \<Rightarrow> c = CHR ''/'' \<or> c = CHR 0x5C \<or> (cs \<noteq> [] \<and> hd cs = CHR '':''))"

definition is_safe_relative_path :: "string \<Rightarrow> bool" where
  "is_safe_relative_path p \<longleftrightarrow> p \<noteq> [] \<and> \<not> has_root p \<and> ''..'' \<notin> set (path_parts [] p) \<and> ''.'' \<notin> set (path_parts [] p)"

definition artifact_path :: "string \<Rightarrow> string action" where
  "artifact_path relative_path =
     (if \<not> is_safe_relative_path relative_path
      then fail_with ''prepared voice artifact path must be relative without traversal''
      else bnd (reject_reparse_ancestors relative_path) (\<lambda>_. give relative_path))"

fun embedding_of :: "byte list \<Rightarrow> u32 list" where
  "embedding_of (a # b # c # d # bs) = read_u32 [a, b, c, d] # embedding_of bs"
| "embedding_of _ = []"

definition embedding_bytes :: "u32 list \<Rightarrow> byte list" where
  "embedding_bytes ws = concat (map put_u32_le ws)"

definition f32_finite :: "u32 \<Rightarrow> bool" where
  "f32_finite w \<longleftrightarrow> isfinite (f32_value w)"

section \<open>Loading\<close>

definition check_identity :: "PreparedVoiceReferenceContext \<Rightarrow> json \<Rightarrow> VoiceError + unit" where
  "check_identity ctx doc =
     and_then (ensure [Inr (is_object doc), equals (required_integer doc ''schema_version'') 1,
         equals (required_string doc ''format'') ''qwen3-tts-native-voice-reference'']
       ''unsupported prepared voice manifest format'') (\<lambda>_.
     and_then (ensure [equals (string_or [] doc ''reference_text'') (pc_reference_text ctx),
         equals (bool_or (\<not> pc_x_vector_only ctx) doc ''x_vector_only'') (pc_x_vector_only ctx),
         equals (required_string doc ''source_wav_sha256'') (pc_source_sha256 ctx)]
       ''prepared voice source or transcript identity mismatch'') (\<lambda>_.
     and_then (field_at doc ''engine'') (\<lambda>eng.
     and_then (ensure [Inr (is_object eng), equals (required_string eng ''name'') ''qwentts.cpp'',
         equals (required_string eng ''commit'') (pc_engine_commit ctx),
         equals (required_integer eng ''abi_version'') (pc_abi_version ctx)]
       ''prepared voice engine identity mismatch'') (\<lambda>_.
     and_then (field_at doc ''models'') (\<lambda>models.
     and_then (ensure [Inr (is_object models), equals (required_string models ''talker_sha256'') (pc_talker_sha256 ctx),
         equals (required_string models ''codec_sha256'') (pc_codec_sha256 ctx)]
       ''prepared voice model identity mismatch'') (\<lambda>_.
     and_then (field_at doc ''preprocessing'') (\<lambda>pre.
     ensure [Inr (is_object pre), equals (required_integer pre ''version'') 1,
         equals (required_integer pre ''sample_rate'') 24000, equals (required_integer pre ''channels'') 1,
         equals (required_integer pre ''icl_trailing_silence_samples'') (if pc_x_vector_only ctx then 0 else 12000),
         equals (required_string pre ''sample_format'') ''float32'']
       ''prepared voice preprocessing identity mismatch'')))))))"

text \<open>The size and the path of the speaker file.\<close>

definition speaker_entry :: "json \<Rightarrow> VoiceError + nat \<times> string" where
  "speaker_entry speaker =
     and_then (required_integer speaker ''dimension'') (\<lambda>dim.
     and_then (required_size speaker ''size_bytes'') (\<lambda>bytes.
     if dim \<le> 0 \<or> dim > kMaxSpeakerDimension \<or> nat dim > (2 ^ 64 - 1) div 4 \<or> bytes \<noteq> nat dim * 4 \<or>
        bytes > kMaxSpeakerBytes
     then Inl (RuntimeError ''prepared voice speaker dimensions are invalid'')
     else
       and_then (ensure [equals (required_string speaker ''scalar'') ''float32-le''] ''prepared voice speaker scalar is unsupported'')
       (\<lambda>_. and_then (required_string speaker ''path'') (\<lambda>path. Inr (bytes, path)))))"

definition rvq_entry :: "PreparedVoiceReferenceContext \<Rightarrow> json \<Rightarrow> VoiceError + int \<times> nat \<times> nat \<times> string" where
  "rvq_entry ctx rvq =
     and_then (required_integer rvq ''codebooks'') (\<lambda>codebooks.
     and_then (required_integer rvq ''frames'') (\<lambda>frames.
     and_then (required_integer rvq ''bits_per_code'') (\<lambda>bits.
     and_then (ensure [Inr (codebooks = pc_num_codebooks ctx \<and> \<not> codebooks \<le> 0 \<and> \<not> codebooks > kMaxRvqCodebooks \<and>
           \<not> frames \<le> 0 \<and> \<not> frames > kMaxRvqFrames \<and> bits = int kRvqCodeBits),
         equals (required_string rvq ''layout'') ''codebook-major-frame-fastest'']
       ''prepared voice RVQ layout is incompatible'') (\<lambda>_.
     if nat codebooks > (2 ^ 64 - 1) div nat frames \<or> nat codebooks * nat frames > (2 ^ 64 - 1) div kRvqCodeBits
     then Inl (RuntimeError ''prepared voice RVQ dimensions are too large'')
     else
       (let code_count = nat codebooks * nat frames in
        and_then (required_size rvq ''size_bytes'') (\<lambda>bytes.
        if bytes \<noteq> (code_count * kRvqCodeBits + 7) div 8 \<or> bytes > kMaxRvqBytes
        then Inl (RuntimeError ''prepared voice RVQ size is invalid'')
        else and_then (required_string rvq ''path'') (\<lambda>path. Inr (frames, code_count, bytes, path))))))))"

text \<open>An artifact whose digest is not the one of the manifest is refused.\<close>

definition read_artifact :: "(byte list \<Rightarrow> string) \<Rightarrow> json \<Rightarrow> nat \<Rightarrow> string \<Rightarrow> nat \<Rightarrow> string \<Rightarrow> byte list action" where
  "read_artifact sha entry bytes path limit mismatch =
     bnd (artifact_path path) (\<lambda>name.
     bnd (read_bounded_file name bytes limit) (\<lambda>content.
     bnd (lift_result (ensure [equals (required_string entry ''sha256'') (sha content)] mismatch)) (\<lambda>_.
     give content)))"

definition read_codes ::
  "(byte list \<Rightarrow> string) \<Rightarrow> PreparedVoiceReferenceContext \<Rightarrow> json \<Rightarrow> (int list \<times> int) action" where
  "read_codes sha ctx doc =
     (let rvq = find_field doc ''rvq'' in
      if pc_x_vector_only ctx then
        (if rvq = Some JNull then give ([], 0)
         else fail_with ''x-vector-only prepared voice must not contain RVQ data'')
      else
        (case rvq of
           Some (JObject items) \<Rightarrow>
             bnd (lift_result (rvq_entry ctx (JObject items))) (\<lambda>(frames, code_count, bytes, path).
             bnd (read_artifact sha (JObject items) bytes path kMaxRvqBytes ''prepared voice RVQ SHA-256 mismatch'') (\<lambda>content.
             bnd (lift_result (map_sum RuntimeError id (unpack_codes content code_count))) (\<lambda>codes.
             give (codes, frames))))
         | _ \<Rightarrow> fail_with ''ICL prepared voice requires RVQ data''))"

definition cache_key :: "PreparedVoiceReferenceContext \<Rightarrow> json \<Rightarrow> json \<Rightarrow> VoiceError + string" where
  "cache_key ctx doc speaker =
     and_then (required_string speaker ''sha256'') (\<lambda>h.
     and_then (if pc_x_vector_only ctx then Inr ''xvector''
               else and_then (field_at doc ''rvq'') (\<lambda>rvq. required_string rvq ''sha256'')) (\<lambda>r.
     Inr (''prepared:'' @ h @ '':'' @ r @ '':'' @ pc_reference_text ctx)))"

definition load_manifest :: "(string \<Rightarrow> json option) \<Rightarrow> PreparedVoiceReferenceContext \<Rightarrow> json action" where
  "load_manifest parse ctx =
     bnd (read_bounded_text_file (pc_manifest ctx) kMaxManifestBytes) (\<lambda>chars.
     lift_result (case parse chars of None \<Rightarrow> Inl LibraryError | Some doc \<Rightarrow> Inr doc))"

definition invalid_manifest :: "VoiceError \<Rightarrow> 'a action" where
  "invalid_manifest e =
     fail_with (''invalid prepared voice manifest: '' @ (case e of RuntimeError m \<Rightarrow> m | LibraryError \<Rightarrow> []))"

definition load_prepared_voice_reference ::
  "(string \<Rightarrow> json option) \<Rightarrow> (byte list \<Rightarrow> string) \<Rightarrow> PreparedVoiceReferenceContext \<Rightarrow> PreparedVoiceReferenceData action" where
  "load_prepared_voice_reference parse sha ctx =
     bnd (validate_context ctx) (\<lambda>_.
     bnd (on_throw (load_manifest parse ctx) invalid_manifest) (\<lambda>doc.
     bnd (lift_result (check_identity ctx doc)) (\<lambda>_.
     bnd (lift_result (field_at doc ''speaker'')) (\<lambda>speaker.
     bnd (lift_result (speaker_entry speaker)) (\<lambda>(bytes, path).
     bnd (read_artifact sha speaker bytes path kMaxSpeakerBytes ''prepared voice speaker SHA-256 mismatch'') (\<lambda>content.
     if \<not> list_all f32_finite (embedding_of content)
     then fail_with ''prepared voice speaker embedding contains NaN or Inf''
     else
       bnd (read_codes sha ctx doc) (\<lambda>(codes, frames).
       bnd (lift_result (cache_key ctx doc speaker)) (\<lambda>key.
       give \<lparr>pd_speaker_embedding = embedding_of content, pd_codes = codes, pd_frames = frames,
             pd_num_codebooks = pc_num_codebooks ctx, pd_cache_key = key\<rparr>))))))))"

end
