(* ===== verification/Voice_Publication.thy ===== *)
theory Voice_Publication
  imports Voice_Reference
begin

text \<open>
  The publication of a prepared voice in \<open>worker/native/qwentts/prepared_voice_reference.cpp\<close>: a marker
  announces the generation, the artifacts are written to temporary files, read back and renamed, and the
  manifest is renamed last. A worker that finds a marker without a manifest moves the files of that
  generation aside. The generation identifier, the answers of the lock file, JSON and the digest are
  arguments.
\<close>

section \<open>Names\<close>

definition publication_marker :: string where "publication_marker = ''.qtb-publication.incomplete''"

definition speaker_name :: "string \<Rightarrow> string" where "speaker_name g = ''reference-'' @ g @ ''.spk''"

definition rvq_name :: "string \<Rightarrow> string" where "rvq_name g = ''reference-'' @ g @ ''.rvq''"

definition speaker_temp :: "string \<Rightarrow> string" where "speaker_temp g = speaker_name g @ ''.qtb-tmp''"

definition rvq_temp :: "string \<Rightarrow> string" where "rvq_temp g = rvq_name g @ ''.qtb-tmp''"

definition manifest_temp :: "PreparedVoiceReferenceContext \<Rightarrow> string \<Rightarrow> string" where
  "manifest_temp ctx g = pc_manifest ctx @ ''.qtb-tmp-'' @ g"

definition marker_temp :: "string \<Rightarrow> string" where "marker_temp g = ''.qtb-publication.incomplete.qtb-tmp-'' @ g"

definition quarantine_name :: "string \<Rightarrow> string" where "quarantine_name g = ''.qtb-recovery-'' @ g"

definition is_safe_generation_id :: "string \<Rightarrow> bool" where
  "is_safe_generation_id g \<longleftrightarrow> g \<noteq> [] \<and> length g \<le> 160 \<and>
     list_all (\<lambda>c. CHR ''0'' \<le> c \<and> c \<le> CHR ''9'' \<or> CHR ''A'' \<le> c \<and> c \<le> CHR ''Z'' \<or>
       CHR ''a'' \<le> c \<and> c \<le> CHR ''z'' \<or> c = CHR ''-'') g"

section \<open>The lock\<close>

text \<open>What one attempt meets: the lock file is created; another error; it exists, and then whether it can
  be opened (nobody holds it) and deleted.\<close>

datatype LockView = LockCreated | LockFailed | LockExists bool bool

fun publication_lock :: "nat \<Rightarrow> LockView list \<Rightarrow> VoiceError + unit" where
  "publication_lock (Suc attempts) (LockCreated # vs) = Inr ()"
| "publication_lock (Suc attempts) (LockFailed # vs) =
     Inl (RuntimeError ''unable to acquire prepared voice publication lock'')"
| "publication_lock (Suc attempts) (LockExists opened deleted # vs) =
     (if \<not> opened then Inl (RuntimeError ''prepared voice publication is active in another worker'')
      else if \<not> deleted then Inl (RuntimeError ''unable to remove stale prepared voice publication lock'')
      else publication_lock attempts vs)"
| "publication_lock _ _ = Inl (RuntimeError ''prepared voice publication lock is contended'')"

section \<open>Hooks of the tests\<close>

definition terminate_hook :: "unit action" where
  "terminate_hook s = (case next_fault s of (Dies _, s) \<Rightarrow> (Died, s) | (_, s) \<Rightarrow> (Returned (), s))"

definition inject_hook :: "string \<Rightarrow> unit action" where
  "inject_hook p s =
     (case next_fault s of
        (NoFault, s) \<Rightarrow> (Returned (), s)
      | (Throws _, s) \<Rightarrow> fail_with (''injected publication interruption at '' @ p) s
      | (Dies _, s) \<Rightarrow> (Died, s))"

definition persistence_hook :: "unit action" where
  "persistence_hook s =
     (case next_fault s of
        (NoFault, s) \<Rightarrow> (Returned (), s)
      | (Throws _, s) \<Rightarrow> fail_with ''injected prepared voice persistence failure'' s
      | (Dies _, s) \<Rightarrow> (Died, s))"

section \<open>The marker\<close>

definition marker_json :: "PreparedVoiceReferenceContext \<Rightarrow> string \<Rightarrow> json" where
  "marker_json ctx g = JObject (obj_of
     [(''schema_version'', JInteger 1), (''format'', JString ''qwen3-tts-native-publication''),
      (''generation_id'', JString g), (''manifest_path'', JString (pc_manifest ctx)),
      (''speaker_path'', JString (speaker_name g)),
      (''rvq_path'', JString (if pc_x_vector_only ctx then [] else rvq_name g))])"

text \<open>\<open>value\<close> with an integer default converts any number or truth value.\<close>

definition int_or :: "int \<Rightarrow> json \<Rightarrow> string \<Rightarrow> VoiceError + int" where
  "int_or d obj name =
     (case find_field obj name of
        None \<Rightarrow> Inr d
      | Some (JUnsigned w) \<Rightarrow> Inr (int_of_json w)
      | Some (JInteger w) \<Rightarrow> Inr (int_of_json w)
      | Some (JFloat (Finite r)) \<Rightarrow> Inr (if 0 \<le> r then \<lfloor>r\<rfloor> else \<lceil>r\<rceil>)
      | Some (JBool b) \<Rightarrow> Inr (if b then 1 else 0)
      | Some _ \<Rightarrow> Inl LibraryError)"

definition marker_ok :: "json \<Rightarrow> VoiceError + unit" where
  "marker_ok v =
     and_then (ensure [Inr (is_object v), equals (int_or 0 v ''schema_version'') 1,
         equals (string_or [] v ''format'') ''qwen3-tts-native-publication'',
         and_then (string_or [] v ''generation_id'') (\<lambda>g. Inr (is_safe_generation_id g))]
       ''invalid prepared voice publication marker'') (\<lambda>_. Inr ())"

definition read_publication_marker :: "(string \<Rightarrow> json option) \<Rightarrow> json action" where
  "read_publication_marker parse =
     bnd (read_bounded_text_file publication_marker (16 * 1024)) (\<lambda>chars.
     case parse chars of
       None \<Rightarrow> fail_with ''invalid prepared voice publication marker: ''
     | Some v \<Rightarrow> bnd (lift_result (marker_ok v)) (\<lambda>_. give v))"

section \<open>Recovery\<close>

definition file_exists :: "string \<Rightarrow> VoiceStore \<Rightarrow> bool" where
  "file_exists name s \<longleftrightarrow> vs_files s name \<noteq> None \<or> name \<in> set (vs_dirs s)"

definition quarantine_file :: "string \<Rightarrow> string \<Rightarrow> VoiceStore \<Rightarrow> VoiceStore" where
  "quarantine_file q name s =
     s\<lparr>vs_quarantined := (vs_quarantined s)(q := (vs_quarantined s q)(name := vs_files s name)),
       vs_files := (vs_files s)(name := None)\<rparr>"

definition rename_to_quarantine :: "string \<Rightarrow> string \<Rightarrow> string \<Rightarrow> unit action" where
  "rename_to_quarantine q name m s =
     (case next_fault s of
        (NoFault, s) \<Rightarrow> (Returned (), quarantine_file q name s)
      | (Throws _, s) \<Rightarrow> fail_with m s
      | (Dies None, s) \<Rightarrow> (Died, s)
      | (Dies (Some _), s) \<Rightarrow> (Died, quarantine_file q name s))"

definition make_quarantine :: "string \<Rightarrow> unit action" where
  "make_quarantine q s =
     (if file_exists q s then
        (if q \<notin> set (vs_dirs s) then fail_with ''prepared voice recovery path is not a directory'' s
         else reject_reparse_point q s)
      else
        (case next_fault s of
           (NoFault, s) \<Rightarrow> (Returned (), s\<lparr>vs_dirs := q # vs_dirs s\<rparr>)
         | (Throws _, s) \<Rightarrow> fail_with ''unable to create prepared voice recovery directory'' s
         | (Dies None, s) \<Rightarrow> (Died, s)
         | (Dies (Some _), s) \<Rightarrow> (Died, s\<lparr>vs_dirs := q # vs_dirs s\<rparr>)))"

definition move_owned :: "string \<Rightarrow> string \<Rightarrow> unit action" where
  "move_owned q name s =
     (if name = [] \<or> \<not> file_exists name s then give () s
      else
        bnd (reject_reparse_point name) (\<lambda>_ s.
          if vs_quarantined s q name \<noteq> None
          then fail_with ''prepared voice recovery has conflicting owned artifact'' s
          else rename_to_quarantine q name ''unable to quarantine incomplete prepared voice artifact'' s) s)"

definition move_marker :: "string \<Rightarrow> unit action" where
  "move_marker q s =
     (if vs_quarantined s q publication_marker \<noteq> None
      then fail_with ''prepared voice recovery has conflicting publication marker'' s
      else rename_to_quarantine q publication_marker ''unable to quarantine prepared voice publication marker'' s)"

definition quarantine_generation :: "PreparedVoiceReferenceContext \<Rightarrow> string \<Rightarrow> string \<Rightarrow> string \<Rightarrow> unit action" where
  "quarantine_generation ctx g spk rvq =
     (let q = quarantine_name g in
      do_all [make_quarantine q, move_owned q spk, terminate_hook, move_owned q rvq, move_owned q (speaker_temp g),
        move_owned q (rvq_temp g), move_owned q (manifest_temp ctx g), move_marker q])"

definition recover_incomplete_publication ::
  "(string \<Rightarrow> json option) \<Rightarrow> PreparedVoiceReferenceContext \<Rightarrow> unit action" where
  "recover_incomplete_publication parse ctx s =
     (if \<not> file_exists publication_marker s then give () s
      else
        bnd (read_publication_marker parse) (\<lambda>marker.
        bnd (lift_result (and_then (field_at marker ''generation_id'') (\<lambda>v.
               case v of JString g \<Rightarrow> Inr g | _ \<Rightarrow> Inl LibraryError))) (\<lambda>g.
        bnd (lift_result (string_or [] marker ''speaker_path'')) (\<lambda>spk.
        bnd (lift_result (string_or [] marker ''rvq_path'')) (\<lambda>rvq.
        bnd (lift_result (string_or [] marker ''manifest_path'')) (\<lambda>target.
        if target \<noteq> pc_manifest ctx \<or> spk \<noteq> speaker_name g \<or> (rvq \<noteq> [] \<and> rvq \<noteq> rvq_name g)
        then fail_with ''prepared voice publication marker conflicts with target''
        else (\<lambda>s. if file_exists (pc_manifest ctx) s then give () s
                   else quarantine_generation ctx g spk rvq s)))))) s)"

definition reconcile_prepared_publication ::
  "(string \<Rightarrow> json option) \<Rightarrow> LockView list \<Rightarrow> PreparedVoiceReferenceContext \<Rightarrow> unit action" where
  "reconcile_prepared_publication parse locks ctx s =
     (if \<not> file_exists publication_marker s then give () s
      else bnd (lift_result (publication_lock 3 locks)) (\<lambda>_. recover_incomplete_publication parse ctx) s)"

definition finalize_prepared_publication ::
  "(string \<Rightarrow> json option) \<Rightarrow> LockView list \<Rightarrow> PreparedVoiceReferenceContext \<Rightarrow> unit action" where
  "finalize_prepared_publication parse locks ctx s =
     (if \<not> file_exists publication_marker s then give () s
      else
        bnd (lift_result (publication_lock 3 locks)) (\<lambda>_ s.
        if \<not> file_exists (pc_manifest ctx) s
        then fail_with ''prepared voice publication manifest disappeared during reconciliation'' s
        else bnd (recover_incomplete_publication parse ctx) (\<lambda>_. remove_if_exists publication_marker) s) s)"

section \<open>Publishing\<close>

text \<open>What the engine extracted; a null pointer is \<open>None\<close>.\<close>

record VoiceRef =
  vr_spk_emb :: "u32 list option"
  vr_spk_dim :: int
  vr_codes :: "int list option"
  vr_T :: int
  vr_num_codebooks :: int

definition extracted_embedding :: "VoiceRef \<Rightarrow> u32 list" where
  "extracted_embedding ex = take (nat (vr_spk_dim ex)) (the (vr_spk_emb ex))"

definition extracted_codes :: "VoiceRef \<Rightarrow> int list" where
  "extracted_codes ex = take (nat (vr_num_codebooks ex) * nat (vr_T ex)) (the (vr_codes ex))"

definition check_extracted :: "PreparedVoiceReferenceContext \<Rightarrow> VoiceRef \<Rightarrow> VoiceError + unit" where
  "check_extracted ctx ex =
     (if vr_spk_emb ex = None \<or> vr_spk_dim ex \<le> 0 \<or> vr_spk_dim ex > kMaxSpeakerDimension \<or>
         nat (vr_spk_dim ex) > (2 ^ 64 - 1) div 4 \<or> nat (vr_spk_dim ex) * 4 > kMaxSpeakerBytes \<or>
         \<not> list_all f32_finite (extracted_embedding ex)
      then Inl (RuntimeError ''extracted speaker embedding is invalid'')
      else if \<not> pc_x_vector_only ctx \<and>
        (vr_codes ex = None \<or> vr_T ex \<le> 0 \<or> vr_T ex > kMaxRvqFrames \<or> vr_num_codebooks ex \<le> 0 \<or>
         vr_num_codebooks ex > kMaxRvqCodebooks \<or> vr_num_codebooks ex \<noteq> pc_num_codebooks ctx \<or>
         nat (vr_num_codebooks ex) > (2 ^ 64 - 1) div nat (vr_T ex))
      then Inl (RuntimeError ''extracted RVQ layout is invalid'')
      else Inr ())"

definition json_int :: "int \<Rightarrow> json" where
  "json_int i = JInteger (word_of_int i)"

definition json_size :: "nat \<Rightarrow> json" where
  "json_size n = JUnsigned (of_nat n)"

definition manifest_json ::
  "PreparedVoiceReferenceContext \<Rightarrow> VoiceRef \<Rightarrow> string \<Rightarrow> string \<Rightarrow> (nat \<times> string) option \<Rightarrow> json" where
  "manifest_json ctx ex g speaker_sha rvq = JObject (obj_of
     [(''schema_version'', json_int 1), (''format'', JString ''qwen3-tts-native-voice-reference''),
      (''source_wav_sha256'', JString (pc_source_sha256 ctx)),
      (''reference_text'', JString (pc_reference_text ctx)), (''x_vector_only'', JBool (pc_x_vector_only ctx)),
      (''engine'', JObject (obj_of [(''name'', JString ''qwentts.cpp''), (''commit'', JString (pc_engine_commit ctx)),
         (''abi_version'', json_int (pc_abi_version ctx))])),
      (''models'', JObject (obj_of [(''talker_sha256'', JString (pc_talker_sha256 ctx)),
         (''codec_sha256'', JString (pc_codec_sha256 ctx))])),
      (''preprocessing'', JObject (obj_of [(''version'', json_int 1), (''sample_rate'', json_int 24000),
         (''channels'', json_int 1), (''sample_format'', JString ''float32''),
         (''icl_trailing_silence_samples'', json_int (if pc_x_vector_only ctx then 0 else 12000))])),
      (''speaker'', JObject (obj_of [(''path'', JString (speaker_name g)), (''dimension'', json_int (vr_spk_dim ex)),
         (''size_bytes'', json_size (nat (vr_spk_dim ex) * 4)), (''sha256'', JString speaker_sha),
         (''scalar'', JString ''float32-le'')])),
      (''rvq'', (case rvq of
           None \<Rightarrow> JNull
         | Some (bytes, rvq_sha) \<Rightarrow> JObject (obj_of [(''path'', JString (rvq_name g)),
             (''codebooks'', json_int (vr_num_codebooks ex)), (''frames'', json_int (vr_T ex)),
             (''bits_per_code'', json_int (int kRvqCodeBits)),
             (''layout'', JString ''codebook-major-frame-fastest''), (''size_bytes'', json_size bytes),
             (''sha256'', JString rvq_sha)])))])"

text \<open>Values compare like \<open>nlohmann::json\<close> compares them: numbers by value across their kinds.\<close>

definition dbl_eq :: "dbl \<Rightarrow> dbl \<Rightarrow> bool" where
  "dbl_eq a b \<longleftrightarrow> a \<noteq> NaN \<and> a = b"

fun json_eq :: "json \<Rightarrow> json \<Rightarrow> bool"
  and json_eq_list :: "json list \<Rightarrow> json list \<Rightarrow> bool"
  and json_eq_items :: "(string \<times> json) list \<Rightarrow> (string \<times> json) list \<Rightarrow> bool" where
  "json_eq JNull JNull = True"
| "json_eq (JBool a) (JBool b) = (a = b)"
| "json_eq (JString a) (JString b) = (a = b)"
| "json_eq (JUnsigned a) (JUnsigned b) = (a = b)"
| "json_eq (JInteger a) (JInteger b) = (a = b)"
| "json_eq (JUnsigned a) (JInteger b) = (a = b)"
| "json_eq (JInteger a) (JUnsigned b) = (a = b)"
| "json_eq (JFloat a) (JFloat b) = dbl_eq a b"
| "json_eq (JFloat a) (JInteger b) = dbl_eq a (dbl_of_i64 b)"
| "json_eq (JInteger a) (JFloat b) = dbl_eq (dbl_of_i64 a) b"
| "json_eq (JFloat a) (JUnsigned b) = dbl_eq a (dbl_of_u64 b)"
| "json_eq (JUnsigned a) (JFloat b) = dbl_eq (dbl_of_u64 a) b"
| "json_eq (JArray as) (JArray bs) = json_eq_list as bs"
| "json_eq (JObject as) (JObject bs) = json_eq_items as bs"
| "json_eq _ _ = False"
| "json_eq_list [] [] = True"
| "json_eq_list (a # as) (b # bs) = (json_eq a b \<and> json_eq_list as bs)"
| "json_eq_list _ _ = False"
| "json_eq_items [] [] = True"
| "json_eq_items ((k, a) # as) ((l, b) # bs) = (k = l \<and> json_eq a b \<and> json_eq_items as bs)"
| "json_eq_items _ _ = False"

text \<open>Printing with the indentation the code asks for; \<open>None\<close>: it throws.\<close>

type_synonym dumper = "bool \<Rightarrow> json \<Rightarrow> string option"

definition printed :: "dumper \<Rightarrow> bool \<Rightarrow> json \<Rightarrow> VoiceError + byte list" where
  "printed dump indent v =
     (case dump indent v of None \<Rightarrow> Inl LibraryError | Some chars \<Rightarrow> Inr (ascii (chars @ [CHR 0x0A])))"

definition stage_codes :: "PreparedVoiceReferenceContext \<Rightarrow> VoiceRef \<Rightarrow> string \<Rightarrow> byte list option action" where
  "stage_codes ctx ex g =
     (if pc_x_vector_only ctx then give None
      else
        bnd (lift_result (map_sum RuntimeError id (pack_codes (extracted_codes ex)))) (\<lambda>packed.
        bnd (do_all [write_bytes (rvq_temp g) packed, inject_hook ''after-temp-rvq'']) (\<lambda>_. give (Some packed))))"

definition stage_manifest ::
  "dumper \<Rightarrow> (byte list \<Rightarrow> string) \<Rightarrow> PreparedVoiceReferenceContext \<Rightarrow> VoiceRef \<Rightarrow> string \<Rightarrow> byte list option \<Rightarrow>
     json action" where
  "stage_manifest dump sha ctx ex g packed =
     bnd (file_bytes (speaker_temp g)) (\<lambda>speaker.
     bnd (case packed of
            None \<Rightarrow> give None
          | Some bytes \<Rightarrow> bnd (file_bytes (rvq_temp g)) (\<lambda>content. give (Some (length bytes, sha content)))) (\<lambda>rvq.
     let doc = manifest_json ctx ex g (sha speaker) rvq in
     bnd (lift_result (printed dump True doc)) (\<lambda>chars.
     bnd (write_bytes (manifest_temp ctx g) chars) (\<lambda>_. give doc))))"

definition verify_staged ::
  "(string \<Rightarrow> json option) \<Rightarrow> PreparedVoiceReferenceContext \<Rightarrow> VoiceRef \<Rightarrow> string \<Rightarrow> byte list option \<Rightarrow> json \<Rightarrow> unit action" where
  "verify_staged parse ctx ex g packed doc =
     bnd (read_bounded_file (speaker_temp g) (nat (vr_spk_dim ex) * 4) kMaxSpeakerBytes) (\<lambda>_.
     bnd (case packed of
            None \<Rightarrow> give ()
          | Some bytes \<Rightarrow>
              bnd (read_bounded_file (rvq_temp g) (length bytes) kMaxRvqBytes) (\<lambda>content.
              bnd (lift_result (map_sum RuntimeError id (unpack_codes content (length (extracted_codes ex))))) (\<lambda>checked.
              if checked \<noteq> extracted_codes ex then fail_with ''prepared voice RVQ round-trip mismatch'' else give ()))) (\<lambda>_.
     bnd (file_bytes (manifest_temp ctx g)) (\<lambda>content.
     case parse (map byte_char content) of
       None \<Rightarrow> lift_result (Inl LibraryError)
     | Some checked \<Rightarrow>
         if \<not> json_eq checked doc then fail_with ''prepared voice manifest round-trip mismatch'' else give ())))"

definition mark_speaker :: "unit action" where "mark_speaker s = (Returned (), s\<lparr>vs_speaker_published := True\<rparr>)"

definition mark_rvq :: "unit action" where "mark_rvq s = (Returned (), s\<lparr>vs_rvq_published := True\<rparr>)"

definition mark_committed :: "unit action" where "mark_committed s = (Returned (), s\<lparr>vs_manifest_committed := True\<rparr>)"

definition publish_files :: "PreparedVoiceReferenceContext \<Rightarrow> string \<Rightarrow> unit action" where
  "publish_files ctx g =
     do_all ([rename_file (speaker_temp g) (speaker_name g), mark_speaker, terminate_hook,
              inject_hook ''after-publish-speaker''] @
             (if pc_x_vector_only ctx then []
              else [rename_file (rvq_temp g) (rvq_name g), mark_rvq, inject_hook ''after-publish-rvq'']) @
             [inject_hook ''before-manifest'', rename_file (manifest_temp ctx g) (pc_manifest ctx), mark_committed,
              terminate_hook, inject_hook ''after-manifest'', remove_if_exists publication_marker])"

definition publish ::
  "dumper \<Rightarrow> (string \<Rightarrow> json option) \<Rightarrow> (byte list \<Rightarrow> string) \<Rightarrow> PreparedVoiceReferenceContext \<Rightarrow> VoiceRef \<Rightarrow> string \<Rightarrow>
     unit action" where
  "publish dump parse sha ctx ex g =
     bnd (lift_result (printed dump False (marker_json ctx g))) (\<lambda>m.
     bnd (do_all [write_bytes (marker_temp g) m, rename_file (marker_temp g) publication_marker, terminate_hook,
            inject_hook ''before-speaker'', write_bytes (speaker_temp g) (embedding_bytes (extracted_embedding ex)),
            inject_hook ''after-temp-speaker'']) (\<lambda>_.
     bnd (stage_codes ctx ex g) (\<lambda>packed.
     bnd (stage_manifest dump sha ctx ex g packed) (\<lambda>doc.
     bnd (verify_staged parse ctx ex g packed doc) (\<lambda>_. publish_files ctx g)))))"

text \<open>The handler: it removes what this generation made, and after the commit only the temporary files.\<close>

definition roll_back :: "string \<Rightarrow> unit action" where
  "roll_back g s =
     (if vs_manifest_committed s then give () s
      else do_all ((if vs_speaker_published s then [remove_if_exists (speaker_name g)] else []) @
                   (if vs_rvq_published s then [remove_if_exists (rvq_name g)] else []) @
                   [remove_if_exists publication_marker]) s)"

definition clean_up :: "PreparedVoiceReferenceContext \<Rightarrow> string \<Rightarrow> VoiceError \<Rightarrow> unit action" where
  "clean_up ctx g e =
     bnd (do_all [remove_if_exists (speaker_temp g), remove_if_exists (rvq_temp g),
            remove_if_exists (manifest_temp ctx g), roll_back g, remove_if_exists (marker_temp g)])
       (\<lambda>_. lift_result (Inl e))"

definition persist_prepared_voice_reference ::
  "dumper \<Rightarrow> (string \<Rightarrow> json option) \<Rightarrow> (byte list \<Rightarrow> string) \<Rightarrow> LockView list \<Rightarrow> string \<Rightarrow>
     PreparedVoiceReferenceContext \<Rightarrow> VoiceRef \<Rightarrow> PreparedVoiceReferenceData action" where
  "persist_prepared_voice_reference dump parse sha locks g ctx ex =
     bnd (do_all [validate_context ctx, persistence_hook, lift_result (check_extracted ctx ex),
            reject_reparse_point [], system_call, reject_reparse_point [], lift_result (publication_lock 3 locks),
            recover_incomplete_publication parse ctx]) (\<lambda>_ s.
     if file_exists (pc_manifest ctx) s \<or> file_exists ''reference.spk'' s \<or> file_exists ''reference.rvq'' s
     then fail_with ''refusing to overwrite an existing prepared voice publication'' s
     else
       bnd (on_throw (publish dump parse sha ctx ex g) (clean_up ctx g)) (\<lambda>_.
       load_prepared_voice_reference parse sha ctx)
         (s\<lparr>vs_speaker_published := False, vs_rvq_published := False, vs_manifest_committed := False\<rparr>))"

end
