(* ===== verification/Publication_Safety.thy ===== *)
theory Publication_Safety
  imports Voice_Publication
begin

text \<open>
  What a publication leaves behind, whenever it throws or the process dies: either there is no manifest,
  or the manifest and every artifact it names are complete. Files with other names are never touched.
\<close>

section \<open>Actions that only read\<close>

definition reads :: "'a action \<Rightarrow> bool" where
  "reads m \<longleftrightarrow> (\<forall>s. \<exists>fs. snd (m s) = s\<lparr>vs_faults := fs\<rparr>)"

named_theorems reads_intros \<open>actions that change no file\<close>

lemma store_same_faults: "s\<lparr>vs_faults := vs_faults s\<rparr> = (s :: VoiceStore)"
  by simp

lemma readsI: "(\<And>s. \<exists>fs. snd (m s) = s\<lparr>vs_faults := fs\<rparr>) \<Longrightarrow> reads m"
  by (simp add: reads_def)

lemma same_store: "\<exists>fs. s = s\<lparr>vs_faults := fs\<rparr>" for s :: VoiceStore
  by (metis store_same_faults)

lemma reads_give [reads_intros]: "reads (give x)"
  by (intro readsI) (simp add: give_def same_store)

lemma reads_fail [reads_intros]: "reads (fail_with m)"
  by (intro readsI) (simp add: fail_with_def same_store)

lemma reads_lift [reads_intros]: "reads (lift_result r)"
  by (intro readsI) (simp add: lift_result_def same_store split: sum.split)

lemma reads_bnd [reads_intros]: "reads m \<Longrightarrow> (\<And>x. reads (k x)) \<Longrightarrow> reads (bnd m k)"
proof (rule readsI)
  fix s assume m: "reads m" and k: "\<And>x. reads (k x)"
  obtain r fs where m': "m s = (r, s\<lparr>vs_faults := fs\<rparr>)" using m by (metis reads_def prod.collapse)
  show "\<exists>fs. snd (bnd m k s) = s\<lparr>vs_faults := fs\<rparr>"
  proof (cases r)
    case (Returned x)
    obtain fs' where "snd (k x (s\<lparr>vs_faults := fs\<rparr>)) = s\<lparr>vs_faults := fs'\<rparr>"
      using k [of x] by (auto simp: reads_def dest!: spec [of _ "s\<lparr>vs_faults := fs\<rparr>"])
    then show ?thesis using m' Returned by (auto simp: bnd_def)
  qed (use m' in \<open>auto simp: bnd_def\<close>)
qed

lemma reads_on_throw [reads_intros]: "reads m \<Longrightarrow> (\<And>e. reads (h e)) \<Longrightarrow> reads (on_throw m h)"
proof (rule readsI)
  fix s assume m: "reads m" and h: "\<And>e. reads (h e)"
  obtain r fs where m': "m s = (r, s\<lparr>vs_faults := fs\<rparr>)" using m by (metis reads_def prod.collapse)
  show "\<exists>fs. snd (on_throw m h s) = s\<lparr>vs_faults := fs\<rparr>"
  proof (cases r)
    case (Threw e)
    obtain fs' where "snd (h e (s\<lparr>vs_faults := fs\<rparr>)) = s\<lparr>vs_faults := fs'\<rparr>"
      using h [of e] by (auto simp: reads_def dest!: spec [of _ "s\<lparr>vs_faults := fs\<rparr>"])
    then show ?thesis using m' Threw by (auto simp: on_throw_def)
  qed (use m' in \<open>auto simp: on_throw_def\<close>)
qed

lemma next_fault_store: "next_fault s = (f, s') \<Longrightarrow> \<exists>fs. s' = s\<lparr>vs_faults := fs\<rparr>"
  by (auto simp: next_fault_def same_store split: list.splits)

lemma reads_basic [reads_intros]:
  "reads system_call" "reads terminate_hook" "reads (inject_hook p)" "reads persistence_hook" "reads (file_bytes n)"
  "reads (reject_reparse_point n)"
  by (rule readsI;
      auto simp: system_call_def terminate_hook_def inject_hook_def persistence_hook_def file_bytes_def reject_reparse_point_def fail_with_def
        give_def same_store split: prod.splits Fault.splits option.splits dest!: next_fault_store)+

lemma reads_reject [reads_intros]: "reads (reject_reparse_ancestors n)"
  unfolding reject_reparse_ancestors_def by (intro reads_intros)

lemma reads_files [reads_intros]: "reads (read_bounded_file n e m)" "reads (read_bounded_text_file n m)"
  unfolding read_bounded_file_def read_bounded_text_file_def
  by (intro reads_intros readsI;
      auto simp: fail_with_def same_store split: option.split prod.split Fault.split dest!: next_fault_store)+

lemma reads_if [reads_intros]: "(c \<Longrightarrow> reads a) \<Longrightarrow> (\<not> c \<Longrightarrow> reads b) \<Longrightarrow> reads (if c then a else b)"
  by simp

lemma reads_case_prod [reads_intros]: "(\<And>a b. reads (f a b)) \<Longrightarrow> reads (case p of (a, b) \<Rightarrow> f a b)"
  by (cases p) simp

lemma reads_artifact [reads_intros]: "reads (read_artifact sha entry n path m msg)"
  unfolding read_artifact_def artifact_path_def by (intro reads_intros)

lemma reads_codes [reads_intros]: "reads (read_codes sha ctx doc)"
  unfolding read_codes_def Let_def
  by (intro reads_intros) (auto split: option.split json.split intro!: reads_intros)



text \<open>A condition on the files survives an action that only reads.\<close>

definition ignores_faults :: "(VoiceStore \<Rightarrow> bool) \<Rightarrow> bool" where
  "ignores_faults P \<longleftrightarrow> (\<forall>s fs. P s \<longrightarrow> P (s\<lparr>vs_faults := fs\<rparr>))"


section \<open>A publication in progress\<close>

definition publication_names :: "PreparedVoiceReferenceContext \<Rightarrow> string \<Rightarrow> string list" where
  "publication_names ctx g = [pc_manifest ctx, publication_marker, marker_temp g, speaker_name g, rvq_name g,
     speaker_temp g, rvq_temp g, manifest_temp ctx g]"

text \<open>Against the store at the beginning: other names are as they were, the marker is absent or complete,
  and the given files have the given contents.\<close>

definition names_kept :: "PreparedVoiceReferenceContext \<Rightarrow> string \<Rightarrow> VoiceStore \<Rightarrow> VoiceStore \<Rightarrow> bool" where
  "names_kept ctx g s0 s \<longleftrightarrow> (\<forall>n. n \<notin> set (publication_names ctx g) \<longrightarrow> vs_files s n = vs_files s0 n) \<and>
     vs_dirs s = vs_dirs s0 \<and> vs_quarantined s = vs_quarantined s0 \<and> vs_reparse s = vs_reparse s0"

definition marker_sound :: "byte list \<Rightarrow> VoiceStore \<Rightarrow> bool" where
  "marker_sound m s \<longleftrightarrow> vs_files s publication_marker = None \<or> vs_files s publication_marker = Some m"

definition holds_files :: "(string \<times> byte list) list \<Rightarrow> VoiceStore \<Rightarrow> bool" where
  "holds_files G s \<longleftrightarrow> (\<forall>p\<in>set G. vs_files s (fst p) = Some (snd p))"

definition staged ::
  "PreparedVoiceReferenceContext \<Rightarrow> string \<Rightarrow> VoiceStore \<Rightarrow> byte list \<Rightarrow> (string \<times> byte list) list \<Rightarrow> VoiceStore \<Rightarrow> bool" where
  "staged ctx g s0 m G s \<longleftrightarrow> names_kept ctx g s0 s \<and> marker_sound m s \<and> holds_files G s \<and>
     vs_files s (pc_manifest ctx) = None \<and> \<not> vs_manifest_committed s"

definition committed ::
  "PreparedVoiceReferenceContext \<Rightarrow> string \<Rightarrow> VoiceStore \<Rightarrow> byte list \<Rightarrow> (string \<times> byte list) list \<Rightarrow> VoiceStore \<Rightarrow> bool" where
  "committed ctx g s0 m G s \<longleftrightarrow> names_kept ctx g s0 s \<and> marker_sound m s \<and> holds_files G s"

lemma staged_faults [simp]:
  "staged ctx g s0 m G (s\<lparr>vs_faults := fs\<rparr>) = staged ctx g s0 m G s"
  "committed ctx g s0 m G (s\<lparr>vs_faults := fs\<rparr>) = committed ctx g s0 m G s"
  by (simp_all add: staged_def committed_def names_kept_def marker_sound_def holds_files_def)

lemma staged_flags [simp]:
  "staged ctx g s0 m G (s\<lparr>vs_speaker_published := b\<rparr>) = staged ctx g s0 m G s"
  "staged ctx g s0 m G (s\<lparr>vs_rvq_published := b\<rparr>) = staged ctx g s0 m G s"
  "committed ctx g s0 m G (s\<lparr>vs_manifest_committed := b\<rparr>) = committed ctx g s0 m G s"
  by (simp_all add: staged_def committed_def names_kept_def marker_sound_def holds_files_def)







lemma put_file_flags [simp]:
  "vs_manifest_committed (put_file n c s) = vs_manifest_committed s" "vs_files (put_file n c s) = (vs_files s)(n := c)"
  by (simp_all add: put_file_def)









lemma staged_ignores [simp]: "ignores_faults (staged ctx g s0 m G)" "ignores_faults (committed ctx g s0 m G)"
  by (simp_all add: ignores_faults_def)


section \<open>The files of a publication\<close>















lemma names_distinct:
  "distinct (publication_names ctx g) \<Longrightarrow> distinct [pc_manifest ctx, publication_marker, marker_temp g, speaker_name g, rvq_name g,
     speaker_temp g, rvq_temp g, manifest_temp ctx g]"
  by (simp add: publication_names_def)











section \<open>Rolling back\<close>





section \<open>The whole operation\<close>
















end
