(* ===== verification/Publication_Recovery.thy ===== *)
theory Publication_Recovery
  imports Publication_Safety
begin

text \<open>
  What a restart finds. A complete publication loads to exactly what was extracted; without faults a
  publication completes; after any interruption the recovery leaves either a complete publication or a
  directory in which the next publication completes.
\<close>

section \<open>Operations without faults\<close>

definition quiet :: "VoiceStore \<Rightarrow> bool" where
  "quiet s \<longleftrightarrow> vs_faults s = [] \<and> vs_reparse s = (\<lambda>_. False)"

lemma quiet_fault: "quiet s \<Longrightarrow> next_fault s = (NoFault, s)"
  by (simp add: quiet_def next_fault_def)

lemma quiet_put [simp]: "quiet (put_file n c s) = quiet s" "quiet (move_file a b s) = quiet s"
  "quiet (quarantine_file q n s) = quiet s" "quiet (s\<lparr>vs_dirs := ds\<rparr>) = quiet s"
  "quiet (s\<lparr>vs_speaker_published := b1\<rparr>) = quiet s" "quiet (s\<lparr>vs_rvq_published := b1\<rparr>) = quiet s"
  "quiet (s\<lparr>vs_manifest_committed := b1\<rparr>) = quiet s"
  by (simp_all add: quiet_def put_file_def move_file_def quarantine_file_def)

named_theorems quiet_simps \<open>operations without faults\<close>

lemma quiet_ops [quiet_simps]:
  "quiet s \<Longrightarrow> system_call s = (Returned (), s)"
  "quiet s \<Longrightarrow> terminate_hook s = (Returned (), s)"
  "quiet s \<Longrightarrow> inject_hook p s = (Returned (), s)"
  "quiet s \<Longrightarrow> persistence_hook s = (Returned (), s)"
  "quiet s \<Longrightarrow> write_bytes n d s = (Returned (), put_file n (Some d) s)"
  "quiet s \<Longrightarrow> vs_files s a \<noteq> None \<Longrightarrow> rename_file a b s = (Returned (), move_file a b s)"
  "quiet s \<Longrightarrow> remove_if_exists n s = (Returned (), put_file n None s)"
  "quiet s \<Longrightarrow> reject_reparse_point n s = (Returned (), s)"
  "quiet s \<Longrightarrow> reject_reparse_ancestors n s = (Returned (), s)"
  "quiet s \<Longrightarrow> vs_files s n = Some c \<Longrightarrow> file_bytes n s = (Returned c, s)"
  by (simp_all add: system_call_def terminate_hook_def inject_hook_def persistence_hook_def write_bytes_def rename_file_def remove_if_exists_def
      reject_reparse_point_def reject_reparse_ancestors_def file_bytes_def give_def bnd_def quiet_fault)
     (simp_all add: quiet_def)


lemma bnd_Returned: "m s = (Returned x, s') \<Longrightarrow> bnd m k s = k x s'"
  by (simp add: bnd_def)


lemma lift_Inr [simp]: "lift_result (Inr x) s = (Returned x, s)"
  by (simp add: lift_result_def)

lemma give_simp [simp]: "give x s = (Returned x, s)"
  by (simp add: give_def)

section \<open>The text of the manifest\<close>

text \<open>The parser reads a non-negative number as an unsigned one.\<close>

fun json_normal :: "json \<Rightarrow> json" where
  "json_normal (JInteger w) = (if sint w < 0 then JInteger w else JUnsigned w)"
| "json_normal (JArray vs) = JArray (map json_normal vs)"
| "json_normal (JObject kvs) = JObject (map (\<lambda>(k, v). (k, json_normal v)) kvs)"
| "json_normal v = v"


lemma is_object_normal [simp]: "is_object (json_normal v) = is_object v"
  by (cases v) auto







section \<open>Names and artifacts\<close>




lemma embedding_roundtrip [simp]: "embedding_of (embedding_bytes ws) = ws"
  by (induction ws) (simp_all add: embedding_bytes_def put_u32_le_def read_put [unfolded put_u32_le_def, simplified])

lemma embedding_bytes_length [simp]: "length (embedding_bytes ws) = 4 * length ws"
  by (induction ws) (simp_all add: embedding_bytes_def put_u32_le_def)


section \<open>Loading a publication\<close>



















section \<open>A publication without faults\<close>


















section \<open>Recovery without faults\<close>

definition aside :: "string \<Rightarrow> string \<Rightarrow> VoiceStore \<Rightarrow> VoiceStore" where
  "aside q n s = (if vs_files s n = None then s else quarantine_file q n s)"

definition aside_all :: "string \<Rightarrow> string list \<Rightarrow> VoiceStore \<Rightarrow> VoiceStore" where
  "aside_all q ns s = fold (aside q) ns s"

lemma aside_fields:
  "vs_files (aside q n s) = (vs_files s)(n := None)" "vs_dirs (aside q n s) = vs_dirs s" "quiet (aside q n s) = quiet s"
  "m \<noteq> n \<Longrightarrow> vs_quarantined (aside q n s) q m = vs_quarantined s q m"
  "vs_quarantined s q n = None \<Longrightarrow> vs_quarantined (aside q n s) q n = vs_files s n"
  by (auto simp: aside_def quarantine_file_def fun_eq_iff quiet_def)


lemma aside_all_fields:
  "vs_files (aside_all q ns s) = (\<lambda>n. if n \<in> set ns then None else vs_files s n)"
  "vs_dirs (aside_all q ns s) = vs_dirs s" "quiet (aside_all q ns s) = quiet s"
  "m \<notin> set ns \<Longrightarrow> vs_quarantined (aside_all q ns s) q m = vs_quarantined s q m"
  by (induction ns arbitrary: s) (auto simp: aside_all_def aside_fields fun_eq_iff)

lemma aside_all_moves:
  "distinct ns \<Longrightarrow> m \<in> set ns \<Longrightarrow> vs_quarantined s q m = None \<Longrightarrow> vs_quarantined (aside_all q ns s) q m = vs_files s m"
proof (induction ns arbitrary: s)
  case (Cons n ns)
  show ?case
  proof (cases "m = n")
    case True
    then show ?thesis using Cons.prems aside_all_fields(4) [of n ns q "aside q n s"] by (simp add: aside_all_def aside_fields)
  next
    case False
    then show ?thesis using Cons.IH [of "aside q n s"] Cons.prems by (simp add: aside_all_def aside_fields)
  qed
qed simp










section \<open>A restart after an interruption\<close>



definition restart :: "VoiceStore \<Rightarrow> VoiceStore" where
  "restart s = s\<lparr>vs_faults := []\<rparr>"

lemma restart_fields [simp]:
  "vs_files (restart s) = vs_files s" "vs_dirs (restart s) = vs_dirs s" "file_exists n (restart s) = file_exists n s"
  "holds_files C (restart s) = holds_files C s" "vs_quarantined (restart s) = vs_quarantined s"
  by (simp_all add: restart_def file_exists_def holds_files_def)














end
