(* ===== verification/Wave_Out_Player.thy ===== *)
theory Wave_Out_Player
  imports Playout_Cursor Playback_Receipt
begin

text \<open>
  \<open>playback/winmm_playback.cpp\<close> and \<open>playback/winmm/wave_out_player.hpp\<close>: the player on top of the
  Windows waveOut device, with its mock and disabled sinks. Every section that runs under the mutex is a
  definition; a step relation runs the sections in any order, which contains every schedule of the calling
  threads. The waveOut functions are a parameter, and so are the readings of clock and position. Metrics
  and the diagnostics of interruptions are left out.
\<close>

section \<open>The device\<close>

text \<open>The functions of the device, on a state of its own. A header is known by the identity of its buffer.
  A result is \<open>None\<close> or the text of an error. The last two fields are what the documentation of the
  functions speaks of: whether a header is marked as done, and whether the driver may still use it.\<close>

record 'd wave_api =
  api_open :: "AudioFormat \<Rightarrow> 'd \<Rightarrow> string option \<times> 'd"
  api_prepare :: "nat \<Rightarrow> 'd \<Rightarrow> string option \<times> 'd"
  api_write :: "nat \<Rightarrow> 'd \<Rightarrow> string option \<times> 'd"
  api_unprepare :: "nat \<Rightarrow> 'd \<Rightarrow> string option \<times> 'd"
  api_reset :: "'d \<Rightarrow> string option \<times> 'd"
  api_close :: "'d \<Rightarrow> string option \<times> 'd"
  api_done :: "'d \<Rightarrow> nat \<Rightarrow> bool"
  api_holds :: "'d \<Rightarrow> nat \<Rightarrow> bool"

text \<open>One reading: the clock in nanoseconds, the answer of \<open>waveOutGetPosition\<close>, and how far the device
  has gone on.\<close>

record 'd Reading =
  rd_now :: int
  rd_pos :: "u32 option"
  rd_run :: "'d \<Rightarrow> 'd"

section \<open>The player\<close>

datatype PlaybackSinkMode = WaveOut | DisabledSink | MockSink

datatype MockPlaybackFailureStage = StagePrepare | StageWrite | StageUnprepare | StageReset | StageClose

record WaveBuffer =
  bf_id :: nat
  bf_bytes :: "byte list"
  bf_prepared :: bool
  bf_duration_ms :: rat
  bf_request_id :: RequestId
  bf_utterance_first_sample :: u64
  bf_start_frame :: u64
  bf_frame_count :: u64
  bf_mock_start :: "int option"
  bf_mock_completion :: "int option"

text \<open>The last five fields are observations: the next identity, the buffers whose storage has been
  destroyed or given up, and the chunks admitted and buffers submitted since the stream began.\<close>

record 'd WaveOutPlayer =
  wp_dev :: 'd
  wp_handle :: bool
  wp_format :: AudioFormat
  wp_buffers :: "WaveBuffer list"
  wp_pending :: "WaveBuffer list"
  wp_orphaned :: "WaveBuffer list"
  wp_pending_format :: "AudioFormat option"
  wp_epoch :: u64
  wp_sink :: PlaybackSinkMode
  wp_prebuffer :: nat
  wp_started :: bool
  wp_next_frame :: u64
  wp_base :: u64
  wp_base_valid :: bool
  wp_late :: u64
  wp_fail_after :: "nat option"
  wp_fail_stage :: MockPlaybackFailureStage
  wp_submissions :: nat
  wp_injected :: bool
  wp_hook :: bool
  wp_unhealthy :: bool
  wp_reason :: string
  wp_next_id :: nat
  wp_freed :: "nat list"
  wp_leaked :: "nat list"
  wp_admitted :: "PcmChunk list"
  wp_submitted :: "WaveBuffer list"

type_synonym ('d, 'a) section_result = "(string + 'a) \<times> 'd WaveOutPlayer"

definition new_player :: "'d \<Rightarrow> PlaybackSinkMode \<Rightarrow> nat \<Rightarrow> nat option \<Rightarrow> MockPlaybackFailureStage option \<Rightarrow> string + 'd WaveOutPlayer" where
  "new_player dev sink prebuffer fail_after stage =
     (if prebuffer = 0 then Inl ''playback prebuffer must contain at least one chunk''
      else Inr \<lparr>wp_dev = dev, wp_handle = False, wp_format = default_audio_format, wp_buffers = [], wp_pending = [],
        wp_orphaned = [], wp_pending_format = None, wp_epoch = 1, wp_sink = sink, wp_prebuffer = prebuffer,
        wp_started = False, wp_next_frame = 0, wp_base = 0, wp_base_valid = False, wp_late = 0,
        wp_fail_after = fail_after, wp_fail_stage = (case stage of None \<Rightarrow> StageWrite | Some st \<Rightarrow> st),
        wp_submissions = 0, wp_injected = False, wp_hook = False, wp_unhealthy = False, wp_reason = [],
        wp_next_id = 0, wp_freed = [], wp_leaked = [], wp_admitted = [], wp_submitted = []\<rparr>)"

section \<open>Arithmetic\<close>

definition formats_match :: "AudioFormat \<Rightarrow> AudioFormat \<Rightarrow> bool" where
  "formats_match l r \<longleftrightarrow> sample_format l = sample_format r \<and> sample_rate l = sample_rate r \<and> channels l = channels r"

definition mm_error :: "string \<Rightarrow> string \<Rightarrow> string" where
  "mm_error operation m = operation @ '' failed: '' @ m"

definition pcm_duration_ms :: "AudioFormat \<Rightarrow> nat \<Rightarrow> string + rat" where
  "pcm_duration_ms f byte_count =
     (let bytes_per_second = ucast (sample_rate f) * ucast (channels f) * 2 :: u64 in
      if bytes_per_second = 0 then Inl ''invalid PCM format for duration measurement''
      else Inr (round_double (round_double (round_double (of_nat byte_count) * 1000) /
                  round_double (of_nat (unat bytes_per_second)))))"

definition pcm_frame_bytes :: "AudioFormat \<Rightarrow> string + nat" where
  "pcm_frame_bytes f = (if channels f = 0 then Inl ''invalid PCM frame size'' else Inr (unat (channels f) * 2))"

definition pcm_frame_count :: "AudioFormat \<Rightarrow> nat \<Rightarrow> string + u64" where
  "pcm_frame_count f byte_count =
     and_then (pcm_frame_bytes f) (\<lambda>fb.
     if byte_count mod fb \<noteq> 0 then Inl ''PCM buffer does not contain complete frames''
     else Inr (of_nat (byte_count div fb)))"

text \<open>Conversions between nanoseconds and milliseconds as \<open>double\<close>.\<close>

definition ticks_of_ms :: "rat \<Rightarrow> int" where
  "ticks_of_ms ms = \<lfloor>round_double (ms * 1000000)\<rfloor>"

definition ms_of_ticks :: "int \<Rightarrow> rat" where
  "ms_of_ticks t = round_double (round_double (of_int t) / 1000000)"

section \<open>Position of the stream\<close>

definition device_position :: "'d Reading \<Rightarrow> 'd WaveOutPlayer \<Rightarrow> u64 option" where
  "device_position rd p = (if wp_handle p then map_option ucast (rd_pos rd) else None)"

definition reset_stream_position :: "'d Reading \<Rightarrow> 'd WaveOutPlayer \<Rightarrow> 'd WaveOutPlayer" where
  "reset_stream_position rd p =
     (case device_position rd p of
        Some pos \<Rightarrow> p\<lparr>wp_next_frame := 0, wp_base := pos, wp_base_valid := True, wp_admitted := [], wp_submitted := []\<rparr>
      | None \<Rightarrow> p\<lparr>wp_next_frame := 0, wp_base := 0, wp_base_valid := False, wp_admitted := [], wp_submitted := []\<rparr>)"

fun mock_cursor :: "int \<Rightarrow> u32 \<Rightarrow> u64 \<Rightarrow> WaveBuffer list \<Rightarrow> u64" where
  "mock_cursor now rate after [] = after"
| "mock_cursor now rate after (b # bs) =
     (if (case bf_mock_completion b of None \<Rightarrow> True | Some c \<Rightarrow> c \<le> now) then mock_cursor now rate after bs
      else
        (case bf_mock_start b of
           Some started \<Rightarrow>
             if now > started
             then min (bf_start_frame b +
                        of_int \<lfloor>round_double (round_double (ms_of_ticks (now - started) * of_nat (unat rate)) / 1000)\<rfloor>)
                    (bf_start_frame b + bf_frame_count b)
             else bf_start_frame b
         | None \<Rightarrow> bf_start_frame b))"

definition current_playout_cursor_frame :: "'d Reading \<Rightarrow> 'd WaveOutPlayer \<Rightarrow> u64 option" where
  "current_playout_cursor_frame rd p =
     (if \<not> wp_started p \<or> wp_buffers p = [] then None
      else
        (case wp_sink p of
           MockSink \<Rightarrow> Some (mock_cursor (rd_now rd) (sample_rate (wp_format p)) (wp_next_frame p) (wp_buffers p))
         | DisabledSink \<Rightarrow> None
         | WaveOut \<Rightarrow>
             (case device_position rd p of
                None \<Rightarrow> None
              | Some pos \<Rightarrow> Some (if wp_base_valid p \<and> pos \<ge> wp_base p then pos - wp_base p else 0))))"

definition queued_audio_duration_ms :: "'d WaveOutPlayer \<Rightarrow> rat" where
  "queued_audio_duration_ms p =
     foldl (\<lambda>ms b. round_double (ms + bf_duration_ms b)) 0 (wp_buffers p @ wp_pending p)"

fun ahead_frames :: "u64 \<Rightarrow> WaveBuffer list \<Rightarrow> u64 option" where
  "ahead_frames frames [] = Some frames"
| "ahead_frames frames (b # bs) =
     (if bf_frame_count b > - 1 - frames then None else ahead_frames (frames + bf_frame_count b) bs)"

definition queued_audio_ahead_ms :: "'d Reading \<Rightarrow> 'd WaveOutPlayer \<Rightarrow> rat" where
  "queued_audio_ahead_ms rd p =
     (if \<not> wp_started p then queued_audio_duration_ms p
      else
        (case current_playout_cursor_frame rd p of
           None \<Rightarrow> queued_audio_duration_ms p
         | Some cursor \<Rightarrow>
             if sample_rate (wp_format p) = 0 then queued_audio_duration_ms p
             else
               (case ahead_frames (if wp_next_frame p > cursor then wp_next_frame p - cursor else 0) (wp_pending p) of
                  None \<Rightarrow> queued_audio_duration_ms p
                | Some frames \<Rightarrow>
                    round_double (round_double (round_double (of_nat (unat frames)) * 1000) /
                      of_nat (unat (sample_rate (wp_format p)))))))"

definition kMaxQueuedAudioMs :: rat where "kMaxQueuedAudioMs = 250"

section \<open>Headers\<close>

definition throw_if_unhealthy :: "'d WaveOutPlayer \<Rightarrow> string + unit" where
  "throw_if_unhealthy p =
     (if wp_unhealthy p
      then Inl (if wp_reason p = [] then ''default audio playback is unhealthy'' else wp_reason p) else Inr ())"

definition should_inject_mock_failure :: "MockPlaybackFailureStage \<Rightarrow> 'd WaveOutPlayer \<Rightarrow> bool \<times> 'd WaveOutPlayer" where
  "should_inject_mock_failure stage p =
     (case wp_fail_after p of
        None \<Rightarrow> (False, p)
      | Some n \<Rightarrow>
          if wp_injected p \<or> wp_fail_stage p \<noteq> stage \<or> wp_submissions p < n then (False, p)
          else (True, p\<lparr>wp_injected := True\<rparr>))"

definition become_unhealthy :: "string \<Rightarrow> 'd WaveOutPlayer \<Rightarrow> 'd WaveOutPlayer" where
  "become_unhealthy m p = p\<lparr>wp_unhealthy := True, wp_reason := m\<rparr>"

definition unprepare_header_or_fail :: "'d wave_api \<Rightarrow> WaveBuffer \<Rightarrow> 'd WaveOutPlayer \<Rightarrow> ('d, WaveBuffer) section_result" where
  "unprepare_header_or_fail A b p =
     (if wp_sink p = MockSink then
        (case should_inject_mock_failure StageUnprepare p of
           (True, p) \<Rightarrow>
             (let m = ''injected mock waveOutUnprepareHeader failure'' in (Inl m, become_unhealthy m p))
         | (False, p) \<Rightarrow> (Inr (b\<lparr>bf_prepared := False\<rparr>), p))
      else
        (case api_unprepare A (bf_id b) (wp_dev p) of
           (Some e, d) \<Rightarrow>
             (let m = mm_error ''waveOutUnprepareHeader'' e in (Inl m, become_unhealthy m (p\<lparr>wp_dev := d\<rparr>)))
         | (None, d) \<Rightarrow> (Inr (b\<lparr>bf_prepared := False\<rparr>), p\<lparr>wp_dev := d\<rparr>)))"

text \<open>The loop of \<open>reap_finished_locked\<close>: the buffers before the iterator are kept.\<close>

definition finished :: "'d wave_api \<Rightarrow> int \<Rightarrow> WaveBuffer \<Rightarrow> 'd WaveOutPlayer \<Rightarrow> bool" where
  "finished A now b p \<longleftrightarrow>
     (if wp_sink p = MockSink then (case bf_mock_completion b of None \<Rightarrow> False | Some c \<Rightarrow> c \<le> now)
      else api_done A (wp_dev p) (bf_id b))"

fun reap_loop :: "'d wave_api \<Rightarrow> int \<Rightarrow> WaveBuffer list \<Rightarrow> WaveBuffer list \<Rightarrow> 'd WaveOutPlayer \<Rightarrow> ('d, unit) section_result" where
  "reap_loop A now kept [] p = (Inr (), p\<lparr>wp_buffers := kept\<rparr>)"
| "reap_loop A now kept (b # bs) p =
     (if \<not> finished A now b p then reap_loop A now (kept @ [b]) bs p
      else if \<not> bf_prepared b then reap_loop A now kept bs (p\<lparr>wp_freed := bf_id b # wp_freed p\<rparr>)
      else
        (case unprepare_header_or_fail A b p of
           (Inl e, p) \<Rightarrow> (Inl e, p\<lparr>wp_buffers := kept @ b # bs\<rparr>)
         | (Inr _, p) \<Rightarrow> reap_loop A now kept bs (p\<lparr>wp_freed := bf_id b # wp_freed p\<rparr>)))"

definition reap_finished :: "'d wave_api \<Rightarrow> 'd Reading \<Rightarrow> 'd WaveOutPlayer \<Rightarrow> ('d, unit) section_result" where
  "reap_finished A rd p =
     (let p = p\<lparr>wp_dev := rd_run rd (wp_dev p)\<rparr> in reap_loop A (rd_now rd) [] (wp_buffers p) p)"

section \<open>Submitting\<close>

definition validate_pending_format :: "AudioFormat \<Rightarrow> 'd WaveOutPlayer \<Rightarrow> ('d, unit) section_result" where
  "validate_pending_format f p =
     (if wp_sink p = MockSink \<and> wp_started p then
        (if \<not> formats_match (wp_format p) f
         then (Inl ''mock playback sink cannot change PCM format while audio is queued'', p)
         else (Inr (), p\<lparr>wp_pending_format := Some f\<rparr>))
      else if wp_handle p then
        (if \<not> formats_match (wp_format p) f
         then (Inl ''default-device playback cannot change PCM format while audio is queued'', p)
         else (Inr (), p))
      else if (case wp_pending_format p of None \<Rightarrow> False | Some g \<Rightarrow> \<not> formats_match g f)
      then (Inl ''default-device playback cannot change PCM format while audio is buffered'', p)
      else (Inr (), p\<lparr>wp_pending_format := Some f\<rparr>))"

text \<open>A buffer enters the submitted ones at the next position of the stream.\<close>

definition submit_buffer :: "WaveBuffer \<Rightarrow> WaveBuffer list \<Rightarrow> 'd WaveOutPlayer \<Rightarrow> 'd WaveOutPlayer" where
  "submit_buffer b rest p =
     p\<lparr>wp_pending := rest, wp_buffers := wp_buffers p @ [b], wp_next_frame := bf_start_frame b + bf_frame_count b,
       wp_started := True, wp_submitted := wp_submitted p @ [b]\<rparr>"

fun flush_mock :: "int \<Rightarrow> WaveBuffer list \<Rightarrow> 'd WaveOutPlayer \<Rightarrow> ('d, unit) section_result" where
  "flush_mock completion [] p = (Inr (), p\<lparr>wp_pending := [], wp_pending_format := None\<rparr>)"
| "flush_mock completion (b # bs) p =
     (case should_inject_mock_failure StagePrepare p of
        (True, p) \<Rightarrow> (Inl ''injected mock waveOutPrepareHeader failure'', p\<lparr>wp_pending := b # bs\<rparr>)
      | (False, p) \<Rightarrow>
          (case should_inject_mock_failure StageWrite p of
             (True, p) \<Rightarrow> (Inl ''injected mock waveOutWrite failure'', p\<lparr>wp_pending := b # bs\<rparr>)
           | (False, p) \<Rightarrow>
               (let next_completion = completion + ticks_of_ms (bf_duration_ms b);
                    b' = b\<lparr>bf_start_frame := wp_next_frame p, bf_mock_start := Some completion,
                           bf_mock_completion := Some next_completion, bf_prepared := True\<rparr> in
                flush_mock next_completion bs
                  (submit_buffer b' bs (p\<lparr>wp_submissions := wp_submissions p + 1\<rparr>)))))"

fun flush_device :: "'d wave_api \<Rightarrow> WaveBuffer list \<Rightarrow> 'd WaveOutPlayer \<Rightarrow> ('d, unit) section_result" where
  "flush_device A [] p = (Inr (), p\<lparr>wp_pending := [], wp_pending_format := None\<rparr>)"
| "flush_device A (b # bs) p =
     (case api_prepare A (bf_id b) (wp_dev p) of
        (Some e, d) \<Rightarrow> (Inl (mm_error ''waveOutPrepareHeader'' e), p\<lparr>wp_dev := d, wp_pending := b # bs\<rparr>)
      | (None, d) \<Rightarrow>
          (let b = b\<lparr>bf_prepared := True\<rparr> in
           case api_write A (bf_id b) d of
             (Some e, d) \<Rightarrow>
               (case unprepare_header_or_fail A b (p\<lparr>wp_dev := d\<rparr>) of
                  (Inr b, p) \<Rightarrow> (Inl (mm_error ''waveOutWrite'' e), p\<lparr>wp_pending := b # bs\<rparr>)
                | (Inl e, p) \<Rightarrow> (Inl e, p\<lparr>wp_pending := bs, wp_orphaned := wp_orphaned p @ [b]\<rparr>))
           | (None, d) \<Rightarrow>
               flush_device A bs
                 (submit_buffer (b\<lparr>bf_start_frame := wp_next_frame p\<rparr>) bs (p\<lparr>wp_dev := d\<rparr>))))"

definition open_or_validate :: "'d wave_api \<Rightarrow> AudioFormat \<Rightarrow> 'd WaveOutPlayer \<Rightarrow> ('d, unit) section_result" where
  "open_or_validate A f p =
     (if wp_handle p then
        (if \<not> formats_match (wp_format p) f
         then (Inl ''default-device playback cannot change PCM format while audio is queued'', p) else (Inr (), p))
      else
        (case api_open A f (wp_dev p) of
           (Some e, d) \<Rightarrow> (Inl (mm_error ''waveOutOpen'' e), p\<lparr>wp_dev := d\<rparr>)
         | (None, d) \<Rightarrow> (Inr (), p\<lparr>wp_dev := d, wp_handle := True, wp_format := f\<rparr>)))"

definition set_position_base :: "'d Reading \<Rightarrow> 'd WaveOutPlayer \<Rightarrow> 'd WaveOutPlayer" where
  "set_position_base rd p =
     (if wp_base_valid p then p
      else
        (let position = device_position rd p in
         p\<lparr>wp_base := (case position of None \<Rightarrow> 0 | Some pos \<Rightarrow> pos), wp_base_valid := position \<noteq> None\<rparr>))"

definition flush_pending :: "'d wave_api \<Rightarrow> 'd Reading \<Rightarrow> 'd WaveOutPlayer \<Rightarrow> ('d, unit) section_result" where
  "flush_pending A rd p =
     (if wp_pending p = [] then (Inr (), p)
      else if \<not> wp_handle p \<and> wp_pending_format p = None then (Inl ''missing PCM format for buffered playback'', p)
      else if wp_sink p = MockSink then
        flush_mock
          (case wp_buffers p of
             [] \<Rightarrow> rd_now rd
           | _ \<Rightarrow> (case bf_mock_completion (last (wp_buffers p)) of None \<Rightarrow> rd_now rd | Some c \<Rightarrow> max c (rd_now rd)))
          (wp_pending p) (p\<lparr>wp_format := the (wp_pending_format p)\<rparr>)
      else
        (case open_or_validate A (if wp_handle p then wp_format p else the (wp_pending_format p)) p of
           (Inl e, p) \<Rightarrow> (Inl e, p)
         | (Inr _, p) \<Rightarrow> flush_device A (wp_pending p) (set_position_base rd p)))"

section \<open>Enqueueing\<close>

text \<open>Before the mutex is taken; \<open>True\<close>: the call goes on.\<close>

definition enqueue_check :: "PlaybackSinkMode \<Rightarrow> PcmChunk \<Rightarrow> string + bool" where
  "enqueue_check sink chunk =
     (if sink = DisabledSink then Inr False
      else if sample_format (pcm_format chunk) \<noteq> ''s16le'' then Inl ''default-device playback requires s16le PCM''
      else if sample_rate (pcm_format chunk) = 0 \<or> channels (pcm_format chunk) = 0 \<or> channels (pcm_format chunk) > 0xffff
      then Inl ''invalid PCM format for default-device playback''
      else Inr (pcm_bytes chunk \<noteq> []))"

definition make_buffer :: "nat \<Rightarrow> PcmChunk \<Rightarrow> string + WaveBuffer" where
  "make_buffer ident chunk =
     and_then (pcm_frame_count (pcm_format chunk) (length (pcm_bytes chunk))) (\<lambda>count.
     and_then (pcm_duration_ms (pcm_format chunk) (length (pcm_bytes chunk))) (\<lambda>duration.
     Inr \<lparr>bf_id = ident, bf_bytes = pcm_bytes chunk, bf_prepared = False, bf_duration_ms = duration,
          bf_request_id = pcm_request_id chunk, bf_utterance_first_sample = first_sample chunk, bf_start_frame = 0,
          bf_frame_count = count, bf_mock_start = None, bf_mock_completion = None\<rparr>))"

definition admit_chunk ::
  "'d wave_api \<Rightarrow> 'd Reading \<Rightarrow> 'd Reading \<Rightarrow> PcmChunk \<Rightarrow> 'd WaveOutPlayer \<Rightarrow> ('d, unit) section_result" where
  "admit_chunk A rd rd' chunk p =
     (case reap_finished A rd p of
        (Inl e, p) \<Rightarrow> (Inl e, p)
      | (Inr _, p) \<Rightarrow>
          (case validate_pending_format (pcm_format chunk) p of
             (Inl e, p) \<Rightarrow> (Inl e, p)
           | (Inr _, p) \<Rightarrow>
               (case make_buffer (wp_next_id p) chunk of
                  Inl e \<Rightarrow> (Inl e, p)
                | Inr b \<Rightarrow>
                    (let p = p\<lparr>wp_next_id := wp_next_id p + 1, wp_pending := wp_pending p @ [b],
                               wp_admitted := wp_admitted p @ [chunk]\<rparr> in
                     if wp_started p \<or> length (wp_pending p) \<ge> wp_prebuffer p then flush_pending A rd' p
                     else (Inr (), p)))))"

datatype EnqueueNext = EnqueueReturns | EnqueueWaits

text \<open>From the check of the epoch, first and after each sleep, to the next sleep or the end.\<close>

definition enqueue_round ::
  "'d wave_api \<Rightarrow> (nat \<Rightarrow> 'd Reading) \<Rightarrow> u64 \<Rightarrow> PcmChunk \<Rightarrow> 'd WaveOutPlayer \<Rightarrow> ('d, EnqueueNext) section_result" where
  "enqueue_round A rds epoch chunk p =
     (let admit = (\<lambda>p. case admit_chunk A (rds 3) (rds 4) chunk p of
                         (Inl e, p) \<Rightarrow> (Inl e, p) | (Inr _, p) \<Rightarrow> (Inr EnqueueReturns, p)) in
      if epoch \<noteq> wp_epoch p then (Inr EnqueueReturns, p\<lparr>wp_late := wp_late p + 1\<rparr>)
      else if \<not> (wp_started p \<and> queued_audio_ahead_ms (rds 0) p \<ge> kMaxQueuedAudioMs) then admit p
      else
        (case reap_finished A (rds 1) p of
           (Inl e, p) \<Rightarrow> (Inl e, p)
         | (Inr _, p) \<Rightarrow>
             if queued_audio_ahead_ms (rds 2) p < kMaxQueuedAudioMs then admit p else (Inr EnqueueWaits, p)))"

definition enqueue_first ::
  "'d wave_api \<Rightarrow> (nat \<Rightarrow> 'd Reading) \<Rightarrow> u64 \<Rightarrow> PcmChunk \<Rightarrow> 'd WaveOutPlayer \<Rightarrow> ('d, EnqueueNext) section_result" where
  "enqueue_first A rds epoch chunk p =
     (case enqueue_check (wp_sink p) chunk of
        Inl e \<Rightarrow> (Inl e, p)
      | Inr False \<Rightarrow> (Inr EnqueueReturns, p)
      | Inr True \<Rightarrow>
          (case throw_if_unhealthy p of
             Inl e \<Rightarrow> (Inl e, p)
           | Inr _ \<Rightarrow> enqueue_round A rds epoch chunk p))"

section \<open>Reset\<close>

definition clear_pending :: "'d WaveOutPlayer \<Rightarrow> 'd WaveOutPlayer" where
  "clear_pending p = p\<lparr>wp_freed := map bf_id (wp_pending p) @ wp_freed p, wp_pending := [], wp_pending_format := None\<rparr>"

text \<open>The sections of \<open>reset_locked\<close> end with its result, in the hook of the tests, or before a sleep.\<close>

datatype ResetNext = ResetReturns u64 | ResetInHook u64 | ResetWaits u64

definition reset_finish :: "'d Reading \<Rightarrow> u64 \<Rightarrow> 'd WaveOutPlayer \<Rightarrow> ('d, ResetNext) section_result" where
  "reset_finish rd epoch p =
     (Inr (ResetReturns epoch), reset_stream_position rd ((clear_pending p)\<lparr>wp_started := False\<rparr>))"

text \<open>One round of the loop that waits for the driver; \<open>expired\<close> is the comparison with the deadline.\<close>

definition reset_loop ::
  "'d wave_api \<Rightarrow> (nat \<Rightarrow> 'd Reading) \<Rightarrow> bool \<Rightarrow> u64 \<Rightarrow> 'd WaveOutPlayer \<Rightarrow> ('d, ResetNext) section_result" where
  "reset_loop A rds expired epoch p =
     (if wp_buffers p = [] then reset_finish (rds 1) epoch p
      else
        (case reap_finished A (rds 0) p of
           (Inl e, p) \<Rightarrow> (Inl e, p)
         | (Inr _, p) \<Rightarrow>
             if wp_buffers p = [] then reset_finish (rds 1) epoch p
             else if expired then
               (let m = ''timed out waiting for default audio device reset'' in (Inl m, become_unhealthy m p))
             else (Inr (ResetWaits epoch), p)))"

definition reset_round ::
  "'d wave_api \<Rightarrow> (nat \<Rightarrow> 'd Reading) \<Rightarrow> bool \<Rightarrow> u64 \<Rightarrow> 'd WaveOutPlayer \<Rightarrow> ('d, ResetNext) section_result" where
  "reset_round A rds expired epoch p =
     (if wp_epoch p \<noteq> epoch then (Inr (ResetReturns epoch), p) else reset_loop A rds expired epoch p)"

definition reset_go ::
  "'d wave_api \<Rightarrow> (nat \<Rightarrow> 'd Reading) \<Rightarrow> bool \<Rightarrow> u64 \<Rightarrow> 'd WaveOutPlayer \<Rightarrow> ('d, ResetNext) section_result" where
  "reset_go A rds expired epoch p =
     (case wp_sink p of
        MockSink \<Rightarrow>
          (case should_inject_mock_failure StageReset (p\<lparr>wp_submissions := 0\<rparr>) of
             (True, p) \<Rightarrow> (let m = ''injected mock waveOutReset failure'' in (Inl m, become_unhealthy m p))
           | (False, p) \<Rightarrow>
               reset_finish (rds 1) epoch (p\<lparr>wp_freed := map bf_id (wp_buffers p) @ wp_freed p, wp_buffers := []\<rparr>))
      | DisabledSink \<Rightarrow> (Inr (ResetReturns epoch), reset_stream_position (rds 1) p)
      | WaveOut \<Rightarrow>
          if \<not> wp_handle p then reset_finish (rds 1) epoch p
          else
            (case api_reset A (wp_dev p) of
               (Some e, d) \<Rightarrow>
                 (let m = mm_error ''waveOutReset'' e in (Inl m, become_unhealthy m (p\<lparr>wp_dev := d\<rparr>)))
             | (None, d) \<Rightarrow> reset_loop A rds expired epoch (p\<lparr>wp_dev := d\<rparr>)))"

definition next_epoch :: "u64 \<Rightarrow> u64" where
  "next_epoch e = (if e + 1 = 0 then 1 else e + 1)"

definition reset_first ::
  "'d wave_api \<Rightarrow> (nat \<Rightarrow> 'd Reading) \<Rightarrow> bool \<Rightarrow> 'd WaveOutPlayer \<Rightarrow> ('d, ResetNext) section_result" where
  "reset_first A rds expired p =
     (let epoch = next_epoch (wp_epoch p); p = p\<lparr>wp_epoch := epoch\<rparr> in
      case throw_if_unhealthy p of
        Inl e \<Rightarrow> (Inl e, p)
      | Inr _ \<Rightarrow>
          if wp_hook p then (Inr (ResetInHook epoch), p\<lparr>wp_hook := False\<rparr>) else reset_go A rds expired epoch p)"

definition reset_after_hook ::
  "'d wave_api \<Rightarrow> (nat \<Rightarrow> 'd Reading) \<Rightarrow> bool \<Rightarrow> u64 \<Rightarrow> 'd WaveOutPlayer \<Rightarrow> ('d, ResetNext) section_result" where
  "reset_after_hook A rds expired epoch p =
     (if wp_epoch p \<noteq> epoch then (Inr (ResetReturns epoch), p) else reset_go A rds expired epoch p)"

definition reset_if_epoch ::
  "'d wave_api \<Rightarrow> (nat \<Rightarrow> 'd Reading) \<Rightarrow> bool \<Rightarrow> u64 \<Rightarrow> 'd WaveOutPlayer \<Rightarrow> ('d, ResetNext option) section_result" where
  "reset_if_epoch A rds expired expected p =
     (if wp_epoch p \<noteq> expected then (Inr None, p)
      else (case reset_first A rds expired p of (Inl e, p) \<Rightarrow> (Inl e, p) | (Inr r, p) \<Rightarrow> (Inr (Some r), p)))"

section \<open>Interruption\<close>

definition playout_snapshot :: "'d WaveOutPlayer \<Rightarrow> PlayoutBuffer list" where
  "playout_snapshot p =
     map (\<lambda>b. \<lparr>pb_chunk = \<lparr>pcm_request_id = bf_request_id b, pcm_format = wp_format p, pcm_bytes = bf_bytes b,
                            first_sample = 0, sample_count = 0\<rparr>, pb_start_frame = bf_start_frame b\<rparr>) (wp_buffers p)"

definition interruption_tail :: "'d Reading \<Rightarrow> u32 \<Rightarrow> 'd WaveOutPlayer \<Rightarrow> string + PcmChunk option" where
  "interruption_tail rd fade_time p =
     (if wp_buffers p = [] then Inr None
      else
        (case current_playout_cursor_frame rd p of
           None \<Rightarrow> Inr None
         | Some cursor \<Rightarrow> make_playout_cursor_fade (playout_snapshot p) cursor fade_time))"

definition interrupt_with_fade ::
  "'d wave_api \<Rightarrow> (nat \<Rightarrow> 'd Reading) \<Rightarrow> bool \<Rightarrow> u32 \<Rightarrow> 'd WaveOutPlayer \<Rightarrow> ('d, ResetNext \<times> PcmChunk option) section_result" where
  "interrupt_with_fade A rds expired fade_time p =
     (let reaped = (if wp_sink p = DisabledSink then (Inr (), p) else reap_finished A (rds 2) p) in
      case reaped of
        (Inl e, p) \<Rightarrow> (Inl e, p)
      | (Inr _, p) \<Rightarrow>
          (case (if fade_time \<noteq> 0 \<and> wp_sink p \<noteq> DisabledSink then interruption_tail (rds 3) fade_time p else Inr None) of
             Inl e \<Rightarrow> (Inl e, p)
           | Inr faded \<Rightarrow>
               (case reset_first A rds expired p of
                  (Inl e, p) \<Rightarrow> (Inl e, p) | (Inr r, p) \<Rightarrow> (Inr (r, faded), p))))"

definition interrupt_with_fade_if_epoch ::
  "'d wave_api \<Rightarrow> (nat \<Rightarrow> 'd Reading) \<Rightarrow> bool \<Rightarrow> u64 \<Rightarrow> u32 \<Rightarrow> 'd WaveOutPlayer \<Rightarrow>
     ('d, (ResetNext \<times> PcmChunk option) option) section_result" where
  "interrupt_with_fade_if_epoch A rds expired expected fade_time p =
     (if wp_epoch p \<noteq> expected then (Inr None, p)
      else (case interrupt_with_fade A rds expired fade_time p of (Inl e, p) \<Rightarrow> (Inl e, p) | (Inr r, p) \<Rightarrow> (Inr (Some r), p)))"

section \<open>Waiting, closing, the cursor of a request\<close>

datatype IdleNext = IdleReturns | IdleWaits

definition idle_loop ::
  "'d wave_api \<Rightarrow> 'd Reading \<Rightarrow> bool \<Rightarrow> 'd WaveOutPlayer \<Rightarrow> ('d, IdleNext) section_result" where
  "idle_loop A rd expired p =
     (if wp_buffers p = [] then (Inr IdleReturns, p)
      else
        (case reap_finished A rd p of
           (Inl e, p) \<Rightarrow> (Inl e, p)
         | (Inr _, p) \<Rightarrow>
             if wp_buffers p = [] then (Inr IdleReturns, p)
             else if expired then (Inl ''timed out waiting for default audio playback'', p)
             else (Inr IdleWaits, p)))"

definition wait_until_idle ::
  "'d wave_api \<Rightarrow> (nat \<Rightarrow> 'd Reading) \<Rightarrow> bool \<Rightarrow> 'd WaveOutPlayer \<Rightarrow> ('d, IdleNext) section_result" where
  "wait_until_idle A rds expired p =
     (if wp_sink p = DisabledSink then (Inr IdleReturns, p)
      else
        (case throw_if_unhealthy p of
           Inl e \<Rightarrow> (Inl e, p)
         | Inr _ \<Rightarrow>
             (case flush_pending A (rds 0) p of
                (Inl e, p) \<Rightarrow> (Inl e, p)
              | (Inr _, p) \<Rightarrow> idle_loop A (rds 1) expired p)))"

definition abandon_driver_owned_resources :: "'d WaveOutPlayer \<Rightarrow> 'd WaveOutPlayer" where
  "abandon_driver_owned_resources p =
     p\<lparr>wp_leaked := map bf_id (wp_buffers p @ wp_pending p @ wp_orphaned p) @ wp_leaked p,
       wp_buffers := [], wp_pending := [], wp_orphaned := [], wp_handle := False\<rparr>"

text \<open>\<open>close_noexcept\<close> after the reset, which succeeded or threw.\<close>

definition close_section :: "'d wave_api \<Rightarrow> bool \<Rightarrow> 'd WaveOutPlayer \<Rightarrow> 'd WaveOutPlayer" where
  "close_section A reset_succeeded p =
     (let p = (case (if wp_sink p = MockSink then should_inject_mock_failure StageClose p else (False, p)) of
                 (True, p) \<Rightarrow> become_unhealthy ''injected mock waveOutClose failure'' p
               | (False, p) \<Rightarrow> p);
          p = (if reset_succeeded then p
               else p\<lparr>wp_unhealthy := True,
                      wp_reason := if wp_reason p = [] then ''default audio playback teardown failed'' else wp_reason p\<rparr>) in
      if wp_unhealthy p then abandon_driver_owned_resources p
      else if wp_handle p then
        (case api_close A (wp_dev p) of
           (Some e, d) \<Rightarrow>
             abandon_driver_owned_resources (become_unhealthy (mm_error ''waveOutClose'' e) (p\<lparr>wp_dev := d\<rparr>))
         | (None, d) \<Rightarrow> p\<lparr>wp_dev := d, wp_handle := False\<rparr>)
      else p)"

text \<open>The end of the destructor: the members are destroyed with every buffer they still own.\<close>

definition destroy_members :: "'d WaveOutPlayer \<Rightarrow> 'd WaveOutPlayer" where
  "destroy_members p =
     p\<lparr>wp_freed := map bf_id (wp_buffers p @ wp_pending p @ wp_orphaned p) @ wp_freed p,
       wp_buffers := [], wp_pending := [], wp_orphaned := []\<rparr>"

fun select_buffer :: "u64 \<Rightarrow> WaveBuffer list \<Rightarrow> (WaveBuffer \<times> u64) option" where
  "select_buffer cursor [] = None"
| "select_buffer cursor (b # bs) =
     (if cursor < bf_start_frame b then Some (b, 0)
      else if cursor < bf_start_frame b + bf_frame_count b then Some (b, cursor - bf_start_frame b)
      else select_buffer cursor bs)"

definition playback_cursor_snapshot :: "'d Reading \<Rightarrow> u64 \<Rightarrow> RequestId \<Rightarrow> 'd WaveOutPlayer \<Rightarrow> PlaybackCursorSnapshot" where
  "playback_cursor_snapshot rd epoch request p =
     (let none = \<lparr>sn_epoch = epoch, sn_request_id = request, utterance_sample = 0, sn_sample_rate = 0, position_available = False\<rparr> in
      if epoch \<noteq> wp_epoch p \<or> request = 0 \<or> \<not> wp_started p \<or> wp_buffers p = [] then none
      else
        (case current_playout_cursor_frame rd p of
           None \<Rightarrow> none
         | Some cursor \<Rightarrow>
             (case select_buffer cursor (wp_buffers p) of
                None \<Rightarrow> none
              | Some (b, offset) \<Rightarrow>
                  if bf_request_id b \<noteq> request \<or> bf_utterance_first_sample b > - 1 - offset then none
                  else none\<lparr>utterance_sample := bf_utterance_first_sample b + offset,
                            sn_sample_rate := sample_rate (wp_format p),
                            position_available := sample_rate (wp_format p) \<noteq> 0\<rparr>)))"

section \<open>Runs\<close>

text \<open>What the documentation of the waveOut functions says about who may use a buffer: a header marked as
  done is no longer used; only a successful write hands a header to the driver; the device can be closed
  only when it uses no buffer.\<close>

definition wave_contract :: "'d wave_api \<Rightarrow> bool" where
  "wave_contract A \<longleftrightarrow>
     (\<forall>d n. api_done A d n \<longrightarrow> \<not> api_holds A d n) \<and>
     (\<forall>f d n. api_holds A (snd (api_open A f d)) n \<longrightarrow> api_holds A d n) \<and>
     (\<forall>i d n. api_holds A (snd (api_prepare A i d)) n \<longrightarrow> api_holds A d n) \<and>
     (\<forall>i d n. api_holds A (snd (api_write A i d)) n \<longrightarrow> api_holds A d n \<or> n = i \<and> fst (api_write A i d) = None) \<and>
     (\<forall>i d n. api_holds A (snd (api_unprepare A i d)) n \<longrightarrow> api_holds A d n) \<and>
     (\<forall>d n. api_holds A (snd (api_reset A d)) n \<longrightarrow> api_holds A d n) \<and>
     (\<forall>d n. api_holds A (snd (api_close A d)) n \<longrightarrow> api_holds A d n \<and> fst (api_close A d) \<noteq> None)"

definition device_runs :: "'d wave_api \<Rightarrow> 'd Reading \<Rightarrow> bool" where
  "device_runs A rd \<longleftrightarrow> (\<forall>d n. api_holds A (rd_run rd d) n \<longrightarrow> api_holds A d n)"

text \<open>Any section may run next: those of calls that begin and those of calls that have slept.\<close>

inductive player_step :: "'d wave_api \<Rightarrow> 'd WaveOutPlayer \<Rightarrow> 'd WaveOutPlayer \<Rightarrow> bool" for A where
  step_device: "device_runs A rd \<Longrightarrow> player_step A p (p\<lparr>wp_dev := rd_run rd (wp_dev p)\<rparr>)"
| step_enqueue: "\<forall>k. device_runs A (rds k) \<Longrightarrow> player_step A p (snd (enqueue_first A rds epoch chunk p))"
| step_enqueue_again: "\<forall>k. device_runs A (rds k) \<Longrightarrow> enqueue_check (wp_sink p) chunk = Inr True \<Longrightarrow>
     player_step A p (snd (enqueue_round A rds epoch chunk p))"
| step_reset: "\<forall>k. device_runs A (rds k) \<Longrightarrow> player_step A p (snd (reset_first A rds expired p))"
| step_reset_if: "\<forall>k. device_runs A (rds k) \<Longrightarrow> player_step A p (snd (reset_if_epoch A rds expired epoch p))"
| step_hook: "player_step A p (p\<lparr>wp_hook := hook\<rparr>)"
| step_after_hook: "\<forall>k. device_runs A (rds k) \<Longrightarrow> player_step A p (snd (reset_after_hook A rds expired epoch p))"
| step_reset_again: "\<forall>k. device_runs A (rds k) \<Longrightarrow> wp_sink p = WaveOut \<Longrightarrow> player_step A p (snd (reset_round A rds expired epoch p))"
| step_interrupt: "\<forall>k. device_runs A (rds k) \<Longrightarrow> player_step A p (snd (interrupt_with_fade A rds expired fade p))"
| step_interrupt_if: "\<forall>k. device_runs A (rds k) \<Longrightarrow> player_step A p (snd (interrupt_with_fade_if_epoch A rds expired epoch fade p))"
| step_idle: "\<forall>k. device_runs A (rds k) \<Longrightarrow> player_step A p (snd (wait_until_idle A rds expired p))"
| step_idle_again: "device_runs A rd \<Longrightarrow> wp_sink p \<noteq> DisabledSink \<Longrightarrow> player_step A p (snd (idle_loop A rd expired p))"

inductive player_reachable :: "'d wave_api \<Rightarrow> 'd WaveOutPlayer \<Rightarrow> bool" for A where
  player_new: "new_player dev sink prebuffer fail_after stage = Inr p \<Longrightarrow> \<forall>n. \<not> api_holds A dev n \<Longrightarrow> player_reachable A p"
| player_next: "player_reachable A p \<Longrightarrow> player_step A p q \<Longrightarrow> player_reachable A q"

end
