(* ===== verification/Player_Ownership.thy ===== *)
theory Player_Ownership
  imports Wave_Out_Player
begin

text \<open>
  Who owns the buffers of the player: storage is destroyed only when the driver can no longer use it, in
  every schedule and also when the player is destroyed after a failure.
\<close>

section \<open>Sections\<close>

lemma contract:
  assumes "wave_contract A"
  shows "api_done A d n \<Longrightarrow> \<not> api_holds A d n"
    "api_open A f d = (r, d') \<Longrightarrow> api_holds A d' n \<Longrightarrow> api_holds A d n"
    "api_prepare A i d = (r, d') \<Longrightarrow> api_holds A d' n \<Longrightarrow> api_holds A d n"
    "api_write A i d = (r, d') \<Longrightarrow> api_holds A d' n \<Longrightarrow> api_holds A d n \<or> n = i \<and> r = None"
    "api_unprepare A i d = (r, d') \<Longrightarrow> api_holds A d' n \<Longrightarrow> api_holds A d n"
    "api_reset A d = (r, d') \<Longrightarrow> api_holds A d' n \<Longrightarrow> api_holds A d n"
    "api_close A d = (r, d') \<Longrightarrow> api_holds A d' n \<Longrightarrow> api_holds A d n \<and> r \<noteq> None"
  using assms unfolding wave_contract_def by (metis fst_conv snd_conv)+

lemma inject_cases:
  assumes "should_inject_mock_failure st p = (b, q)"
  obtains i where "q = p\<lparr>wp_injected := i\<rparr>"
proof -
  have "q = p\<lparr>wp_injected := wp_injected p\<rparr> \<or> q = p\<lparr>wp_injected := True\<rparr>"
    using assms by (auto simp: should_inject_mock_failure_def split: option.splits if_splits)
  then show ?thesis using that by blast
qed

text \<open>Unpreparing changes the device and the health of the player only.\<close>

lemma unprepare_cases:
  assumes "unprepare_header_or_fail A b p = (r, q)"
  obtains d i u m where "q = p\<lparr>wp_dev := d, wp_injected := i, wp_unhealthy := u, wp_reason := m\<rparr>"
    "\<And>n. wave_contract A \<Longrightarrow> api_holds A d n \<Longrightarrow> api_holds A (wp_dev p) n"
    "\<And>b'. r = Inr b' \<Longrightarrow> b' = b\<lparr>bf_prepared := False\<rparr> \<and> u = wp_unhealthy p" "\<And>e. r = Inl e \<Longrightarrow> u"
proof (cases "wp_sink p = MockSink")
  case True
  obtain c q' where inj: "should_inject_mock_failure StageUnprepare p = (c, q')" by (cases "should_inject_mock_failure StageUnprepare p")
  obtain i where q': "q' = p\<lparr>wp_injected := i\<rparr>" by (rule inject_cases [OF inj])
  show ?thesis
  proof (cases c)
    case True
    then show ?thesis
      using that [where d = "wp_dev p" and i = i and u = True and m = "''injected mock waveOutUnprepareHeader failure''"] assms \<open>wp_sink p = MockSink\<close> inj q'
      by (auto simp: unprepare_header_or_fail_def become_unhealthy_def Let_def)
  next
    case False
    then show ?thesis
      using that [where d = "wp_dev p" and i = i and u = "wp_unhealthy p" and m = "wp_reason p"] assms \<open>wp_sink p = MockSink\<close> inj q'
      by (auto simp: unprepare_header_or_fail_def)
  qed
next
  case False
  obtain x d where un: "api_unprepare A (bf_id b) (wp_dev p) = (x, d)" by (cases "api_unprepare A (bf_id b) (wp_dev p)")
  have holds: "api_holds A (wp_dev p) n" if "wave_contract A" "api_holds A d n" for n
    using contract(5) [OF that(1) un that(2)] .
  show ?thesis
  proof (cases x)
    case None
    then show ?thesis
      using that [where d = d and i = "wp_injected p" and u = "wp_unhealthy p" and m = "wp_reason p"] assms False un holds
      by (auto simp: unprepare_header_or_fail_def)
  next
    case (Some e)
    then show ?thesis
      using that [where d = d and i = "wp_injected p" and u = True and m = "mm_error ''waveOutUnprepareHeader'' e"] assms False un holds
      by (auto simp: unprepare_header_or_fail_def become_unhealthy_def Let_def)
  qed
qed

lemma reap_sink: "wp_sink (snd (reap_loop A now kept bs p)) = wp_sink p"
proof (induction A now kept bs p rule: reap_loop.induct)
  case (2 A now kept b bs p)
  obtain r q where un: "unprepare_header_or_fail A b p = (r, q)" by (cases "unprepare_header_or_fail A b p")
  have "wp_sink q = wp_sink p" by (rule unprepare_cases [OF un]) simp
  then show ?case using 2 un by (cases r) auto
qed simp

lemma reap_finished_sink: "reap_finished A rd p = (r, q) \<Longrightarrow> wp_sink q = wp_sink p"
  using reap_sink [of A "rd_now rd" "[]" "wp_buffers p" "p\<lparr>wp_dev := rd_run rd (wp_dev p)\<rparr>"]
  by (simp add: reap_finished_def)

lemma validate_cases:
  assumes "validate_pending_format f p = (r, q)"
  obtains g where "q = p\<lparr>wp_pending_format := g\<rparr>"
proof -
  have "q = p\<lparr>wp_pending_format := wp_pending_format p\<rparr> \<or> q = p\<lparr>wp_pending_format := Some f\<rparr>"
    using assms by (auto simp: validate_pending_format_def split: if_splits)
  then show ?thesis using that by blast
qed

text \<open>The pattern of most sections: if the first part throws, that is the result.\<close>

lemma snd_case_result:
  "snd (case r of (Inl e, p) \<Rightarrow> (Inl e, p) | (Inr x, p) \<Rightarrow> k x p) = (case r of (Inl e, p) \<Rightarrow> p | (Inr x, p) \<Rightarrow> snd (k x p))"
  by (simp split: prod.split sum.split)

lemma section_then:
  assumes "I (snd r)" "\<And>x p. r = (Inr x, p) \<Longrightarrow> I p \<Longrightarrow> I (snd (k x p))"
  shows "I (snd (case r of (Inl e, p) \<Rightarrow> (Inl e, p) | (Inr x, p) \<Rightarrow> k x p))"
  using assms by (auto split: prod.splits sum.splits)

section \<open>Invariants of the player\<close>

text \<open>What an invariant has to be kept by, and then it holds in every schedule.\<close>

locale player_invariant =
  fixes A :: "'d wave_api" and I :: "'d WaveOutPlayer \<Rightarrow> bool"
  assumes inv_new: "new_player dev sink n fa st = Inr p \<Longrightarrow> \<forall>n. \<not> api_holds A dev n \<Longrightarrow> I p"
    and inv_run: "I p \<Longrightarrow> device_runs A rd \<Longrightarrow> I (p\<lparr>wp_dev := rd_run rd (wp_dev p)\<rparr>)"
    and inv_reap: "I p \<Longrightarrow> device_runs A rd \<Longrightarrow> I (snd (reap_finished A rd p))"
    and inv_admit: "I p \<Longrightarrow> device_runs A rd \<Longrightarrow> wp_sink p \<noteq> DisabledSink \<Longrightarrow> enqueue_check (wp_sink p) chunk = Inr True \<Longrightarrow>
      I (snd (admit_chunk A rd rd' chunk p))"
    and inv_flush: "I p \<Longrightarrow> wp_sink p \<noteq> DisabledSink \<Longrightarrow> I (snd (flush_pending A rd p))"
    and inv_fields: "I p \<Longrightarrow> I (p\<lparr>wp_late := l\<rparr>)" "I p \<Longrightarrow> I (p\<lparr>wp_epoch := e\<rparr>)" "I p \<Longrightarrow> I (p\<lparr>wp_hook := h\<rparr>)"
      "I p \<Longrightarrow> I (p\<lparr>wp_submissions := k, wp_injected := i\<rparr>)" "I p \<Longrightarrow> I (become_unhealthy m p)"
    and inv_api_reset: "I p \<Longrightarrow> I (p\<lparr>wp_dev := snd (api_reset A (wp_dev p))\<rparr>)"
    and inv_finish: "I p \<Longrightarrow> wp_buffers p = [] \<or> wp_sink p = WaveOut \<and> \<not> wp_handle p \<Longrightarrow>
      I (reset_stream_position rd ((clear_pending p)\<lparr>wp_started := False\<rparr>))"
    and inv_mock: "I p \<Longrightarrow> wp_sink p = MockSink \<Longrightarrow>
      I (reset_stream_position rd ((clear_pending (p\<lparr>wp_freed := map bf_id (wp_buffers p) @ wp_freed p, wp_buffers := []\<rparr>))\<lparr>wp_started := False\<rparr>))"
    and inv_disabled: "I p \<Longrightarrow> wp_sink p = DisabledSink \<Longrightarrow> I (reset_stream_position rd p)"
begin

lemma inv_then:
  assumes "I (snd r)" "\<And>x p. r = (Inr x, p) \<Longrightarrow> I p \<Longrightarrow> I (snd (k x p))"
  shows "I (snd (case r of (Inl e, p) \<Rightarrow> (Inl e, p) | (Inr x, p) \<Rightarrow> k x p))"
  using assms by (auto split: prod.splits sum.splits)

lemma inv_reset_loop:
  assumes "I p" "\<forall>k. device_runs A (rds k)"
  shows "I (snd (reset_loop A rds expired epoch p))"
proof -
  have "I (snd (case reap_finished A (rds 0) p of (Inl e, p) \<Rightarrow> (Inl e, p)
      | (Inr _, p) \<Rightarrow> if wp_buffers p = [] then reset_finish (rds 1) epoch p
          else if expired then let m = ''timed out waiting for default audio device reset'' in (Inl m, become_unhealthy m p)
          else (Inr (ResetWaits epoch), p)))"
  proof (rule inv_then)
    show "I (snd (reap_finished A (rds 0) p))" using assms by (simp add: inv_reap)
  qed (simp add: reset_finish_def Let_def inv_finish inv_fields)
  then show ?thesis using assms(1) by (auto simp: reset_loop_def reset_finish_def intro: inv_finish)
qed

lemma inv_reset_go:
  assumes "I p" "\<forall>k. device_runs A (rds k)"
  shows "I (snd (reset_go A rds expired epoch p))"
proof (cases "wp_sink p")
  case WaveOut
  obtain x d where r: "api_reset A (wp_dev p) = (x, d)" by (cases "api_reset A (wp_dev p)")
  have d: "I (p\<lparr>wp_dev := d\<rparr>)" using inv_api_reset [OF assms(1)] r by simp
  show ?thesis
    using WaveOut r d assms inv_reset_loop [OF d assms(2)] inv_finish [OF assms(1)] inv_fields(5) [OF d]
    by (cases x) (auto simp: reset_go_def reset_finish_def Let_def)
next
  case MockSink
  obtain c q where a: "should_inject_mock_failure StageReset (p\<lparr>wp_submissions := 0\<rparr>) = (c, q)"
    by (cases "should_inject_mock_failure StageReset (p\<lparr>wp_submissions := 0\<rparr>)")
  obtain i where q: "q = p\<lparr>wp_submissions := 0, wp_injected := i\<rparr>" by (rule inject_cases [OF a])
  have "I q" unfolding q by (rule inv_fields(4) [OF assms(1)])
  then show ?thesis
    using MockSink a inv_mock [of q "rds 1"] inv_fields(5) [of q] q
    by (cases c) (simp_all add: reset_go_def reset_finish_def Let_def)
qed (use assms in \<open>simp add: reset_go_def inv_disabled\<close>)

lemma inv_reset_first:
  assumes "I p" "\<forall>k. device_runs A (rds k)"
  shows "I (snd (reset_first A rds expired p))"
  using inv_reset_go [OF inv_fields(2) [OF assms(1)] assms(2)] inv_fields(2) [OF assms(1)] inv_fields(3) [OF inv_fields(2) [OF assms(1)]]
  by (simp add: reset_first_def Let_def split: sum.split)

lemma inv_enqueue_round:
  assumes "I p" "\<forall>k. device_runs A (rds k)" "enqueue_check (wp_sink p) chunk = Inr True"
  shows "I (snd (enqueue_round A rds epoch chunk p))"
proof -
  have sink: "wp_sink p \<noteq> DisabledSink" using assms(3) by (auto simp: enqueue_check_def)
  have admit: "I (snd (case admit_chunk A (rds 3) (rds 4) chunk q of (Inl e, p) \<Rightarrow> (Inl e, p) | (Inr _, p) \<Rightarrow> (Inr EnqueueReturns, p)))"
    if "I q" "wp_sink q = wp_sink p" for q
  proof (rule inv_then)
    show "I (snd (admit_chunk A (rds 3) (rds 4) chunk q))" using that assms sink by (simp add: inv_admit)
  qed simp
  have wait: "I (snd (case reap_finished A (rds 1) p of (Inl e, p) \<Rightarrow> (Inl e, p)
      | (Inr _, q) \<Rightarrow> if queued_audio_ahead_ms (rds 2) q < kMaxQueuedAudioMs
          then case admit_chunk A (rds 3) (rds 4) chunk q of (Inl e, p) \<Rightarrow> (Inl e, p) | (Inr _, p) \<Rightarrow> (Inr EnqueueReturns, p)
          else (Inr EnqueueWaits, q)))"
  proof (rule inv_then)
    show "I (snd (reap_finished A (rds 1) p))" using assms by (intro inv_reap) auto
    fix x q assume "reap_finished A (rds 1) p = (Inr x, q)" "I q"
    then show "I (snd (if queued_audio_ahead_ms (rds 2) q < kMaxQueuedAudioMs
          then case admit_chunk A (rds 3) (rds 4) chunk q of (Inl e, p) \<Rightarrow> (Inl e, p) | (Inr _, p) \<Rightarrow> (Inr EnqueueReturns, p)
          else (Inr EnqueueWaits, q)))"
      using admit [of q] reap_finished_sink [of A "rds 1" p "Inr x" q] by simp
  qed
  show ?thesis using assms(1) admit [of p] wait by (simp add: enqueue_round_def Let_def inv_fields)
qed

lemma inv_enqueue_first:
  assumes "I p" "\<forall>k. device_runs A (rds k)"
  shows "I (snd (enqueue_first A rds epoch chunk p))"
  using assms inv_enqueue_round [OF assms, of chunk epoch] by (auto simp: enqueue_first_def split: sum.split bool.split)

lemma inv_interrupt:
  assumes "I p" "\<forall>k. device_runs A (rds k)"
  shows "I (snd (interrupt_with_fade A rds expired fade p))"
proof -
  have rest: "I (snd (case (if fade \<noteq> 0 \<and> wp_sink q \<noteq> DisabledSink then interruption_tail (rds 3) fade q else Inr None) of
      Inl e \<Rightarrow> (Inl e, q) | Inr faded \<Rightarrow> (case reset_first A rds expired q of (Inl e, p) \<Rightarrow> (Inl e, p) | (Inr r, p) \<Rightarrow> (Inr (r, faded), p))))"
    if "I q" for q
  proof (cases "if fade \<noteq> 0 \<and> wp_sink q \<noteq> DisabledSink then interruption_tail (rds 3) fade q else Inr None")
    case (Inr faded)
    show ?thesis unfolding Inr sum.case by (rule inv_then) (simp_all add: inv_reset_first [OF that assms(2)])
  qed (use that in simp)
  have "I (snd (if wp_sink p = DisabledSink then (Inr (), p) else reap_finished A (rds 2) p))"
    using assms inv_reap by simp
  then show ?thesis unfolding interrupt_with_fade_def Let_def by (rule inv_then) (rule rest)
qed

lemma inv_idle:
  assumes "I p" "device_runs A rd"
  shows "I (snd (idle_loop A rd expired p))"
proof -
  have "I (snd (case reap_finished A rd p of (Inl e, p) \<Rightarrow> (Inl e, p)
      | (Inr _, p) \<Rightarrow> if wp_buffers p = [] then (Inr IdleReturns, p)
          else if expired then (Inl ''timed out waiting for default audio playback'', p) else (Inr IdleWaits, p)))"
    by (rule inv_then) (simp_all add: inv_reap assms)
  then show ?thesis using assms(1) by (simp add: idle_loop_def)
qed

lemma inv_wait_until_idle:
  assumes "I p" "\<forall>k. device_runs A (rds k)"
  shows "I (snd (wait_until_idle A rds expired p))"
proof -
  have "I (snd (case flush_pending A (rds 0) p of (Inl e, p) \<Rightarrow> (Inl e, p) | (Inr _, p) \<Rightarrow> idle_loop A (rds 1) expired p))"
    if "wp_sink p \<noteq> DisabledSink"
    by (rule inv_then) (simp_all add: inv_flush inv_idle assms that)
  then show ?thesis using assms(1) by (simp add: wait_until_idle_def split: sum.split)
qed

lemma inv_step: "player_step A p q \<Longrightarrow> I p \<Longrightarrow> I q"
proof (induction rule: player_step.induct)
  case (step_reset_if rds p expired epoch)
  have "I (snd (case reset_first A rds expired p of (Inl e, p) \<Rightarrow> (Inl e, p) | (Inr r, p) \<Rightarrow> (Inr (Some r), p)))"
    by (rule inv_then) (simp_all add: inv_reset_first step_reset_if)
  then show ?case using step_reset_if by (simp add: reset_if_epoch_def)
next
  case (step_interrupt_if rds p expired epoch fade)
  have "I (snd (case interrupt_with_fade A rds expired fade p of (Inl e, p) \<Rightarrow> (Inl e, p) | (Inr r, p) \<Rightarrow> (Inr (Some r), p)))"
    by (rule inv_then) (simp_all add: inv_interrupt step_interrupt_if)
  then show ?case using step_interrupt_if by (simp add: interrupt_with_fade_if_epoch_def)
qed (simp_all add: reset_after_hook_def reset_round_def inv_run inv_enqueue_first inv_enqueue_round inv_reset_first inv_fields
    inv_reset_go inv_reset_loop inv_interrupt inv_wait_until_idle inv_idle)

lemma inv_reachable: "player_reachable A p \<Longrightarrow> I p"
  by (induction rule: player_reachable.induct) (auto intro: inv_new inv_step)

end

section \<open>Ownership\<close>

definition all_ids :: "'d WaveOutPlayer \<Rightarrow> nat list" where
  "all_ids p = map bf_id (wp_buffers p @ wp_pending p @ wp_orphaned p)"

definition owner_inv :: "'d wave_api \<Rightarrow> 'd WaveOutPlayer \<Rightarrow> bool" where
  "owner_inv A p \<longleftrightarrow> distinct (all_ids p @ wp_freed p) \<and> (\<forall>n\<in>set (all_ids p @ wp_freed p). n < wp_next_id p) \<and>
     wp_leaked p = [] \<and> (\<forall>n. api_holds A (wp_dev p) n \<longrightarrow> n \<in> bf_id ` set (wp_buffers p)) \<and>
     (\<not> wp_handle p \<longrightarrow> wp_buffers p = [] \<or> wp_sink p = MockSink) \<and>
     (wp_sink p \<noteq> WaveOut \<longrightarrow> (\<forall>n. \<not> api_holds A (wp_dev p) n)) \<and>
     (wp_sink p = DisabledSink \<longrightarrow> wp_pending p = [] \<and> wp_buffers p = [])"

lemmas owner_defs = owner_inv_def all_ids_def

lemma owner_inv_update [simp]:
  "owner_inv A (p\<lparr>wp_epoch := e\<rparr>) = owner_inv A p" "owner_inv A (p\<lparr>wp_late := l\<rparr>) = owner_inv A p"
  "owner_inv A (p\<lparr>wp_unhealthy := u\<rparr>) = owner_inv A p" "owner_inv A (p\<lparr>wp_reason := m\<rparr>) = owner_inv A p"
  "owner_inv A (p\<lparr>wp_injected := i\<rparr>) = owner_inv A p" "owner_inv A (p\<lparr>wp_submissions := k\<rparr>) = owner_inv A p"
  "owner_inv A (p\<lparr>wp_format := f\<rparr>) = owner_inv A p" "owner_inv A (p\<lparr>wp_pending_format := pf\<rparr>) = owner_inv A p"
  "owner_inv A (p\<lparr>wp_base := b\<rparr>) = owner_inv A p" "owner_inv A (p\<lparr>wp_base_valid := v\<rparr>) = owner_inv A p"
  "owner_inv A (p\<lparr>wp_started := s\<rparr>) = owner_inv A p" "owner_inv A (p\<lparr>wp_hook := h\<rparr>) = owner_inv A p"
  "owner_inv A (p\<lparr>wp_admitted := a\<rparr>) = owner_inv A p" "owner_inv A (p\<lparr>wp_submitted := sb\<rparr>) = owner_inv A p"
  "owner_inv A (p\<lparr>wp_next_frame := nf\<rparr>) = owner_inv A p" "owner_inv A (become_unhealthy m p) = owner_inv A p"
  by (simp_all add: owner_defs become_unhealthy_def)

lemma owner_inv_device:
  assumes "owner_inv A p" "\<And>n. api_holds A d n \<Longrightarrow> api_holds A (wp_dev p) n"
  shows "owner_inv A (p\<lparr>wp_dev := d\<rparr>)"
  using assms by (auto simp: owner_defs)

lemma owner_reap_loop:
  assumes "wave_contract A"
  shows "owner_inv A (p\<lparr>wp_buffers := kept @ bs\<rparr>) \<Longrightarrow> owner_inv A (snd (reap_loop A now kept bs p))"
proof (induction bs arbitrary: kept p)
  case (Cons b bs)
  have drop: "owner_inv A (p\<lparr>wp_freed := bf_id b # wp_freed p, wp_buffers := kept @ bs\<rparr>)" if "finished A now b p"
  proof -
    have "\<not> api_holds A (wp_dev p) (bf_id b)"
      using that Cons.prems contract(1) [OF assms] by (auto simp: finished_def owner_defs split: if_splits)
    then show ?thesis using Cons.prems by (auto simp: owner_defs)
  qed
  show ?case
  proof (cases "finished A now b p")
    case False
    then show ?thesis using Cons.IH [where p = p and kept = "kept @ [b]"] Cons.prems by simp
  next
    case fin: True
    show ?thesis
    proof (cases "bf_prepared b")
      case False
      then show ?thesis using fin Cons.IH [where p = "p\<lparr>wp_freed := bf_id b # wp_freed p\<rparr>" and kept = kept] drop [OF fin] by simp
    next
      case True
      obtain r q where un: "unprepare_header_or_fail A b p = (r, q)" by (cases "unprepare_header_or_fail A b p")
      obtain d i u m where q: "q = p\<lparr>wp_dev := d, wp_injected := i, wp_unhealthy := u, wp_reason := m\<rparr>"
        and holds: "\<And>n. api_holds A d n \<Longrightarrow> api_holds A (wp_dev p) n"
        using unprepare_cases [OF un] assms by metis
      have "owner_inv A (q\<lparr>wp_freed := bf_id b # wp_freed q, wp_buffers := kept @ bs\<rparr>)"
        using owner_inv_device [OF drop [OF fin], of d] holds by (simp add: q owner_defs)
      then have "owner_inv A (snd (reap_loop A now kept bs (q\<lparr>wp_freed := bf_id b # wp_freed q\<rparr>)))"
        by (intro Cons.IH) (simp add: owner_defs)
      moreover have "owner_inv A (q\<lparr>wp_buffers := kept @ b # bs\<rparr>)"
        using owner_inv_device [OF Cons.prems, of d] holds by (simp add: q owner_defs)
      ultimately show ?thesis using fin True un by (cases r) simp_all
    qed
  qed
qed simp

lemma owner_reap:
  assumes "wave_contract A" "device_runs A rd" "owner_inv A p"
  shows "owner_inv A (snd (reap_finished A rd p))"
proof -
  have "owner_inv A (p\<lparr>wp_dev := rd_run rd (wp_dev p)\<rparr>)"
    using assms(2,3) by (intro owner_inv_device) (auto simp: device_runs_def)
  then show ?thesis unfolding reap_finished_def Let_def by (intro owner_reap_loop [OF assms(1)]) simp
qed
lemma owner_flush_mock:
  "owner_inv A (p\<lparr>wp_pending := bs\<rparr>) \<Longrightarrow> wp_sink p = MockSink \<Longrightarrow> owner_inv A (snd (flush_mock completion bs p))"
proof (induction bs arbitrary: completion p)
  case (Cons b bs)
  obtain c q where a: "should_inject_mock_failure StagePrepare p = (c, q)" by (cases "should_inject_mock_failure StagePrepare p")
  obtain i where q: "q = p\<lparr>wp_injected := i\<rparr>" by (rule inject_cases [OF a])
  obtain c' q' where a': "should_inject_mock_failure StageWrite q = (c', q')" by (cases "should_inject_mock_failure StageWrite q")
  obtain i' where q': "q' = q\<lparr>wp_injected := i'\<rparr>" by (rule inject_cases [OF a'])
  let ?b = "b\<lparr>bf_start_frame := wp_next_frame q', bf_mock_start := Some completion,
    bf_mock_completion := Some (completion + ticks_of_ms (bf_duration_ms b)), bf_prepared := True\<rparr>"
  have "owner_inv A (snd (flush_mock (completion + ticks_of_ms (bf_duration_ms b)) bs
      (submit_buffer ?b bs (q'\<lparr>wp_submissions := wp_submissions q' + 1\<rparr>))))"
    using Cons.prems by (intro Cons.IH) (auto simp: owner_defs submit_buffer_def q q')
  moreover have "owner_inv A (p\<lparr>wp_injected := x, wp_pending := b # bs\<rparr>)" for x
    using Cons.prems by (simp add: owner_defs)
  ultimately show ?case using a a' by (cases c; cases c') (simp_all add: q q' Let_def)
qed (simp add: owner_defs)

lemma owner_submit:
  assumes "owner_inv A (p\<lparr>wp_pending := b # bs\<rparr>)" "wp_sink p = WaveOut" "wp_handle p" "bf_id b' = bf_id b"
    "\<And>n. api_holds A d n \<Longrightarrow> api_holds A (wp_dev p) n \<or> n = bf_id b"
  shows "owner_inv A ((submit_buffer b' bs (p\<lparr>wp_dev := d\<rparr>))\<lparr>wp_pending := bs\<rparr>)"
proof -
  let ?p = "p\<lparr>wp_pending := b # bs\<rparr>" and ?q = "(submit_buffer b' bs (p\<lparr>wp_dev := d\<rparr>))\<lparr>wp_pending := bs\<rparr>"
  have ids: "all_ids ?q = all_ids ?p" using assms(4) by (simp add: all_ids_def submit_buffer_def)
  have other: "wp_freed ?q = wp_freed p" "wp_next_id ?q = wp_next_id p" "wp_leaked ?q = wp_leaked p" "wp_dev ?q = d" "wp_handle ?q"
    "wp_sink ?q = WaveOut" "bf_id ` set (wp_buffers ?q) = insert (bf_id b) (bf_id ` set (wp_buffers p))"
    using assms(2-4) by (simp_all add: submit_buffer_def)
  have held: "n \<in> insert (bf_id b) (bf_id ` set (wp_buffers p))" if "api_holds A d n" for n
    using assms(5) [OF that] assms(1) by (auto simp: owner_inv_def)
  show ?thesis
    unfolding owner_inv_def ids other using assms(1) held other(5) by (simp add: owner_inv_def)
qed

lemma owner_flush_device:
  assumes "wave_contract A"
  shows "owner_inv A (p\<lparr>wp_pending := bs\<rparr>) \<Longrightarrow> wp_sink p = WaveOut \<Longrightarrow> wp_handle p \<Longrightarrow> owner_inv A (snd (flush_device A bs p))"
proof (induction bs arbitrary: p)
  case (Cons b bs)
  obtain x d where pr: "api_prepare A (bf_id b) (wp_dev p) = (x, d)" by (cases "api_prepare A (bf_id b) (wp_dev p)")
  obtain y d' where wr: "api_write A (bf_id b) d = (y, d')" by (cases "api_write A (bf_id b) d")
  let ?b = "b\<lparr>bf_prepared := True\<rparr>"
  have prep: "owner_inv A (p\<lparr>wp_dev := d, wp_pending := b # bs\<rparr>)"
    using owner_inv_device [OF Cons.prems(1), of d] contract(3) [OF assms pr] by (simp add: owner_defs)
  have failed: "owner_inv A (p\<lparr>wp_dev := e, wp_pending := b' # bs\<rparr>)" "owner_inv A (p\<lparr>wp_dev := e, wp_pending := bs, wp_orphaned := wp_orphaned p @ [b']\<rparr>)"
    if "y \<noteq> None" "\<And>n. api_holds A e n \<Longrightarrow> api_holds A d' n" "bf_id b' = bf_id b" for e b'
  proof -
    have less: "api_holds A (wp_dev p) n" if "api_holds A e n" for n
      using \<open>y \<noteq> None\<close> contract(3) [OF assms pr] contract(4) [OF assms wr, of n] \<open>api_holds A e n \<Longrightarrow> api_holds A d' n\<close> that by blast
    have o: "owner_inv A (p\<lparr>wp_pending := b # bs, wp_dev := e\<rparr>)"
      using less by (intro owner_inv_device [OF Cons.prems(1)]) simp
    then show "owner_inv A (p\<lparr>wp_dev := e, wp_pending := b' # bs\<rparr>)" using that(3) by (simp add: owner_defs)
    show "owner_inv A (p\<lparr>wp_dev := e, wp_pending := bs, wp_orphaned := wp_orphaned p @ [b']\<rparr>)"
      using o that(3) by (simp add: owner_defs)
  qed
  have sent: "owner_inv A (snd (flush_device A bs (submit_buffer (?b\<lparr>bf_start_frame := wp_next_frame p\<rparr>) bs (p\<lparr>wp_dev := d'\<rparr>))))"
  proof (intro Cons.IH)
    have "api_holds A (wp_dev p) n \<or> n = bf_id b" if "api_holds A d' n" for n
      using contract(4) [OF assms wr that] contract(3) [OF assms pr] by blast
    then show "owner_inv A ((submit_buffer (?b\<lparr>bf_start_frame := wp_next_frame p\<rparr>) bs (p\<lparr>wp_dev := d'\<rparr>))\<lparr>wp_pending := bs\<rparr>)"
      using Cons.prems by (intro owner_submit) simp_all
  qed (use Cons.prems in \<open>simp_all add: submit_buffer_def\<close>)
  obtain r q where un: "unprepare_header_or_fail A ?b (p\<lparr>wp_dev := d'\<rparr>) = (r, q)"
    by (cases "unprepare_header_or_fail A ?b (p\<lparr>wp_dev := d'\<rparr>)")
  obtain e i u m where q: "q = p\<lparr>wp_dev := e, wp_injected := i, wp_unhealthy := u, wp_reason := m\<rparr>"
    and holds: "\<And>n. api_holds A e n \<Longrightarrow> api_holds A d' n" and b': "\<And>b'. r = Inr b' \<Longrightarrow> bf_id b' = bf_id b"
  proof (rule unprepare_cases [OF un])
    fix e i u m
    assume *: "q = p\<lparr>wp_dev := d', wp_dev := e, wp_injected := i, wp_unhealthy := u, wp_reason := m\<rparr>"
      "\<And>n. wave_contract A \<Longrightarrow> api_holds A e n \<Longrightarrow> api_holds A (wp_dev (p\<lparr>wp_dev := d'\<rparr>)) n"
      "\<And>b'. r = Inr b' \<Longrightarrow> b' = ?b\<lparr>bf_prepared := False\<rparr> \<and> u = wp_unhealthy (p\<lparr>wp_dev := d'\<rparr>)"
    show ?thesis by (rule that [of m u i e]) (use * assms in auto)
  qed
  show ?case
  proof (cases x)
    case (Some msg)
    then show ?thesis using pr prep by simp
  next
    case ok: None
    show ?thesis
    proof (cases y)
      case None
      then show ?thesis using ok pr wr sent by (simp add: Let_def)
    next
      case (Some msg)
      have "owner_inv A (q\<lparr>wp_pending := b' # bs\<rparr>)" if "r = Inr b'" for b'
        using failed(1) [of e b'] holds b' [OF that] Some by (simp add: q owner_defs)
      moreover have "owner_inv A (q\<lparr>wp_pending := bs, wp_orphaned := wp_orphaned q @ [?b]\<rparr>)"
        using failed(2) [of e ?b] holds Some by (simp add: q owner_defs)
      ultimately show ?thesis using ok Some pr wr un by (cases r) (simp_all add: Let_def)
    qed
  qed
qed (simp add: owner_defs)

lemma owner_set_base: "owner_inv A (set_position_base rd p) = owner_inv A p"
  by (simp add: set_position_base_def Let_def)

lemma set_base_fields:
  "wp_sink (set_position_base rd p) = wp_sink p" "wp_handle (set_position_base rd p) = wp_handle p"
  "wp_pending (set_position_base rd p) = wp_pending p"
  by (simp_all add: set_position_base_def Let_def)

lemma open_cases:
  assumes "open_or_validate A f p = (r, q)"
  obtains d h g where "q = p\<lparr>wp_dev := d, wp_handle := h, wp_format := g\<rparr>"
    "\<And>n. wave_contract A \<Longrightarrow> api_holds A d n \<Longrightarrow> api_holds A (wp_dev p) n" "wp_handle p \<longrightarrow> h" "\<And>u. r = Inr u \<Longrightarrow> h"
    "g = (if h \<and> \<not> wp_handle p then f else wp_format p)"
proof (cases "wp_handle p")
  case True
  then show ?thesis
    using that [where d = "wp_dev p" and h = True and g = "wp_format p"] assms by (auto simp: open_or_validate_def split: if_splits)
next
  case False
  obtain x d where op: "api_open A f (wp_dev p) = (x, d)" by (cases "api_open A f (wp_dev p)")
  have holds: "api_holds A (wp_dev p) n" if "wave_contract A" "api_holds A d n" for n
    using contract(2) [OF that(1) op that(2)] .
  show ?thesis
  proof (cases x)
    case None
    then show ?thesis
      using that [where d = d and h = True and g = f] assms False op holds by (auto simp: open_or_validate_def)
  next
    case (Some e)
    then show ?thesis
      using that [where d = d and h = False and g = "wp_format p"] assms False op holds by (auto simp: open_or_validate_def)
  qed
qed

lemma owner_flush:
  assumes "wave_contract A" "owner_inv A p" "wp_sink p \<noteq> DisabledSink"
  shows "owner_inv A (snd (flush_pending A rd p))"
proof -
  have mock: "owner_inv A (snd (flush_mock c (wp_pending p) (p\<lparr>wp_format := f\<rparr>)))" if "wp_sink p = MockSink" for c f
    using assms(2) that by (intro owner_flush_mock) (simp_all add: owner_defs)
  have dev: "owner_inv A (snd (case open_or_validate A f p of (Inl e, q) \<Rightarrow> (Inl e, q)
      | (Inr _, q) \<Rightarrow> flush_device A (wp_pending q) (set_position_base rd q)))" if "wp_sink p = WaveOut" for f
  proof -
    obtain r q where op: "open_or_validate A f p = (r, q)" by (cases "open_or_validate A f p")
    obtain d h g where q: "q = p\<lparr>wp_dev := d, wp_handle := h, wp_format := g\<rparr>"
      and holds: "\<And>n. api_holds A d n \<Longrightarrow> api_holds A (wp_dev p) n" and h: "wp_handle p \<longrightarrow> h" "\<And>u. r = Inr u \<Longrightarrow> h"
      by (rule open_cases [OF op]) (use assms(1) in blast)
    have o: "owner_inv A q" using owner_inv_device [OF assms(2), of d] holds h(1) by (auto simp: q owner_defs)
    have "owner_inv A (snd (flush_device A (wp_pending q) (set_position_base rd q)))" if "r = Inr u" for u
      using o h(2) [OF that] \<open>wp_sink p = WaveOut\<close>
      by (intro owner_flush_device [OF assms(1)]) (simp_all add: set_base_fields q set_position_base_def Let_def owner_defs)
    then show ?thesis using o op by (cases r) simp_all
  qed
  show ?thesis
    using assms(2,3) mock dev by (cases "wp_sink p") (simp_all add: flush_pending_def)
qed

lemma make_buffer_id: "make_buffer n chunk = Inr b \<Longrightarrow> bf_id b = n"
  by (auto simp: make_buffer_def and_then_Inr_conv)

lemma owner_push:
  assumes "owner_inv A p" "bf_id b = wp_next_id p" "wp_sink p \<noteq> DisabledSink"
  shows "owner_inv A (p\<lparr>wp_next_id := wp_next_id p + 1, wp_pending := wp_pending p @ [b], wp_admitted := c\<rparr>)"
proof -
  have lt: "n < wp_next_id p" if "n \<in> set (all_ids p @ wp_freed p)" for n using assms(1) that unfolding owner_inv_def by blast
  then have new: "wp_next_id p \<notin> set (all_ids p @ wp_freed p)" by blast
  have lt': "n < Suc (wp_next_id p)" if "n \<in> set (all_ids p @ wp_freed p)" for n using lt [OF that] by simp
  show ?thesis using assms lt' new by (simp add: owner_defs ball_Un)
qed

lemma owner_admit:
  assumes A: "wave_contract A" "device_runs A rd" and p: "owner_inv A p" "wp_sink p \<noteq> DisabledSink"
  shows "owner_inv A (snd (admit_chunk A rd rd' chunk p))"
  unfolding admit_chunk_def
proof (rule section_then)
  show "owner_inv A (snd (reap_finished A rd p))" by (rule owner_reap [OF A p(1)])
next
  fix x q assume q: "reap_finished A rd p = (Inr x, q)" "owner_inv A q"
  have sq: "wp_sink q \<noteq> DisabledSink" using reap_finished_sink [OF q(1)] p(2) by simp
  show "owner_inv A (snd (case validate_pending_format (pcm_format chunk) q of (Inl e, p) \<Rightarrow> (Inl e, p)
      | (Inr _, p) \<Rightarrow> (case make_buffer (wp_next_id p) chunk of Inl e \<Rightarrow> (Inl e, p)
          | Inr b \<Rightarrow> let p = p\<lparr>wp_next_id := wp_next_id p + 1, wp_pending := wp_pending p @ [b], wp_admitted := wp_admitted p @ [chunk]\<rparr>
              in if wp_started p \<or> wp_prebuffer p \<le> length (wp_pending p) then flush_pending A rd' p else (Inr (), p))))"
  proof (rule section_then)
    obtain r v where v: "validate_pending_format (pcm_format chunk) q = (r, v)" by (cases "validate_pending_format (pcm_format chunk) q")
    obtain g where g: "v = q\<lparr>wp_pending_format := g\<rparr>" by (rule validate_cases [OF v])
    show "owner_inv A (snd (validate_pending_format (pcm_format chunk) q))" using v g q(2) by simp
    fix y w assume w: "validate_pending_format (pcm_format chunk) q = (Inr y, w)" "owner_inv A w"
    obtain g' where "w = q\<lparr>wp_pending_format := g'\<rparr>" by (rule validate_cases [OF w(1)])
    then have sw: "wp_sink w \<noteq> DisabledSink" using sq by simp
    have "owner_inv A (w\<lparr>wp_next_id := wp_next_id w + 1, wp_pending := wp_pending w @ [b], wp_admitted := wp_admitted w @ [chunk]\<rparr>)"
      if "make_buffer (wp_next_id w) chunk = Inr b" for b
      by (rule owner_push [OF w(2) make_buffer_id [OF that] sw])
    then show "owner_inv A (snd (case make_buffer (wp_next_id w) chunk of Inl e \<Rightarrow> (Inl e, w)
          | Inr b \<Rightarrow> let p = w\<lparr>wp_next_id := wp_next_id w + 1, wp_pending := wp_pending w @ [b], wp_admitted := wp_admitted w @ [chunk]\<rparr>
              in if wp_started p \<or> wp_prebuffer p \<le> length (wp_pending p) then flush_pending A rd' p else (Inr (), p)))"
      using w(2) sw owner_flush [OF A(1)] by (simp add: Let_def split: sum.split)
  qed
qed

lemma owner_new:
  "new_player dev sink n fa st = Inr p \<Longrightarrow> \<forall>n. \<not> api_holds A dev n \<Longrightarrow> owner_inv A p"
  by (auto simp: new_player_def owner_defs split: if_splits)

lemma owner_position: "owner_inv A (reset_stream_position rd p) = owner_inv A p"
  by (simp add: reset_stream_position_def split: option.split)

lemma owner_clear_pending: "owner_inv A p \<Longrightarrow> owner_inv A (clear_pending p)"
proof -
  assume o: "owner_inv A p"
  have "distinct (all_ids (clear_pending p) @ wp_freed (clear_pending p)) = distinct (all_ids p @ wp_freed p)"
    "set (all_ids (clear_pending p) @ wp_freed (clear_pending p)) = set (all_ids p @ wp_freed p)"
    by (auto simp: all_ids_def clear_pending_def)
  then show ?thesis using o unfolding owner_inv_def by (simp add: clear_pending_def)
qed

lemma owner_free_mock:
  assumes "owner_inv A p" "wp_sink p = MockSink"
  shows "owner_inv A (p\<lparr>wp_freed := map bf_id (wp_buffers p) @ wp_freed p, wp_buffers := []\<rparr>)"
proof -
  let ?q = "p\<lparr>wp_freed := map bf_id (wp_buffers p) @ wp_freed p, wp_buffers := []\<rparr>"
  have "distinct (all_ids ?q @ wp_freed ?q) = distinct (all_ids p @ wp_freed p)"
    "set (all_ids ?q @ wp_freed ?q) = set (all_ids p @ wp_freed p)"
    by (auto simp: all_ids_def)
  then show ?thesis using assms unfolding owner_inv_def by simp
qed

interpretation owner: player_invariant A "\<lambda>p. wave_contract A \<longrightarrow> owner_inv A p" for A
proof
  fix p :: "'a WaveOutPlayer" and rd rd' :: "'a Reading" and chunk
  assume I: "wave_contract A \<longrightarrow> owner_inv A p"
  show "device_runs A rd \<Longrightarrow> wave_contract A \<longrightarrow> owner_inv A (p\<lparr>wp_dev := rd_run rd (wp_dev p)\<rparr>)"
    using I by (auto intro: owner_inv_device simp: device_runs_def)
  show "device_runs A rd \<Longrightarrow> wave_contract A \<longrightarrow> owner_inv A (snd (reap_finished A rd p))"
    using I owner_reap by blast
  show "device_runs A rd \<Longrightarrow> wp_sink p \<noteq> DisabledSink \<Longrightarrow> wave_contract A \<longrightarrow> owner_inv A (snd (admit_chunk A rd rd' chunk p))"
    using I owner_admit by blast
  show "wp_sink p \<noteq> DisabledSink \<Longrightarrow> wave_contract A \<longrightarrow> owner_inv A (snd (flush_pending A rd p))"
    using I owner_flush by blast
  show "wave_contract A \<longrightarrow> owner_inv A (p\<lparr>wp_dev := snd (api_reset A (wp_dev p))\<rparr>)"
    using I contract(6) [OF _ prod.collapse [symmetric]] by (auto intro!: owner_inv_device)
  show "wp_buffers p = [] \<or> wp_sink p = WaveOut \<and> \<not> wp_handle p \<Longrightarrow>
      wave_contract A \<longrightarrow> owner_inv A (reset_stream_position rd ((clear_pending p)\<lparr>wp_started := False\<rparr>))"
    using I by (simp add: owner_position owner_clear_pending)
  show "wp_sink p = MockSink \<Longrightarrow> wave_contract A \<longrightarrow> owner_inv A (reset_stream_position rd
      ((clear_pending (p\<lparr>wp_freed := map bf_id (wp_buffers p) @ wp_freed p, wp_buffers := []\<rparr>))\<lparr>wp_started := False\<rparr>))"
    using I by (simp add: owner_position owner_clear_pending owner_free_mock)
qed (simp_all add: owner_new owner_position)

section \<open>Storage and the driver\<close>

lemma abandon_freed [simp]:
  "wp_freed (abandon_driver_owned_resources p) = wp_freed p" "wp_dev (abandon_driver_owned_resources p) = wp_dev p"
  "wp_buffers (abandon_driver_owned_resources p) = []" "wp_pending (abandon_driver_owned_resources p) = []"
  "wp_orphaned (abandon_driver_owned_resources p) = []"
  by (simp_all add: abandon_driver_owned_resources_def)

lemma owner_freed:
  assumes "owner_inv A p" "n \<in> set (wp_freed p)"
  shows "\<not> api_holds A (wp_dev p) n"
proof
  assume "api_holds A (wp_dev p) n"
  then have "n \<in> bf_id ` set (wp_buffers p)" using assms(1) unfolding owner_inv_def by blast
  then have "n \<in> set (all_ids p)" by (auto simp: all_ids_def)
  then show False using assms unfolding owner_inv_def by auto
qed

lemma close_keeps_storage:
  assumes A: "wave_contract A" and o: "owner_inv A p" and n: "n \<in> set (wp_freed (destroy_members (close_section A ok p)))"
  shows "\<not> api_holds A (wp_dev (close_section A ok p)) n"
proof -
  define p1 where "p1 = (case (if wp_sink p = MockSink then should_inject_mock_failure StageClose p else (False, p)) of
      (True, p) \<Rightarrow> become_unhealthy ''injected mock waveOutClose failure'' p | (False, p) \<Rightarrow> p)"
  define p2 where "p2 = (if ok then p1 else p1\<lparr>wp_unhealthy := True,
      wp_reason := if wp_reason p1 = [] then ''default audio playback teardown failed'' else wp_reason p1\<rparr>)"
  have "owner_inv A p1"
  proof -
    obtain c q where a: "should_inject_mock_failure StageClose p = (c, q)" by (cases "should_inject_mock_failure StageClose p")
    obtain i where "q = p\<lparr>wp_injected := i\<rparr>" by (rule inject_cases [OF a])
    then show ?thesis using o a by (cases c) (simp_all add: p1_def)
  qed
  then have o2: "owner_inv A p2" by (simp add: p2_def)
  have cs: "close_section A ok p = (if wp_unhealthy p2 then abandon_driver_owned_resources p2
      else if wp_handle p2 then (case api_close A (wp_dev p2) of
        (Some e, d) \<Rightarrow> abandon_driver_owned_resources (become_unhealthy (mm_error ''waveOutClose'' e) (p2\<lparr>wp_dev := d\<rparr>))
      | (None, d) \<Rightarrow> p2\<lparr>wp_dev := d, wp_handle := False\<rparr>) else p2)"
    by (simp add: close_section_def p1_def [symmetric] p2_def [symmetric])
  obtain x d where cl: "api_close A (wp_dev p2) = (x, d)" by (cases "api_close A (wp_dev p2)")
  have none: "\<not> api_holds A (wp_dev p2) m" if "\<not> wp_handle p2" for m
    using o2 that unfolding owner_inv_def by (cases "wp_sink p2") auto
  have od: "owner_inv A (p2\<lparr>wp_dev := d\<rparr>)" using owner_inv_device [OF o2, of d] contract(7) [OF A cl] by blast
  consider "wp_unhealthy p2" | "\<not> wp_unhealthy p2" "wp_handle p2" "x \<noteq> None" | "\<not> wp_unhealthy p2" "wp_handle p2" "x = None"
    | "\<not> wp_unhealthy p2" "\<not> wp_handle p2" by blast
  then show ?thesis
  proof cases
    case 1
    then show ?thesis using n owner_freed [OF o2] by (simp add: cs destroy_members_def)
  next
    case 2
    then show ?thesis using n owner_freed [OF od] cl by (auto simp: cs destroy_members_def become_unhealthy_def)
  next
    case 3
    then show ?thesis using contract(7) [OF A cl, of n] cl by (auto simp: cs)
  next
    case 4
    then show ?thesis using none by (simp add: cs)
  qed
qed

text \<open>C13. The storage of a buffer is never destroyed while the driver may use it. In every schedule of
  enqueueing, resetting, interrupting and waiting threads, whatever calls of the device fail: no
  destroyed buffer is in the driver's hands, and this also holds when the destructor, after a reset that
  succeeded or not, has destroyed the members of the player.\<close>

theorem driver_buffers_outlive_use:
  assumes "wave_contract A" and "player_reachable A p"
  shows "(\<forall>n. n \<in> set (wp_freed p) \<longrightarrow> \<not> api_holds A (wp_dev p) n) \<and>
     (\<forall>n ok. n \<in> set (wp_freed (destroy_members (close_section A ok p))) \<longrightarrow>
        \<not> api_holds A (wp_dev (close_section A ok p)) n)"
proof -
  have o: "owner_inv A p" using owner.inv_reachable [OF assms(2)] assms(1) by blast
  show ?thesis using owner_freed [OF o] close_keeps_storage [OF assms(1) o] by blast
qed

text \<open>A device that plays one buffer after another and accepts a limited number of writes.\<close>

record QueueDevice =
  qd_queue :: "nat list"
  qd_writes :: nat

definition queue_device :: "QueueDevice wave_api" where
  "queue_device = \<lparr>api_open = (\<lambda>f d. (None, d)), api_prepare = (\<lambda>i d. (None, d)),
     api_write = (\<lambda>i d. if qd_writes d = 0 then (Some ''full'', d)
       else (None, d\<lparr>qd_queue := qd_queue d @ [i], qd_writes := qd_writes d - 1\<rparr>)),
     api_unprepare = (\<lambda>i d. if i \<in> set (qd_queue d) then (Some ''still playing'', d) else (None, d)),
     api_reset = (\<lambda>d. (None, d\<lparr>qd_queue := []\<rparr>)),
     api_close = (\<lambda>d. if qd_queue d = [] then (None, d) else (Some ''still playing'', d)),
     api_done = (\<lambda>d i. i \<notin> set (qd_queue d)), api_holds = (\<lambda>d i. i \<in> set (qd_queue d))\<rparr>"

lemma queue_device_contract: "wave_contract queue_device"
  by (auto simp: wave_contract_def queue_device_def)

definition idle_reading :: "QueueDevice Reading" where
  "idle_reading = \<lparr>rd_now = 0, rd_pos = Some 0, rd_run = (\<lambda>d. d)\<rparr>"

definition mono_chunk :: PcmChunk where
  "mono_chunk = \<lparr>pcm_request_id = 7, pcm_format = \<lparr>sample_format = ''s16le'', sample_rate = 24000, channels = 1\<rparr>,
     pcm_bytes = [1, 2, 3, 4], first_sample = 0, sample_count = 2\<rparr>"

definition fresh_player :: "QueueDevice WaveOutPlayer" where
  "fresh_player = (case new_player \<lparr>qd_queue = [], qd_writes = 1\<rparr> WaveOut 1 None None of Inr p \<Rightarrow> p)"

definition playing_player :: "QueueDevice WaveOutPlayer" where
  "playing_player = snd (enqueue_first queue_device (\<lambda>_. idle_reading) 1 mono_chunk fresh_player)"

lemma playing_reachable: "player_reachable queue_device playing_player"
proof -
  have "player_reachable queue_device fresh_player"
    by (rule player_new [of "\<lparr>qd_queue = [], qd_writes = 1\<rparr>" WaveOut 1 None None])
      (simp_all add: fresh_player_def new_player_def queue_device_def)
  moreover have "player_step queue_device fresh_player playing_player"
    unfolding playing_player_def by (rule step_enqueue) (simp add: device_runs_def idle_reading_def)
  ultimately show ?thesis by (rule player_next)
qed

text \<open>The definitions that a run of the sample player evaluates.\<close>

lemmas sample_player_defs =
  playing_player_def enqueue_first_def enqueue_check_def mono_chunk_def throw_if_unhealthy_def enqueue_round_def
  fresh_player_def new_player_def admit_chunk_def reap_finished_def validate_pending_format_def make_buffer_def
  pcm_frame_count_def pcm_frame_bytes_def pcm_duration_ms_def flush_pending_def open_or_validate_def queue_device_def Let_def
  idle_reading_def set_position_base_def device_position_def submit_buffer_def

lemma playing_state:
  "api_holds queue_device (wp_dev playing_player) 0" "map bf_bytes (wp_buffers playing_player) = [[1, 2, 3, 4]]"
  by (simp_all add: sample_player_defs)

definition silenced_player :: "QueueDevice WaveOutPlayer" where
  "silenced_player = snd (reset_first queue_device (\<lambda>_. idle_reading) False playing_player)"

lemma silenced_reachable: "player_reachable queue_device silenced_player"
  unfolding silenced_player_def
  by (rule player_next [OF playing_reachable step_reset]) (simp add: device_runs_def idle_reading_def)

lemma silenced_state: "wp_freed silenced_player = [0]"
  by (simp add: sample_player_defs silenced_player_def reset_first_def reset_go_def reset_loop_def reset_finish_def
      next_epoch_def reset_stream_position_def clear_pending_def finished_def unprepare_header_or_fail_def)

text \<open>No destroyed buffer is with the device while it plays the first one, and neither way of closing the
  player changes that; the reset takes the first buffer back before the player destroys it.\<close>

theorem driver_buffers_outlive_use_witness:
  "api_holds queue_device (wp_dev playing_player) 0 \<and>
   set (wp_freed playing_player) \<inter> {n. api_holds queue_device (wp_dev playing_player) n} = {} \<and>
   set (wp_freed (destroy_members (close_section queue_device True playing_player))) \<inter>
     {n. api_holds queue_device (wp_dev (close_section queue_device True playing_player)) n} = {} \<and>
   set (wp_freed (destroy_members (close_section queue_device False playing_player))) \<inter>
     {n. api_holds queue_device (wp_dev (close_section queue_device False playing_player)) n} = {} \<and>
   wp_freed silenced_player = [0] \<and> \<not> api_holds queue_device (wp_dev silenced_player) 0"
  using driver_buffers_outlive_use [OF queue_device_contract playing_reachable]
    driver_buffers_outlive_use [OF queue_device_contract silenced_reachable] playing_state(1) silenced_state
  by auto

end
