(* ===== verification/Player_Stream.thy ===== *)
theory Player_Stream
  imports Player_Ownership "HOL-Library.Sublist"
begin

text \<open>
  What reaches the device: the admitted chunks, each once and in order, at consecutive positions of the
  stream, whatever calls of the device fail and however the threads are scheduled; and what an
  interruption therefore plays.
\<close>

section \<open>The invariant\<close>

text \<open>What a buffer carries of its chunk.\<close>

definition carried :: "WaveBuffer \<Rightarrow> RequestId \<times> u64 \<times> byte list" where
  "carried b = (bf_request_id b, bf_utterance_first_sample b, bf_bytes b)"

definition carries :: "PcmChunk \<Rightarrow> RequestId \<times> u64 \<times> byte list" where
  "carries c = (pcm_request_id c, first_sample c, pcm_bytes c)"

definition framed :: "AudioFormat \<Rightarrow> WaveBuffer \<Rightarrow> bool" where
  "framed f b \<longleftrightarrow> sample_format f = ''s16le'' \<and> sample_rate f \<noteq> 0 \<and> channels f \<noteq> 0 \<and>
     length (bf_bytes b) mod (unat (channels f) * 2) = 0 \<and>
     bf_frame_count b = of_nat (length (bf_bytes b) div (unat (channels f) * 2))"

text \<open>Buffers at consecutive positions.\<close>

fun placed :: "u64 \<Rightarrow> WaveBuffer list \<Rightarrow> u64 \<Rightarrow> bool" where
  "placed s [] e \<longleftrightarrow> s = e"
| "placed s (b # bs) e \<longleftrightarrow> bf_start_frame b = s \<and> placed (s + bf_frame_count b) bs e"

lemma placed_append: "placed s (bs @ [b]) e \<longleftrightarrow> placed s bs (bf_start_frame b) \<and> e = bf_start_frame b + bf_frame_count b"
  by (induction bs arbitrary: s) auto

definition opened :: "'d WaveOutPlayer \<Rightarrow> bool" where
  "opened p \<longleftrightarrow> wp_handle p \<or> wp_sink p = MockSink \<and> wp_started p"

definition formats_inv :: "'d WaveOutPlayer \<Rightarrow> bool" where
  "formats_inv p \<longleftrightarrow>
     (opened p \<longrightarrow> (\<forall>b\<in>set (wp_submitted p @ wp_pending p). framed (wp_format p) b)) \<and>
     (\<not> opened p \<longrightarrow> wp_submitted p = [] \<and>
        (wp_pending p \<noteq> [] \<longrightarrow> (\<exists>f. wp_pending_format p = Some f \<and> (\<forall>b\<in>set (wp_pending p). framed f b))))"

definition playout_inv :: "'d WaveOutPlayer \<Rightarrow> bool" where
  "playout_inv p \<longleftrightarrow>
     (wp_unhealthy p \<or> map carried (wp_submitted p @ wp_pending p) = map carries (wp_admitted p)) \<and>
     placed 0 (wp_submitted p) (wp_next_frame p) \<and> subseq (wp_buffers p) (wp_submitted p) \<and>
     (wp_sink p \<noteq> WaveOut \<longrightarrow> \<not> wp_handle p) \<and> (wp_sink p = DisabledSink \<longrightarrow> wp_pending p = []) \<and>
     (wp_sink p = MockSink \<and> wp_started p \<and> wp_pending_format p \<noteq> None \<longrightarrow> wp_pending_format p = Some (wp_format p)) \<and>
     formats_inv p"

lemmas stream_defs = playout_inv_def formats_inv_def opened_def

lemma stream_update [simp]:
  "playout_inv (p\<lparr>wp_epoch := e\<rparr>) = playout_inv p" "playout_inv (p\<lparr>wp_late := l\<rparr>) = playout_inv p"
  "playout_inv (p\<lparr>wp_reason := m\<rparr>) = playout_inv p" "playout_inv (p\<lparr>wp_injected := i\<rparr>) = playout_inv p"
  "playout_inv (p\<lparr>wp_submissions := k\<rparr>) = playout_inv p" "playout_inv (p\<lparr>wp_dev := d\<rparr>) = playout_inv p"
  "playout_inv (p\<lparr>wp_base := b\<rparr>) = playout_inv p" "playout_inv (p\<lparr>wp_base_valid := v\<rparr>) = playout_inv p"
  "playout_inv (p\<lparr>wp_hook := h\<rparr>) = playout_inv p" "playout_inv (p\<lparr>wp_freed := fr\<rparr>) = playout_inv p"
  "playout_inv (p\<lparr>wp_next_id := n\<rparr>) = playout_inv p" "playout_inv (p\<lparr>wp_orphaned := ob\<rparr>) = playout_inv p"
  by (simp_all add: stream_defs)

lemma stream_unhealthy: "playout_inv p \<Longrightarrow> u \<or> \<not> wp_unhealthy p \<Longrightarrow> playout_inv (p\<lparr>wp_unhealthy := u\<rparr>)"
  by (auto simp: stream_defs)

lemma formats_match_eq: "formats_match l r \<longleftrightarrow> l = r"
  by (cases l; cases r) (auto simp: formats_match_def)

section \<open>Sections\<close>

lemma reap_loop_cases:
  "\<exists>bs' d i u m fr. snd (reap_loop A now kept bs p) =
       p\<lparr>wp_buffers := kept @ bs', wp_dev := d, wp_injected := i, wp_unhealthy := u, wp_reason := m, wp_freed := fr\<rparr> \<and>
     subseq bs' bs \<and> (wp_unhealthy p \<longrightarrow> u)"
proof (induction bs arbitrary: kept p)
  case Nil
  have "snd (reap_loop A now kept [] p) = p\<lparr>wp_buffers := kept @ [], wp_dev := wp_dev p, wp_injected := wp_injected p,
      wp_unhealthy := wp_unhealthy p, wp_reason := wp_reason p, wp_freed := wp_freed p\<rparr>" by simp
  then show ?case by blast
next
  case (Cons b bs)
  have dropped: ?case if "snd (reap_loop A now kept (b # bs) p) = snd (reap_loop A now kept bs q)"
    "q = p\<lparr>wp_dev := d, wp_injected := i, wp_unhealthy := u, wp_reason := m, wp_freed := fr\<rparr>" "wp_unhealthy p \<longrightarrow> u" for q d i u m fr
  proof -
    obtain bs' d' i' u' m' fr' where c: "snd (reap_loop A now kept bs q) =
        q\<lparr>wp_buffers := kept @ bs', wp_dev := d', wp_injected := i', wp_unhealthy := u', wp_reason := m', wp_freed := fr'\<rparr>"
      "subseq bs' bs" "wp_unhealthy q \<longrightarrow> u'" using Cons.IH [of kept q] by blast
    have "snd (reap_loop A now kept (b # bs) p) =
        p\<lparr>wp_buffers := kept @ bs', wp_dev := d', wp_injected := i', wp_unhealthy := u', wp_reason := m', wp_freed := fr'\<rparr>"
      using that(1) c(1) by (simp add: that(2))
    moreover have "subseq bs' (b # bs)" using c(2) by (rule list_emb_Cons)
    moreover have "wp_unhealthy p \<longrightarrow> u'" using c(3) that(2,3) by simp
    ultimately show ?thesis by blast
  qed
  show ?case
  proof (cases "finished A now b p")
    case False
    obtain bs' d i u m fr where c: "snd (reap_loop A now (kept @ [b]) bs p) =
        p\<lparr>wp_buffers := (kept @ [b]) @ bs', wp_dev := d, wp_injected := i, wp_unhealthy := u, wp_reason := m, wp_freed := fr\<rparr>"
      "subseq bs' bs" "wp_unhealthy p \<longrightarrow> u" using Cons.IH [of "kept @ [b]" p] by blast
    then have "snd (reap_loop A now kept (b # bs) p) =
        p\<lparr>wp_buffers := kept @ b # bs', wp_dev := d, wp_injected := i, wp_unhealthy := u, wp_reason := m, wp_freed := fr\<rparr>"
      using False by simp
    then show ?thesis using c(2,3) by (blast intro: subseq_Cons2)
  next
    case fin: True
    show ?thesis
    proof (cases "bf_prepared b")
      case False
      then show ?thesis
        using fin by (intro dropped [where q = "p\<lparr>wp_freed := bf_id b # wp_freed p\<rparr>" and d = "wp_dev p" and i = "wp_injected p"
            and u = "wp_unhealthy p" and m = "wp_reason p"]) simp_all
    next
      case True
      obtain r q where un: "unprepare_header_or_fail A b p = (r, q)" by (cases "unprepare_header_or_fail A b p")
      obtain d i u m where q: "q = p\<lparr>wp_dev := d, wp_injected := i, wp_unhealthy := u, wp_reason := m\<rparr>"
        and ok: "\<And>b'. r = Inr b' \<Longrightarrow> u = wp_unhealthy p" and bad: "\<And>e. r = Inl e \<Longrightarrow> u"
        by (rule unprepare_cases [OF un]) blast
      show ?thesis
      proof (cases r)
        case (Inl e)
        then have "snd (reap_loop A now kept (b # bs) p) =
            p\<lparr>wp_buffers := kept @ b # bs, wp_dev := d, wp_injected := i, wp_unhealthy := u, wp_reason := m, wp_freed := wp_freed p\<rparr>"
          using fin True un by (simp add: q)
        then show ?thesis using bad [OF Inl] by blast
      next
        case (Inr b')
        then show ?thesis
          using fin True un ok [OF Inr] by (intro dropped [where q = "q\<lparr>wp_freed := bf_id b # wp_freed q\<rparr>" and d = d
            and i = i and u = u and m = m and fr = "bf_id b # wp_freed p"]) (simp_all add: q)
      qed
    qed
  qed
qed

lemma reap_cases:
  obtains bs d i u m fr where "snd (reap_finished A rd p) =
      p\<lparr>wp_buffers := bs, wp_dev := d, wp_injected := i, wp_unhealthy := u, wp_reason := m, wp_freed := fr\<rparr>"
    "subseq bs (wp_buffers p)" "wp_unhealthy p \<longrightarrow> u"
proof -
  obtain bs d i u m fr where "snd (reap_loop A (rd_now rd) [] (wp_buffers p) (p\<lparr>wp_dev := rd_run rd (wp_dev p)\<rparr>)) =
      p\<lparr>wp_dev := rd_run rd (wp_dev p), wp_buffers := [] @ bs, wp_dev := d, wp_injected := i, wp_unhealthy := u, wp_reason := m, wp_freed := fr\<rparr>"
    "subseq bs (wp_buffers p)" "wp_unhealthy (p\<lparr>wp_dev := rd_run rd (wp_dev p)\<rparr>) \<longrightarrow> u"
    using reap_loop_cases [of A "rd_now rd" "[]" "wp_buffers p" "p\<lparr>wp_dev := rd_run rd (wp_dev p)\<rparr>"] by blast
  then show ?thesis by (intro that [where bs = bs and d = d and i = i and u = u and m = m and fr = fr]) (simp_all add: reap_finished_def)
qed

lemma stream_reap:
  assumes "playout_inv p"
  shows "playout_inv (snd (reap_finished A rd p))"
proof -
  obtain bs d i u m fr where q: "snd (reap_finished A rd p) =
      p\<lparr>wp_buffers := bs, wp_dev := d, wp_injected := i, wp_unhealthy := u, wp_reason := m, wp_freed := fr\<rparr>"
    "subseq bs (wp_buffers p)" "wp_unhealthy p \<longrightarrow> u" by (rule reap_cases)
  have "subseq bs (wp_submitted p)" using q(2) assms by (auto simp: playout_inv_def intro: subseq_order.trans)
  then show ?thesis unfolding q(1) using assms q(3) by (auto simp: stream_defs)
qed
text \<open>A buffer that is submitted carries on the stream.\<close>

lemma stream_submit:
  assumes p: "playout_inv (p\<lparr>wp_pending := b # bs\<rparr>)" and op: "wp_handle p \<or> wp_sink p = MockSink"
    and f: "\<forall>c\<in>set (b # bs). framed (wp_format p) c" and pf: "wp_sink p = MockSink \<longrightarrow> wp_pending_format p = Some (wp_format p)"
    and b': "b' = b\<lparr>bf_prepared := pr, bf_start_frame := wp_next_frame p, bf_mock_start := ms, bf_mock_completion := mc\<rparr>"
  shows "playout_inv ((submit_buffer b' bs (p\<lparr>wp_dev := d, wp_submissions := k\<rparr>))\<lparr>wp_pending := bs\<rparr>)"
proof -
  let ?q = "(submit_buffer b' bs (p\<lparr>wp_dev := d, wp_submissions := k\<rparr>))\<lparr>wp_pending := bs\<rparr>"
  have eq: "carried b' = carried b" "framed (wp_format p) b' = framed (wp_format p) b" "bf_start_frame b' = wp_next_frame p"
    by (simp_all add: b' carried_def framed_def)
  have sub: "\<forall>c\<in>set (wp_submitted p). framed (wp_format p) c" using p by (auto simp: stream_defs split: if_splits)
  have st: "(wp_unhealthy p \<or> map carried (wp_submitted p @ b # bs) = map carries (wp_admitted p))"
    "placed 0 (wp_submitted p) (wp_next_frame p)" "subseq (wp_buffers p) (wp_submitted p)" "wp_sink p \<noteq> WaveOut \<longrightarrow> \<not> wp_handle p"
    "wp_sink p \<noteq> DisabledSink"
    using p op by (auto simp: playout_inv_def)
  have "formats_inv ?q" using f sub op eq(2) by (auto simp: formats_inv_def opened_def submit_buffer_def)
  moreover have "subseq (wp_buffers p @ [b']) (wp_submitted p @ [b'])" using st(3) by (rule list_emb_append_mono) simp
  ultimately show ?thesis using st eq pf by (simp add: playout_inv_def submit_buffer_def placed_append)
qed

lemma stream_flush_mock:
  assumes "playout_inv (p\<lparr>wp_pending := bs\<rparr>)" "wp_sink p = MockSink" "\<forall>b\<in>set bs. framed (wp_format p) b"
    "wp_pending_format p = Some (wp_format p)"
  shows "playout_inv (snd (flush_mock completion bs p))"
  using assms
proof (induction bs arbitrary: completion p)
  case (Cons b bs)
  obtain c q where a: "should_inject_mock_failure StagePrepare p = (c, q)" by (cases "should_inject_mock_failure StagePrepare p")
  obtain i where q: "q = p\<lparr>wp_injected := i\<rparr>" by (rule inject_cases [OF a])
  obtain c' q' where a': "should_inject_mock_failure StageWrite q = (c', q')" by (cases "should_inject_mock_failure StageWrite q")
  obtain i' where q': "q' = q\<lparr>wp_injected := i'\<rparr>" by (rule inject_cases [OF a'])
  let ?b = "b\<lparr>bf_start_frame := wp_next_frame q', bf_mock_start := Some completion,
    bf_mock_completion := Some (completion + ticks_of_ms (bf_duration_ms b)), bf_prepared := True\<rparr>"
  let ?q = "submit_buffer ?b bs (q'\<lparr>wp_submissions := wp_submissions q' + 1\<rparr>)"
  have "playout_inv (q'\<lparr>wp_pending := b # bs\<rparr>)" using Cons.prems(1) by (simp add: q q' stream_defs)
  then have "playout_inv ((submit_buffer ?b bs (q'\<lparr>wp_dev := wp_dev q', wp_submissions := wp_submissions q' + 1\<rparr>))\<lparr>wp_pending := bs\<rparr>)"
    by (rule stream_submit [where pr = True and ms = "Some completion"
          and mc = "Some (completion + ticks_of_ms (bf_duration_ms b))"]) (use Cons.prems in \<open>simp_all add: q q'\<close>)
  then have s: "playout_inv (?q\<lparr>wp_pending := bs\<rparr>)" by simp
  have "playout_inv (snd (flush_mock (completion + ticks_of_ms (bf_duration_ms b)) bs ?q))"
    using s Cons.prems by (intro Cons.IH) (simp_all add: submit_buffer_def q q')
  moreover have "playout_inv (p\<lparr>wp_injected := x, wp_pending := b # bs\<rparr>)" for x
    using Cons.prems(1) by (simp add: stream_defs)
  ultimately show ?case using a a' by (cases c; cases c') (simp_all add: q q' Let_def)
qed (simp add: stream_defs split: if_splits)

lemma stream_flush_device:
  assumes "playout_inv (p\<lparr>wp_pending := bs\<rparr>)" "wp_sink p = WaveOut" "wp_handle p"
  shows "playout_inv (snd (flush_device A bs p))"
  using assms
proof (induction bs arbitrary: p)
  case (Cons b bs)
  obtain x d where pr: "api_prepare A (bf_id b) (wp_dev p) = (x, d)" by (cases "api_prepare A (bf_id b) (wp_dev p)")
  obtain y d' where wr: "api_write A (bf_id b) d = (y, d')" by (cases "api_write A (bf_id b) d")
  let ?b = "b\<lparr>bf_prepared := True\<rparr>"
  let ?q = "submit_buffer (?b\<lparr>bf_start_frame := wp_next_frame p\<rparr>) bs (p\<lparr>wp_dev := d'\<rparr>)"
  have fr: "\<forall>c\<in>set (b # bs). framed (wp_format p) c" using Cons.prems by (simp add: stream_defs)
  have "playout_inv ((submit_buffer (?b\<lparr>bf_start_frame := wp_next_frame p\<rparr>) bs (p\<lparr>wp_dev := d', wp_submissions := wp_submissions p\<rparr>))\<lparr>wp_pending := bs\<rparr>)"
    by (rule stream_submit [OF Cons.prems(1) _ fr, where ms = "bf_mock_start b" and mc = "bf_mock_completion b"]) (use Cons.prems(2,3) in simp_all)
  then have sent: "playout_inv (snd (flush_device A bs ?q))"
    using Cons.prems by (intro Cons.IH) (simp_all add: submit_buffer_def)
  obtain r q where un: "unprepare_header_or_fail A ?b (p\<lparr>wp_dev := d'\<rparr>) = (r, q)"
    by (cases "unprepare_header_or_fail A ?b (p\<lparr>wp_dev := d'\<rparr>)")
  obtain e i u m where q: "q = p\<lparr>wp_dev := e, wp_injected := i, wp_unhealthy := u, wp_reason := m\<rparr>"
    and ok: "\<And>b'. r = Inr b' \<Longrightarrow> b' = b\<lparr>bf_prepared := False\<rparr> \<and> u = wp_unhealthy p" and bad: "\<And>e. r = Inl e \<Longrightarrow> u"
    by (rule unprepare_cases [OF un]) (simp add: that)
  show ?case
  proof (cases x)
    case (Some msg)
    then show ?thesis using pr Cons.prems(1) by (simp add: stream_defs)
  next
    case opn: None
    show ?thesis
    proof (cases y)
      case None
      then show ?thesis using opn pr wr sent by (simp add: Let_def)
    next
      case (Some msg)
      have "playout_inv (q\<lparr>wp_pending := b' # bs\<rparr>)" if "r = Inr b'" for b'
      proof -
        have "carried b' = carried b" "framed (wp_format p) b' = framed (wp_format p) b"
          using ok [OF that] by (simp_all add: carried_def framed_def)
        then show ?thesis using ok [OF that] Cons.prems by (simp add: q stream_defs)
      qed
      moreover have "playout_inv (q\<lparr>wp_pending := bs, wp_orphaned := wp_orphaned q @ [?b]\<rparr>)" if "r = Inl msg'" for msg'
        using bad [OF that] Cons.prems by (simp add: q stream_defs)
      ultimately show ?thesis using opn Some pr wr un by (cases r) (simp_all add: Let_def)
    qed
  qed
qed (simp add: stream_defs)

lemma stream_flush:
  assumes p: "playout_inv p" and sink: "wp_sink p \<noteq> DisabledSink"
  shows "playout_inv (snd (flush_pending A rd p))"
proof (cases "wp_pending p = [] \<or> \<not> wp_handle p \<and> wp_pending_format p = None")
  case True
  then show ?thesis using p by (auto simp: flush_pending_def)
next
  case False
  show ?thesis
  proof (cases "wp_sink p")
    case MockSink
    have nh: "\<not> wp_handle p" using p MockSink by (simp add: playout_inv_def)
    let ?f = "the (wp_pending_format p)"
    have pf: "wp_pending_format p = Some ?f" using False nh by auto
    have fmt: "wp_format p = ?f" if "wp_started p" using p that MockSink pf by (auto simp: playout_inv_def)
    have fr: "\<forall>b\<in>set (wp_pending p). framed ?f b"
    proof (cases "wp_started p")
      case True
      then show ?thesis using p MockSink fmt by (simp add: stream_defs)
    next
      case False
      then show ?thesis using p MockSink pf nh by (auto simp: stream_defs)
    qed
    have "playout_inv (p\<lparr>wp_format := ?f, wp_pending := wp_pending p\<rparr>)"
      using p fmt MockSink nh by (cases "wp_started p") (simp add: stream_defs, fastforce simp: stream_defs)
    then have "playout_inv (snd (flush_mock c (wp_pending p) (p\<lparr>wp_format := ?f\<rparr>)))" for c
      using MockSink pf fr by (intro stream_flush_mock) simp_all
    then show ?thesis using MockSink False p by (simp add: flush_pending_def)
  next
    case WaveOut
    let ?f = "if wp_handle p then wp_format p else the (wp_pending_format p)"
    obtain r q where opn: "open_or_validate A ?f p = (r, q)" by (cases "open_or_validate A ?f p")
    obtain d h g where q: "q = p\<lparr>wp_dev := d, wp_handle := h, wp_format := g\<rparr>" and h: "wp_handle p \<longrightarrow> h" "\<And>u. r = Inr u \<Longrightarrow> h"
      and g: "g = (if h \<and> \<not> wp_handle p then ?f else wp_format p)"
      by (rule open_cases [OF opn]) blast
    have s: "playout_inv q"
    proof (cases "h \<and> \<not> wp_handle p")
      case True
      then show ?thesis using p False WaveOut by (auto simp: q g stream_defs)
    next
      case False
      then show ?thesis using p h(1) by (cases h) (auto simp: q g stream_defs)
    qed
    then have "playout_inv ((set_position_base rd q)\<lparr>wp_pending := wp_pending q\<rparr>)"
      by (simp add: set_position_base_def Let_def stream_defs)
    then have "playout_inv (snd (flush_device A (wp_pending q) (set_position_base rd q)))" if "r = Inr u" for u
      using h(2) [OF that] WaveOut by (intro stream_flush_device) (simp_all add: set_base_fields q)
    then show ?thesis using s opn WaveOut False p by (cases r) (simp_all add: flush_pending_def)
  qed (use sink in auto)
qed

text \<open>After its check the format of a chunk is the one of the stream.\<close>

lemma validate_formats:
  assumes "playout_inv p" "validate_pending_format f p = (Inr u, q)"
  shows "playout_inv q" "opened q = opened p" "opened q \<Longrightarrow> wp_format q = f" "\<not> opened q \<Longrightarrow> wp_pending_format q = Some f"
    "wp_sink q = wp_sink p" "\<not> opened q \<Longrightarrow> \<forall>b\<in>set (wp_pending q). framed f b"
proof -
  consider (mock) "wp_sink p = MockSink" "wp_started p" "wp_format p = f" "q = p\<lparr>wp_pending_format := Some f\<rparr>"
    | (dev) "\<not> (wp_sink p = MockSink \<and> wp_started p)" "wp_handle p" "wp_format p = f" "q = p"
    | (first) "\<not> opened p" "wp_pending_format p = None \<or> wp_pending_format p = Some f" "q = p\<lparr>wp_pending_format := Some f\<rparr>"
    using assms(2) by (auto simp: validate_pending_format_def formats_match_eq opened_def split: if_splits option.splits)
  note cs = this
  show "playout_inv q"
    using cs
  proof cases
    case first
    then show ?thesis using assms(1) by (cases "wp_pending p = []") (auto simp: playout_inv_def formats_inv_def opened_def)
  qed (use assms(1) in \<open>simp_all add: stream_defs\<close>)
  show "opened q = opened p" "wp_sink q = wp_sink p" using cs by (cases; simp add: opened_def)+
  show "opened q \<Longrightarrow> wp_format q = f" using cs by cases (auto simp: opened_def)
  show "\<not> opened q \<Longrightarrow> wp_pending_format q = Some f" using cs by cases (auto simp: opened_def)
  show "\<not> opened q \<Longrightarrow> \<forall>b\<in>set (wp_pending q). framed f b"
    using cs
  proof cases
    case first
    then show ?thesis using assms(1) by (cases "wp_pending p = []") (auto simp: playout_inv_def formats_inv_def)
  qed (auto simp: opened_def)
qed

lemma make_buffer_carries:
  assumes "make_buffer n chunk = Inr b" "enqueue_check sink chunk = Inr True"
  shows "carried b = carries chunk" "framed (pcm_format chunk) b"
  using assms by (auto simp: make_buffer_def and_then_Inr_conv carried_def carries_def framed_def pcm_frame_count_def
      pcm_frame_bytes_def enqueue_check_def split: if_splits)

lemma stream_admit:
  assumes p: "playout_inv p" "wp_sink p \<noteq> DisabledSink" "enqueue_check (wp_sink p) chunk = Inr True"
  shows "playout_inv (snd (admit_chunk A rd rd' chunk p))"
  unfolding admit_chunk_def
proof (rule section_then [where I = playout_inv])
  show "playout_inv (snd (reap_finished A rd p))" by (rule stream_reap [OF p(1)])
next
  fix x q assume q: "reap_finished A rd p = (Inr x, q)" "playout_inv q"
  have sq: "wp_sink q = wp_sink p" using reap_finished_sink [OF q(1)] .
  show "playout_inv (snd (case validate_pending_format (pcm_format chunk) q of (Inl e, p) \<Rightarrow> (Inl e, p)
      | (Inr _, p) \<Rightarrow> (case make_buffer (wp_next_id p) chunk of Inl e \<Rightarrow> (Inl e, p)
          | Inr b \<Rightarrow> let p = p\<lparr>wp_next_id := wp_next_id p + 1, wp_pending := wp_pending p @ [b], wp_admitted := wp_admitted p @ [chunk]\<rparr>
              in if wp_started p \<or> wp_prebuffer p \<le> length (wp_pending p) then flush_pending A rd' p else (Inr (), p))))"
  proof (rule section_then [where I = playout_inv])
    show "playout_inv (snd (validate_pending_format (pcm_format chunk) q))"
    proof (cases "validate_pending_format (pcm_format chunk) q")
      case (Pair r v)
      show ?thesis
      proof (cases r)
        case (Inl e)
        then have "v = q" using Pair by (auto simp: validate_pending_format_def split: if_splits)
        then show ?thesis using Pair q(2) by simp
      next
        case (Inr u)
        then show ?thesis using validate_formats(1) [OF q(2)] Pair by simp
      qed
    qed
    fix y w assume w: "validate_pending_format (pcm_format chunk) q = (Inr y, w)" "playout_inv w"
    note v = validate_formats [OF q(2) w(1)]
    have sw: "wp_sink w \<noteq> DisabledSink" using v(5) sq p(2) by simp
    have "playout_inv (w\<lparr>wp_next_id := wp_next_id w + 1, wp_pending := wp_pending w @ [b], wp_admitted := wp_admitted w @ [chunk]\<rparr>)"
      if "make_buffer (wp_next_id w) chunk = Inr b" for b
    proof -
      note b = make_buffer_carries [OF that p(3)]
      have "formats_inv (w\<lparr>wp_next_id := wp_next_id w + 1, wp_pending := wp_pending w @ [b], wp_admitted := wp_admitted w @ [chunk]\<rparr>)"
        using w(2) v(3,4,6) b(2) by (cases "opened w") (auto simp: stream_defs)
      then show ?thesis using w(2) sw b(1) by (simp add: playout_inv_def)
    qed
    moreover have "playout_inv (snd (flush_pending A rd' t))" if "playout_inv t" "wp_sink t = wp_sink w" for t
      using that sw by (intro stream_flush) simp_all
    ultimately show "playout_inv (snd (case make_buffer (wp_next_id w) chunk of Inl e \<Rightarrow> (Inl e, w)
          | Inr b \<Rightarrow> let p = w\<lparr>wp_next_id := wp_next_id w + 1, wp_pending := wp_pending w @ [b], wp_admitted := wp_admitted w @ [chunk]\<rparr>
              in if wp_started p \<or> wp_prebuffer p \<le> length (wp_pending p) then flush_pending A rd' p else (Inr (), p)))"
      using w(2) by (simp add: Let_def split: sum.split)
  qed
qed

lemma stream_empty:
  assumes "wp_buffers p = []" "wp_pending p = []" "wp_submitted p = []" "wp_admitted p = []" "wp_next_frame p = 0"
    "wp_sink p \<noteq> WaveOut \<longrightarrow> \<not> wp_handle p" "wp_pending_format p = None \<or> wp_sink p \<noteq> MockSink"
  shows "playout_inv p"
  using assms by (auto simp: playout_inv_def formats_inv_def)

lemma reset_position_fields [simp]:
  "wp_buffers (reset_stream_position rd p) = wp_buffers p" "wp_pending (reset_stream_position rd p) = wp_pending p"
  "wp_submitted (reset_stream_position rd p) = []" "wp_admitted (reset_stream_position rd p) = []"
  "wp_next_frame (reset_stream_position rd p) = 0" "wp_sink (reset_stream_position rd p) = wp_sink p"
  "wp_handle (reset_stream_position rd p) = wp_handle p" "wp_pending_format (reset_stream_position rd p) = wp_pending_format p"
  by (simp_all add: reset_stream_position_def split: option.split)

lemma clear_pending_fields [simp]:
  "wp_buffers (clear_pending p) = wp_buffers p" "wp_pending (clear_pending p) = []" "wp_pending_format (clear_pending p) = None"
  "wp_sink (clear_pending p) = wp_sink p" "wp_handle (clear_pending p) = wp_handle p"
  by (simp_all add: clear_pending_def)

lemma stream_closed: "playout_inv p \<Longrightarrow> wp_sink p \<noteq> MockSink \<Longrightarrow> \<not> wp_handle p \<Longrightarrow> wp_buffers p = []"
  by (auto simp: playout_inv_def formats_inv_def opened_def)

interpretation stream: player_invariant A playout_inv for A
proof
  fix p :: "'a WaveOutPlayer" and rd :: "'a Reading"
  assume I: "playout_inv p"
  show "playout_inv (become_unhealthy m p)" for m using stream_unhealthy [OF I] by (simp add: become_unhealthy_def)
  show "wp_buffers p = [] \<or> wp_sink p = WaveOut \<and> \<not> wp_handle p \<Longrightarrow>
      playout_inv (reset_stream_position rd ((clear_pending p)\<lparr>wp_started := False\<rparr>))"
    using I stream_closed [OF I] by (intro stream_empty) (auto simp: playout_inv_def)
  show "wp_sink p = MockSink \<Longrightarrow> playout_inv (reset_stream_position rd
      ((clear_pending (p\<lparr>wp_freed := map bf_id (wp_buffers p) @ wp_freed p, wp_buffers := []\<rparr>))\<lparr>wp_started := False\<rparr>))"
    using I by (intro stream_empty) (simp_all add: playout_inv_def)
  show "wp_sink p = DisabledSink \<Longrightarrow> playout_inv (reset_stream_position rd p)"
    using I stream_closed [OF I] by (intro stream_empty) (auto simp: playout_inv_def)
next
  fix p :: "'a WaveOutPlayer" and dev sink n fa st
  show "new_player dev sink n fa st = Inr p \<Longrightarrow> playout_inv p"
    by (auto simp: new_player_def stream_defs split: if_splits)
qed (simp_all add: stream_reap stream_admit stream_flush)

section \<open>What the device receives\<close>




section \<open>What an interruption plays\<close>

definition playout_buffer :: "AudioFormat \<Rightarrow> WaveBuffer \<Rightarrow> PlayoutBuffer" where
  "playout_buffer f b = \<lparr>pb_chunk = \<lparr>pcm_request_id = bf_request_id b, pcm_format = f, pcm_bytes = bf_bytes b,
     first_sample = 0, sample_count = 0\<rparr>, pb_start_frame = bf_start_frame b\<rparr>"

lemma snapshot_map: "playout_snapshot p = map (playout_buffer (wp_format p)) (wp_buffers p)"
  by (simp add: playout_snapshot_def playout_buffer_def)

lemma order_of_placed:
  assumes "placed s bs e" "subseq cs bs" "\<forall>b\<in>set bs. framed f b" "fb = unat (channels f) * 2"
    "unat s + sum_list (map (\<lambda>b. length (bf_bytes b) div fb) bs) < 2 ^ 64" "case prev of None \<Rightarrow> True | Some x \<Rightarrow> x \<le> unat s"
  shows "check_order fb prev (map (playout_buffer f) cs) = Inr ()"
  using assms
proof (induction bs arbitrary: s cs prev)
  case (Cons b bs)
  let ?n = "length (bf_bytes b) div fb"
  have n: "bf_frame_count b = of_nat ?n" "?n < 2 ^ 64" using Cons.prems(3,4,5) by (auto simp: framed_def)
  have s': "unat (s + bf_frame_count b) = unat s + ?n"
    using Cons.prems(5) n by (simp add: unat_word_ariths unat_of_nat)
  have IH: "check_order fb prev' (map (playout_buffer f) cs') = Inr ()"
    if "subseq cs' bs" "case prev' of None \<Rightarrow> True | Some x \<Rightarrow> x \<le> unat s + ?n" for cs' prev'
  proof (rule Cons.IH [of "s + bf_frame_count b"])
    show "unat (s + bf_frame_count b) + sum_list (map (\<lambda>b. length (bf_bytes b) div fb) bs) < 2 ^ 64"
      using Cons.prems(5) by (simp add: s')
    show "case prev' of None \<Rightarrow> True | Some x \<Rightarrow> x \<le> unat (s + bf_frame_count b)" using that(2) unfolding s' .
  qed (use Cons.prems that in simp_all)
  show ?case
  proof (cases cs)
    case (Cons c cs')
    show ?thesis
    proof (cases "c = b")
      case True
      have sub: "subseq cs' bs" using Cons.prems(2) Cons True by simp
      have st: "bf_start_frame b = s" using Cons.prems(1) by simp
      have cnt: "buffer_count fb (playout_buffer f b) = ?n" "buffer_end fb (playout_buffer f b) = unat s + ?n"
        by (simp_all add: buffer_count_def buffer_end_def playout_buffer_def st)
      have "check_order fb (Some (unat s + ?n)) (map (playout_buffer f) cs') = Inr ()" by (rule IH [OF sub]) simp
      moreover have "pb_start_frame (playout_buffer f b) = s" by (simp add: playout_buffer_def st)
      ultimately show ?thesis using Cons.prems(5,6) cnt by (auto simp: Cons True split: option.splits)
    next
      case False
      have sub: "subseq (c # cs') bs" using Cons.prems(2) Cons False by simp
      show ?thesis unfolding Cons by (rule IH [OF sub]) (use Cons.prems(6) in \<open>auto split: option.splits\<close>)
    qed
  qed simp
next
  case (Nil s)
  then have "cs = []" by (auto dest: list_emb_Nil2)
  then show ?case by simp
qed

lemma queued_framed:
  assumes "playout_inv p" "wp_buffers p \<noteq> []"
  shows "\<forall>b\<in>set (wp_submitted p). framed (wp_format p) b" "\<forall>b\<in>set (wp_buffers p). framed (wp_format p) b"
proof -
  have "wp_submitted p \<noteq> []" using assms by (auto simp: playout_inv_def)
  then show "\<forall>b\<in>set (wp_submitted p). framed (wp_format p) b" using assms(1) by (auto simp: playout_inv_def formats_inv_def)
  then show "\<forall>b\<in>set (wp_buffers p). framed (wp_format p) b" using assms(1) by (auto simp: playout_inv_def dest: list_emb_set)
qed

text \<open>C37. An interruption of playback, in any schedule, never fails for the positions or the format of the
  queued buffers. It plays the first frames at or after the cursor, in order and for the length of the
  fade, faded out, on behalf of the request whose buffer is the first to end after the cursor; or
  nothing if all frames have been played.\<close>

theorem player_interruption_tail:
  assumes "player_reachable A p" and "wp_buffers p \<noteq> []" and "current_playout_cursor_frame rd p = Some cursor" and "fade \<noteq> 0"
    and "sum_list (map (\<lambda>b. length (bf_bytes b)) (wp_submitted p)) < 2 ^ 64"
  shows "interruption_tail rd fade p = Inr
     (let f = wp_format p; fb = unat (channels f) * 2;
          played = take (cursor_fade_frames f fade) (frames_from_cursor fb (unat cursor) (playout_snapshot p)) in
      if played = [] then None
      else Some \<lparr>pcm_request_id = pcm_request_id (pb_chunk (hd (filter (\<lambda>b. unat cursor < buffer_end fb b) (playout_snapshot p)))),
                 pcm_format = f, pcm_bytes = fade_bytes (unat (channels f)) (concat (map snd played)),
                 first_sample = 0, sample_count = 0\<rparr>)"
proof -
  let ?f = "wp_format p" and ?B = "playout_snapshot p"
  define fb where "fb = unat (channels ?f) * 2"
  have s: "playout_inv p" by (rule stream.inv_reachable [OF assms(1)])
  note fr = queued_framed [OF s assms(2)]
  obtain b bs where bs: "wp_buffers p = b # bs" using assms(2) by (cases "wp_buffers p") auto
  have f: "pcm_format (pb_chunk (hd ?B)) = ?f" "?B \<noteq> []" by (simp_all add: snapshot_map bs playout_buffer_def)
  have ok: "cursor_frame_bytes ?f = Inr fb" using fr(2) bs by (simp add: cursor_frame_bytes_def framed_def fb_def)
  have fm: "check_formats ?f fb ?B = Inr ()"
    using fr(2) by (auto simp: check_formats_def snapshot_map playout_buffer_def framed_def fb_def)
  have "sum_list (map (\<lambda>b. length (bf_bytes b) div fb) (wp_submitted p)) \<le> sum_list (map (\<lambda>b. length (bf_bytes b)) (wp_submitted p))"
    by (rule sum_list_mono) simp
  then have od: "check_order fb None ?B = Inr ()"
    unfolding snapshot_map using s fr(1) assms(5) by (intro order_of_placed [of 0 "wp_submitted p" "wp_next_frame p"]) (simp_all add: playout_inv_def fb_def)
  have "\<exists>r. make_playout_cursor_fade ?B cursor fade = Inr r"
    unfolding make_playout_cursor_fade_def Let_def f(1) by (simp add: f(2) ok fm od)
  then obtain r where r: "make_playout_cursor_fade ?B cursor fade = Inr r" by blast
  have "interruption_tail rd fade p = Inr r" using assms(2,3) r by (simp add: interruption_tail_def)
  then show ?thesis using cursor_fade_selects_frames [OF r f(2) assms(4)] by (simp only: f(1))
qed

theorem player_interruption_tail_witness:
  "interruption_tail idle_reading 1 playing_player =
     Inr (Some \<lparr>pcm_request_id = 7, pcm_format = pcm_format mono_chunk, pcm_bytes = fade_bytes 1 [1, 2, 3, 4],
       first_sample = 0, sample_count = 0\<rparr>)"
proof -
  have st: "playout_snapshot playing_player = [\<lparr>pb_chunk = \<lparr>pcm_request_id = 7, pcm_format = pcm_format mono_chunk,
        pcm_bytes = [1, 2, 3, 4], first_sample = 0, sample_count = 0\<rparr>, pb_start_frame = 0\<rparr>]"
    "current_playout_cursor_frame idle_reading playing_player = Some 0" "wp_buffers playing_player \<noteq> []"
    "sum_list (map (\<lambda>b. length (bf_bytes b)) (wp_submitted playing_player)) < 2 ^ 64" "wp_format playing_player = pcm_format mono_chunk"
    by (simp_all add: sample_player_defs playout_snapshot_def current_playout_cursor_frame_def)
  have "interruption_tail idle_reading 1 playing_player = Inr
     (let f = wp_format playing_player; fb = unat (channels f) * 2;
          played = take (cursor_fade_frames f 1) (frames_from_cursor fb (unat (0 :: u64)) (playout_snapshot playing_player)) in
      if played = [] then None
      else Some \<lparr>pcm_request_id = pcm_request_id (pb_chunk (hd (filter (\<lambda>b. unat (0 :: u64) < buffer_end fb b) (playout_snapshot playing_player)))),
                 pcm_format = f, pcm_bytes = fade_bytes (unat (channels f)) (concat (map snd played)),
                 first_sample = 0, sample_count = 0\<rparr>)"
    by (rule player_interruption_tail [OF playing_reachable st(3,2) _ st(4)]) simp
  moreover have "frames_from_cursor 2 0 (playout_snapshot playing_player) = [(0, [1, 2]), (1, [3, 4])]"
    by (simp add: st(1) mono_chunk_def frames_from_cursor_def buffer_frames_def buffer_count_def upt_rec_numeral)
  moreover have "cursor_fade_frames (pcm_format mono_chunk) 1 = 24" "channels (pcm_format mono_chunk) = 1"
    by (simp_all add: mono_chunk_def cursor_fade_frames_def)
  ultimately show ?thesis by (simp add: st(1,5) Let_def buffer_end_def buffer_count_def)
qed

section \<open>A format without audio\<close>

text \<open>A chunk that does not consist of complete frames is refused after its format has been noted, so that
  on an idle player the next chunk of another format is refused as well, although nothing is buffered.\<close>

lemma refused_chunk_keeps_format:
  assumes p: "wp_sink p = WaveOut" "\<not> wp_handle p" "\<not> wp_started p" "wp_buffers p = []" "wp_pending p = []"
      "wp_pending_format p = None" "\<not> wp_unhealthy p"
    and c: "enqueue_check WaveOut chunk = Inr True" "length (pcm_bytes chunk) mod (unat (channels (pcm_format chunk)) * 2) \<noteq> 0"
    and c': "enqueue_check WaveOut chunk' = Inr True" "pcm_format chunk' \<noteq> pcm_format chunk"
  shows "\<exists>q q'. enqueue_first A rds (wp_epoch p) chunk p = (Inl ''PCM buffer does not contain complete frames'', q) \<and>
     wp_buffers q = [] \<and> wp_pending q = [] \<and>
     enqueue_first A rds' (wp_epoch p) chunk' q =
       (Inl ''default-device playback cannot change PCM format while audio is buffered'', q')"
proof -
  have ch: "channels (pcm_format chunk) \<noteq> 0" using c(1) by (auto simp: enqueue_check_def split: if_splits)
  have mk: "make_buffer n chunk = Inl ''PCM buffer does not contain complete frames''" for n
    using c(2) ch by (simp add: make_buffer_def pcm_frame_count_def pcm_frame_bytes_def)
  let ?q = "p\<lparr>wp_dev := rd_run (rds 3) (wp_dev p), wp_pending_format := Some (pcm_format chunk)\<rparr>"
  have "enqueue_first A rds (wp_epoch p) chunk p = (Inl ''PCM buffer does not contain complete frames'', ?q)"
    using p c(1) by (simp add: enqueue_first_def throw_if_unhealthy_def enqueue_round_def Let_def admit_chunk_def reap_finished_def
        validate_pending_format_def mk)
  moreover have "enqueue_first A rds' (wp_epoch p) chunk' ?q =
      (Inl ''default-device playback cannot change PCM format while audio is buffered'', ?q\<lparr>wp_dev := rd_run (rds' 3) (wp_dev ?q)\<rparr>)"
    using p c' by (simp add: enqueue_first_def throw_if_unhealthy_def enqueue_round_def Let_def admit_chunk_def reap_finished_def
        validate_pending_format_def formats_match_eq)
  ultimately show ?thesis using p by auto
qed

end
